(* ===== verification/Kern_Prelude.thy ===== *)
theory Kern_Prelude
  imports Main "HOL-Library.Word"
begin

text \<open>
  Shared vocabulary of the development: the C integer types as words, the faults a run of the
  module can end in, the state-and-fault monad in which every operation that touches memory is
  written, the loops the C code uses, total and partial triples with their rules, and the
  interface of a typed heap (one map per C struct type) with the lemmas on loads, stores,
  allocation and release that the components share.
\<close>

section \<open>Machine types\<close>

type_synonym addr = "64 word"
type_synonym u64 = "64 word"
type_synonym u32 = "32 word"
type_synonym u16 = "16 word"
type_synonym byte = "8 word"
type_synonym c_int = "32 word"

text \<open>A C \<open>int\<close> is a 32-bit word read with \<open>sint\<close>; a pointer is a 64-bit word and 0 is NULL.\<close>

abbreviation (input) NULL :: addr where
  "NULL \<equiv> 0"

abbreviation (input) ENOMEM :: c_int where
  "ENOMEM \<equiv> 12"

text \<open>The number of iterations of \<open>for (i = 0; i < n; i++)\<close> with a signed bound.\<close>

definition iters :: "c_int \<Rightarrow> nat" where
  "iters n = nat (sint n)"

text \<open>The value of a signed \<open>int\<close> used as a \<open>size_t\<close>: sign extension, then unsigned.\<close>

definition size_of_int :: "c_int \<Rightarrow> u64" where
  "size_of_int n = scast n"

lemma uint_size_of_int:
  assumes "0 \<le> sint n"
  shows "uint (size_of_int n) = sint n"
proof -
  have "sint n < 2 ^ 31" using sint_lt[of n] by simp
  then have "sint n mod 2 ^ 64 = sint n" using assms by simp
  then show ?thesis unfolding size_of_int_def scast_eq uint_word_of_int by simp
qed

lemma unat_size_of_int: "0 \<le> sint n \<Longrightarrow> unat (size_of_int n) = nat (sint n)"
  by (simp add: uint_size_of_int flip: nat_uint_eq)

section \<open>Faults and the kernel monad\<close>

text \<open>
  \<open>NullDeref\<close>: a NULL pointer is dereferenced. \<open>BadAccess\<close>: an object that is not live is
  accessed. \<open>BadFree\<close>: an object that is not live is released. \<open>OutOfBounds\<close>: an access past the
  end of an object. \<open>Blocked\<close>: the thread sleeps or spins and nothing is left to wake it.
  \<open>BugOn\<close>: a \<open>BUG_ON\<close> fires. \<open>OutOfFuel\<close>: the bound given to a polling loop is used up.
\<close>

datatype fault = NullDeref | BadAccess | BadFree | OutOfBounds | Blocked | BugOn | OutOfFuel

type_synonym ('s, 'a) kern = "'s \<Rightarrow> fault + 'a \<times> 's"

definition returnK :: "'a \<Rightarrow> ('s, 'a) kern" where
  "returnK a s = Inr (a, s)"

definition failK :: "fault \<Rightarrow> ('s, 'a) kern" where
  "failK e s = Inl e"

definition bindK :: "('s, 'a) kern \<Rightarrow> ('a \<Rightarrow> ('s, 'b) kern) \<Rightarrow> ('s, 'b) kern" where
  "bindK m f s = (case m s of Inl e \<Rightarrow> Inl e | Inr (a, s') \<Rightarrow> f a s')"

definition thenK :: "('s, 'a) kern \<Rightarrow> ('s, 'b) kern \<Rightarrow> ('s, 'b) kern" where
  "thenK m n = bindK m (\<lambda>_. n)"

definition getK :: "('s \<Rightarrow> 'a) \<Rightarrow> ('s, 'a) kern" where
  "getK f s = Inr (f s, s)"

definition modifyK :: "('s \<Rightarrow> 's) \<Rightarrow> ('s, unit) kern" where
  "modifyK f s = Inr ((), f s)"

definition whenK :: "bool \<Rightarrow> ('s, unit) kern \<Rightarrow> ('s, unit) kern" where
  "whenK b m = (if b then m else returnK ())"

text \<open>A \<open>for\<close> loop, and one whose body may leave it (\<open>goto\<close> or \<open>return\<close>) with a value.\<close>

primrec forK :: "(nat \<Rightarrow> ('s, unit) kern) \<Rightarrow> nat list \<Rightarrow> ('s, unit) kern" where
  "forK b [] = returnK ()"
| "forK b (i # is) = bindK (b i) (\<lambda>_. forK b is)"

primrec loopK :: "(nat \<Rightarrow> ('s, 'r option) kern) \<Rightarrow> nat list \<Rightarrow> ('s, 'r option) kern" where
  "loopK b [] = returnK None"
| "loopK b (i # is) =
     bindK (b i) (\<lambda>r. case r of Some x \<Rightarrow> returnK (Some x) | None \<Rightarrow> loopK b is)"

text \<open>
  \<open>runs P m Q\<close>: from every state in \<open>P\<close> the operation returns, without a fault, and the result
  satisfies \<open>Q\<close>. \<open>keeps P m Q\<close>: whenever it returns from a state in \<open>P\<close>, the result satisfies \<open>Q\<close>.
\<close>

definition runs :: "('s \<Rightarrow> bool) \<Rightarrow> ('s, 'a) kern \<Rightarrow> ('a \<Rightarrow> 's \<Rightarrow> bool) \<Rightarrow> bool" where
  "runs P m Q \<longleftrightarrow> (\<forall>s. P s \<longrightarrow> (\<exists>a s'. m s = Inr (a, s') \<and> Q a s'))"

definition keeps :: "('s \<Rightarrow> bool) \<Rightarrow> ('s, 'a) kern \<Rightarrow> ('a \<Rightarrow> 's \<Rightarrow> bool) \<Rightarrow> bool" where
  "keeps P m Q \<longleftrightarrow> (\<forall>s a s'. P s \<longrightarrow> m s = Inr (a, s') \<longrightarrow> Q a s')"

section \<open>Typed heaps\<close>

text \<open>
  The memory of a C struct type is a field of the state, read by \<open>get\<close> and updated by \<open>upd\<close>.
  An access to a live object returns or replaces it; NULL and dead objects fault. \<open>kfree(NULL)\<close>
  does nothing, as documented.
\<close>

type_synonym ('s, 'v) getter = "'s \<Rightarrow> addr \<Rightarrow> 'v option"
type_synonym ('s, 'v) setter = "((addr \<Rightarrow> 'v option) \<Rightarrow> addr \<Rightarrow> 'v option) \<Rightarrow> 's \<Rightarrow> 's"

definition load :: "('s, 'v) getter \<Rightarrow> addr \<Rightarrow> ('s, 'v) kern" where
  "load get p s =
     (if p = NULL then Inl NullDeref
      else case get s p of None \<Rightarrow> Inl BadAccess | Some v \<Rightarrow> Inr (v, s))"

definition modify_at ::
    "('s, 'v) getter \<Rightarrow> ('s, 'v) setter \<Rightarrow> addr \<Rightarrow> ('v \<Rightarrow> 'v) \<Rightarrow> ('s, unit) kern" where
  "modify_at get upd p f s =
     (if p = NULL then Inl NullDeref
      else case get s p of None \<Rightarrow> Inl BadAccess
           | Some v \<Rightarrow> Inr ((), upd (\<lambda>_. (get s)(p \<mapsto> f v)) s))"

definition create_at ::
    "('s, 'v) getter \<Rightarrow> ('s, 'v) setter \<Rightarrow> addr \<Rightarrow> 'v \<Rightarrow> ('s, unit) kern" where
  "create_at get upd p v s = Inr ((), upd (\<lambda>_. (get s)(p \<mapsto> v)) s)"

definition release :: "('s, 'v) getter \<Rightarrow> ('s, 'v) setter \<Rightarrow> addr \<Rightarrow> ('s, unit) kern" where
  "release get upd p s =
     (case get s p of None \<Rightarrow> Inl BadFree | Some _ \<Rightarrow> Inr ((), upd (\<lambda>_. (get s)(p := None)) s))"

definition free_at :: "('s, 'v) getter \<Rightarrow> ('s, 'v) setter \<Rightarrow> addr \<Rightarrow> ('s, unit) kern" where
  "free_at get upd p = (if p = NULL then returnK () else release get upd p)"

section \<open>Rules of the monad\<close>

named_theorems kern_simps \<open>unfolding one monadic step\<close>
named_theorems kern_inv \<open>inversion of a run that returned\<close>
named_theorems model_defs \<open>definitions of the components, unfolded on demand\<close>

lemma bindK_returnK [simp]: "bindK (returnK a) f = f a"
  by (rule ext) (simp add: bindK_def returnK_def)

lemma bindK_failK [simp]: "bindK (failK e) f = failK e"
  by (rule ext) (simp add: bindK_def failK_def)

lemma bindK_assoc: "bindK (bindK m f) g = bindK m (\<lambda>a. bindK (f a) g)"
  by (rule ext) (auto simp: bindK_def split: sum.splits prod.splits)

lemma bindK_Inr: "m s = Inr (a, s') \<Longrightarrow> bindK m f s = f a s'"
  by (simp add: bindK_def)

lemma bindK_Inl: "m s = Inl e \<Longrightarrow> bindK m f s = Inl e"
  by (simp add: bindK_def)

lemma bindK_eq_Inr [kern_inv]:
  "bindK m f s = Inr x \<longleftrightarrow> (\<exists>a s'. m s = Inr (a, s') \<and> f a s' = Inr x)"
  by (auto simp: bindK_def split: sum.splits)

lemma thenK_eq_Inr [kern_inv]:
  "thenK m n s = Inr x \<longleftrightarrow> (\<exists>a s'. m s = Inr (a, s') \<and> n s' = Inr x)"
  by (simp add: thenK_def bindK_eq_Inr)

lemma thenK_Inr: "m s = Inr (a, s') \<Longrightarrow> thenK m n s = n s'"
  by (simp add: thenK_def bindK_def)

lemma thenK_Inl: "m s = Inl e \<Longrightarrow> thenK m n s = Inl e"
  by (simp add: thenK_def bindK_def)

lemma returnK_apply [simp, kern_simps]: "returnK a s = Inr (a, s)"
  by (simp add: returnK_def)

lemma failK_apply [simp, kern_simps]: "failK e s = Inl e"
  by (simp add: failK_def)

lemma getK_apply [simp, kern_simps]: "getK f s = Inr (f s, s)"
  by (simp add: getK_def)

lemma modifyK_apply [simp, kern_simps]: "modifyK f s = Inr ((), f s)"
  by (simp add: modifyK_def)

lemma whenK_simps [simp, kern_simps]: "whenK True m = m" "whenK False m = returnK ()"
  by (simp_all add: whenK_def)

text \<open>
  Symbolic execution: with these rules \<open>simp\<close> runs a program statement by statement from a known
  state, instead of unfolding the monad.
\<close>

named_theorems run_simps \<open>one statement executed in a known state\<close>

lemma bindK_getK [run_simps]: "bindK (getK g) f s = f (g s) s"
  by (simp add: bindK_def)

lemma thenK_modifyK [run_simps]: "thenK (modifyK g) m s = m (g s)"
  by (simp add: thenK_def bindK_def)

lemma thenK_returnK [run_simps]: "thenK (returnK a) m = m"
  by (simp add: thenK_def)

lemma thenK_failK [run_simps]: "thenK (failK e) m = failK e"
  by (simp add: thenK_def)

lemma bind_eta_returnK [run_simps]: "bindK (\<lambda>s. Inr (a, s)) f = f a" "thenK (\<lambda>s. Inr (a, s)) m = m"
  by (rule ext, simp add: bindK_def thenK_def)+

lemma thenK_assoc [run_simps]: "thenK (thenK m n) k = thenK m (thenK n k)"
  by (simp add: thenK_def bindK_assoc)

lemma thenK_bindK [run_simps]: "thenK (bindK m f) k = bindK m (\<lambda>a. thenK (f a) k)"
  by (simp add: thenK_def bindK_assoc)

lemma bindK_thenK [run_simps]: "bindK (thenK m n) f = thenK m (bindK n f)"
  by (simp add: thenK_def bindK_assoc)

lemmas bindK_assoc_run [run_simps] = bindK_assoc

lemma bindK_if [run_simps]: "bindK (if c then m else n) f = (if c then bindK m f else bindK n f)"
  by simp

lemma thenK_if [run_simps]: "thenK (if c then m else n) k = (if c then thenK m k else thenK n k)"
  by simp

lemma bindK_load [run_simps]:
  "p \<noteq> 0 \<Longrightarrow> get s p = Some v \<Longrightarrow> bindK (load get p) f s = f v s"
  by (simp add: bindK_def load_def)

lemma thenK_load [run_simps]:
  "p \<noteq> 0 \<Longrightarrow> get s p = Some v \<Longrightarrow> thenK (load get p) m s = m s"
  by (simp add: thenK_def bindK_def load_def)

lemma thenK_modify_at [run_simps]:
  "p \<noteq> 0 \<Longrightarrow> get s p = Some v \<Longrightarrow>
   thenK (modify_at get upd p g) m s = m (upd (\<lambda>_. (get s)(p \<mapsto> g v)) s)"
  by (simp add: thenK_def bindK_def modify_at_def)

lemma modify_at_run [run_simps]:
  "p \<noteq> 0 \<Longrightarrow> get s p = Some v \<Longrightarrow>
   modify_at get upd p g s = Inr ((), upd (\<lambda>_. (get s)(p \<mapsto> g v)) s)"
  by (simp add: modify_at_def)

lemma thenK_create_at [run_simps]:
  "thenK (create_at get upd p v) m s = m (upd (\<lambda>_. (get s)(p \<mapsto> v)) s)"
  by (simp add: thenK_def bindK_def create_at_def)

lemma thenK_release [run_simps]:
  "get s p = Some v \<Longrightarrow> thenK (release get upd p) m s = m (upd (\<lambda>_. (get s)(p := None)) s)"
  by (simp add: thenK_def bindK_def release_def)

lemma release_run [run_simps]:
  "get s p = Some v \<Longrightarrow> release get upd p s = Inr ((), upd (\<lambda>_. (get s)(p := None)) s)"
  by (simp add: release_def)

lemma thenK_free_at [run_simps]:
  "p \<noteq> 0 \<Longrightarrow> get s p = Some v \<Longrightarrow>
   thenK (free_at get upd p) m s = m (upd (\<lambda>_. (get s)(p := None)) s)"
  by (simp add: free_at_def thenK_release)

lemma free_at_run [run_simps]:
  "p \<noteq> 0 \<Longrightarrow> get s p = Some v \<Longrightarrow> free_at get upd p s = Inr ((), upd (\<lambda>_. (get s)(p := None)) s)"
  by (simp add: free_at_def release_run)

lemma bindK_stmt [run_simps]:
  "p \<noteq> 0 \<Longrightarrow> get s p = Some v \<Longrightarrow>
   bindK (modify_at get upd p g) f s = f () (upd (\<lambda>_. (get s)(p \<mapsto> g v)) s)"
  "bindK (create_at get upd p v) f s = f () (upd (\<lambda>_. (get s)(p \<mapsto> v)) s)"
  "get s p = Some v \<Longrightarrow> bindK (release get upd p) f s = f () (upd (\<lambda>_. (get s)(p := None)) s)"
  "p \<noteq> 0 \<Longrightarrow> get s p = Some v \<Longrightarrow>
   bindK (free_at get upd p) f s = f () (upd (\<lambda>_. (get s)(p := None)) s)"
  "bindK (modifyK h) f s = f () (h s)"
  by (simp_all add: bindK_def modify_at_def create_at_def release_def free_at_def)

text \<open>Statements that fault.\<close>

lemma release_faults [run_simps]:
  "get s p = None \<Longrightarrow> release get upd p s = Inl BadFree"
  "get s p = None \<Longrightarrow> thenK (release get upd p) m s = Inl BadFree"
  "p \<noteq> 0 \<Longrightarrow> get s p = None \<Longrightarrow> free_at get upd p s = Inl BadFree"
  "p \<noteq> 0 \<Longrightarrow> get s p = None \<Longrightarrow> thenK (free_at get upd p) m s = Inl BadFree"
  by (simp_all add: release_def free_at_def thenK_def bindK_def)

lemma access_faults [run_simps]:
  "bindK (load get 0) f s = Inl NullDeref"
  "thenK (load get 0) m s = Inl NullDeref"
  "p \<noteq> 0 \<Longrightarrow> get s p = None \<Longrightarrow> bindK (load get p) f s = Inl BadAccess"
  "p \<noteq> 0 \<Longrightarrow> get s p = None \<Longrightarrow> thenK (load get p) m s = Inl BadAccess"
  "thenK (modify_at get upd 0 g) m s = Inl NullDeref"
  "p \<noteq> 0 \<Longrightarrow> get s p = None \<Longrightarrow> thenK (modify_at get upd p g) m s = Inl BadAccess"
  by (simp_all add: load_def modify_at_def thenK_def bindK_def)

lemma free_at_NULL [simp]: "free_at get upd 0 = returnK ()"
  by (simp add: free_at_def)

lemma forK_append: "forK b (xs @ ys) = thenK (forK b xs) (forK b ys)"
proof (induction xs)
  case Nil
  show ?case by (rule ext) (simp add: thenK_def bindK_def)
next
  case (Cons x xs)
  then show ?case by (simp add: thenK_def bindK_assoc)
qed

text \<open>A loop whose iterations change nothing, and one of which may fault.\<close>

lemma forK_idle: "(\<And>i. i \<in> set is \<Longrightarrow> b i s = Inr ((), s)) \<Longrightarrow> forK b is s = Inr ((), s)"
  by (induction "is") (simp_all add: bindK_Inr)

lemma forK_first_fault:
  "(\<And>i. i \<in> set is \<Longrightarrow> b i s = Inr ((), s) \<or> b i s = Inl e) \<Longrightarrow> j \<in> set is \<Longrightarrow> b j s = Inl e \<Longrightarrow>
   forK b is s = Inl e"
proof (induction "is")
  case (Cons i "is")
  have "b i s = Inr ((), s) \<or> b i s = Inl e" using Cons.prems(1) by simp
  then show ?case
  proof
    assume i: "b i s = Inr ((), s)"
    then have "j \<in> set is" using Cons.prems(2,3) by auto
    then show ?thesis using Cons i by (simp add: bindK_Inr)
  qed (simp add: bindK_Inl)
qed simp

lemma runsD: "runs P m Q \<Longrightarrow> P s \<Longrightarrow> \<exists>a s'. m s = Inr (a, s') \<and> Q a s'"
  by (simp add: runs_def)

lemma runsI: "(\<And>s. P s \<Longrightarrow> \<exists>a s'. m s = Inr (a, s') \<and> Q a s') \<Longrightarrow> runs P m Q"
  by (simp add: runs_def)

lemma keepsD: "keeps P m Q \<Longrightarrow> P s \<Longrightarrow> m s = Inr (a, s') \<Longrightarrow> Q a s'"
  by (simp add: keeps_def)

lemma keepsI: "(\<And>s a s'. P s \<Longrightarrow> m s = Inr (a, s') \<Longrightarrow> Q a s') \<Longrightarrow> keeps P m Q"
  by (simp add: keeps_def)

lemma runs_keeps: "runs P m Q \<Longrightarrow> keeps P m Q"
  by (fastforce simp: runs_def keeps_def)

lemma keeps_bindK:
  assumes "keeps P m R" and "\<And>a. keeps (R a) (f a) Q"
  shows "keeps P (bindK m f) Q"
  using assms by (fastforce simp: keeps_def bindK_eq_Inr)

lemma runs_bindK:
  assumes "runs P m R" and "\<And>a. runs (R a) (f a) Q"
  shows "runs P (bindK m f) Q"
  using assms unfolding runs_def by (metis bindK_Inr)

text \<open>\<open>tries e P m Q\<close>: from every state in \<open>P\<close> the operation faults with \<open>e\<close> or returns in \<open>Q\<close>.\<close>

definition tries :: "fault \<Rightarrow> ('s \<Rightarrow> bool) \<Rightarrow> ('s, 'a) kern \<Rightarrow> ('a \<Rightarrow> 's \<Rightarrow> bool) \<Rightarrow> bool" where
  "tries e P m Q \<longleftrightarrow> (\<forall>s. P s \<longrightarrow> m s = Inl e \<or> (\<exists>a s'. m s = Inr (a, s') \<and> Q a s'))"

lemma tries_bindK:
  assumes "tries e P m R" and "\<And>a. tries e (R a) (f a) Q"
  shows "tries e P (bindK m f) Q"
  using assms unfolding tries_def by (metis bindK_Inl bindK_Inr)

lemma runs_tries: "runs P m Q \<Longrightarrow> tries e P m Q"
  by (auto simp: runs_def tries_def)

lemma tries_forK:
  assumes "\<And>i. i \<in> set is \<Longrightarrow> tries e I (b i) (\<lambda>_. I)"
  shows "tries e I (forK b is) (\<lambda>_. I)"
  using assms
proof (induction "is")
  case (Cons i "is")
  have "tries e I (b i) (\<lambda>_. I)" and "tries e I (forK b is) (\<lambda>_. I)"
    using Cons by simp_all
  then show ?case by (simp add: tries_bindK)
qed (simp add: tries_def)

text \<open>The invariant rules of the counting loop.\<close>

lemma runs_forK_from:
  assumes "\<And>i. k \<le> i \<Longrightarrow> i < n \<Longrightarrow> runs (J i) (b i) (\<lambda>_. J (Suc i))"
  shows "k \<le> n \<Longrightarrow> runs (J k) (forK b [k..<n]) (\<lambda>_. J n)"
  using assms
proof (induction "n - k" arbitrary: k)
  case 0
  then show ?case by (simp add: runs_def)
next
  case (Suc d)
  then have k: "k < n" by linarith
  have rest: "runs (J (Suc k)) (forK b [Suc k..<n]) (\<lambda>_. J n)"
    using Suc.hyps(1)[of "Suc k"] Suc.hyps(2) Suc.prems k by simp
  have first: "runs (J k) (b k) (\<lambda>_. J (Suc k))"
    using Suc.prems(2) k by simp
  from k have "forK b [k..<n] = bindK (b k) (\<lambda>_. forK b [Suc k..<n])"
    by (simp add: upt_conv_Cons)
  then show ?case
    using runs_bindK[OF first rest] by simp
qed

lemma runs_forK:
  assumes "\<And>i. i < n \<Longrightarrow> runs (J i) (b i) (\<lambda>_. J (Suc i))"
  shows "runs (J 0) (forK b [0..<n]) (\<lambda>_. J n)"
  using runs_forK_from[of 0 n J b] assms by simp

text \<open>The same for the loop that may be left early, where \<open>E\<close> holds of the value it is left with.\<close>

lemma runs_loopK_from:
  assumes "\<And>i. k \<le> i \<Longrightarrow> i < n \<Longrightarrow>
      runs (J i) (b i) (\<lambda>r s. case r of None \<Rightarrow> J (Suc i) s | Some x \<Rightarrow> E x s)"
  shows "k \<le> n \<Longrightarrow> runs (J k) (loopK b [k..<n]) (\<lambda>r s. case r of None \<Rightarrow> J n s | Some x \<Rightarrow> E x s)"
  using assms
proof (induction "n - k" arbitrary: k)
  case 0
  then show ?case by (simp add: runs_def)
next
  case (Suc d)
  then have k: "k < n" by linarith
  have rest: "runs (J (Suc k)) (loopK b [Suc k..<n]) (\<lambda>r s. case r of None \<Rightarrow> J n s | Some x \<Rightarrow> E x s)"
    using Suc.hyps(1)[of "Suc k"] Suc.hyps(2) Suc.prems k by simp
  have first: "runs (J k) (b k) (\<lambda>r s. case r of None \<Rightarrow> J (Suc k) s | Some x \<Rightarrow> E x s)"
    using Suc.prems(2) k by simp
  have left: "runs (E x) (returnK (Some x)) (\<lambda>r s. case r of None \<Rightarrow> J n s | Some x \<Rightarrow> E x s)" for x
    by (simp add: runs_def)
  from k have unroll: "loopK b [k..<n] =
      bindK (b k) (\<lambda>r. case r of Some x \<Rightarrow> returnK (Some x) | None \<Rightarrow> loopK b [Suc k..<n])"
    by (simp add: upt_conv_Cons)
  have step: "runs (\<lambda>s. case r of None \<Rightarrow> J (Suc k) s | Some x \<Rightarrow> E x s)
      (case r of Some x \<Rightarrow> returnK (Some x) | None \<Rightarrow> loopK b [Suc k..<n])
      (\<lambda>r s. case r of None \<Rightarrow> J n s | Some x \<Rightarrow> E x s)" for r
    using rest left by (cases r) simp_all
  show ?case unfolding unroll by (rule runs_bindK[OF first step])
qed

lemma runs_loopK:
  assumes "\<And>i. i < n \<Longrightarrow>
      runs (J i) (b i) (\<lambda>r s. case r of None \<Rightarrow> J (Suc i) s | Some x \<Rightarrow> E x s)"
  shows "runs (J 0) (loopK b [0..<n]) (\<lambda>r s. case r of None \<Rightarrow> J n s | Some x \<Rightarrow> E x s)"
  using runs_loopK_from[of 0 n J b E] assms by simp

lemma keeps_forK:
  assumes "\<And>i. i \<in> set is \<Longrightarrow> keeps I (b i) (\<lambda>_. I)"
  shows "keeps I (forK b is) (\<lambda>_. I)"
  using assms
proof (induction "is")
  case Nil
  then show ?case by (simp add: keeps_def)
next
  case (Cons i "is")
  have "keeps I (b i) (\<lambda>_. I)" and "keeps I (forK b is) (\<lambda>_. I)"
    using Cons by simp_all
  then show ?case by (simp add: keeps_bindK)
qed

section \<open>The typed-heap interface\<close>

text \<open>
  A state component that is a heap: what is read after an update, and that updates compose. The
  lemmas below hold for every struct type of the model; each type interprets this locale once.
\<close>

locale typed_heap =
  fixes get :: "'s \<Rightarrow> addr \<Rightarrow> 'v option"
    and upd :: "((addr \<Rightarrow> 'v option) \<Rightarrow> addr \<Rightarrow> 'v option) \<Rightarrow> 's \<Rightarrow> 's"
  assumes get_upd: "get (upd f s) = f (get s)"
    and upd_upd: "upd f (upd g s) = upd (\<lambda>h. f (g h)) s"
    and upd_same: "f (get s) = get s \<Longrightarrow> upd f s = s"
begin

lemma load_live: "p \<noteq> NULL \<Longrightarrow> get s p = Some v \<Longrightarrow> load get p s = Inr (v, s)"
  by (simp add: load_def)

lemma load_Inr: "load get p s = Inr (v, s') \<longleftrightarrow> p \<noteq> NULL \<and> get s p = Some v \<and> s' = s"
  by (auto simp: load_def split: option.splits)

lemma modify_live:
  "p \<noteq> NULL \<Longrightarrow> get s p = Some v \<Longrightarrow>
   modify_at get upd p f s = Inr ((), upd (\<lambda>_. (get s)(p \<mapsto> f v)) s)"
  by (simp add: modify_at_def)

lemma modify_Inr:
  "modify_at get upd p f s = Inr (u, s') \<longleftrightarrow>
   p \<noteq> NULL \<and> (\<exists>v. get s p = Some v \<and> s' = upd (\<lambda>_. (get s)(p \<mapsto> f v)) s)"
  by (auto simp: modify_at_def split: option.splits)

lemma free_Inr:
  "free_at get upd p s = Inr (u, s') \<longleftrightarrow>
   (p = NULL \<and> s' = s) \<or>
   (p \<noteq> NULL \<and> get s p \<noteq> None \<and> s' = upd (\<lambda>_. (get s)(p := None)) s)"
  by (auto simp: free_at_def release_def split: option.splits)

lemma free_twice: "p \<noteq> NULL \<Longrightarrow> get s p = None \<Longrightarrow> free_at get upd p s = Inl BadFree"
  by (simp add: free_at_def release_def)

lemma load_after_modify:
  assumes "modify_at get upd p f s = Inr (u, s')" and "get s p = Some v"
  shows "load get p s' = Inr (f v, s')"
  using assms by (auto simp: modify_Inr load_def get_upd)

lemma modify_frame:
  assumes "modify_at get upd p f s = Inr (u, s')" and "q \<noteq> p"
  shows "get s' q = get s q"
  using assms by (auto simp: modify_Inr get_upd)

lemma free_create:
  assumes "p \<noteq> NULL" and "get s p = None" and "create_at get upd p v s = Inr (u, s')"
  shows "free_at get upd p s' = Inr ((), s)"
proof -
  have s': "s' = upd (\<lambda>_. (get s)(p \<mapsto> v)) s"
    using assms(3) by (simp add: create_at_def)
  have live: "get s' p = Some v"
    by (simp add: s' get_upd)
  have undo: "(get s')(p := None) = (get s)(p := None)"
    by (rule ext) (simp add: s' get_upd)
  have "upd (\<lambda>_. (get s)(p := None)) s' = upd (\<lambda>_. (get s)(p := None)) s"
    by (simp only: s' upd_upd)
  also have "\<dots> = s" by (rule upd_same) (simp add: fun_upd_idem assms(2))
  finally show ?thesis
    using assms(1) live by (simp add: free_at_def release_def undo del: fun_upd_apply)
qed

lemma use_after_free:
  assumes "p \<noteq> NULL" and "free_at get upd p s = Inr (u, s')"
  shows "load get p s' = Inl BadAccess"
  using assms by (auto simp: free_Inr load_def get_upd)

lemma double_free:
  assumes "p \<noteq> NULL" and "free_at get upd p s = Inr (u, s')"
  shows "free_at get upd p s' = Inl BadFree"
proof -
  have "get s' p = None"
    using assms by (auto simp: free_Inr get_upd)
  with assms(1) show ?thesis by (rule free_twice)
qed

end

end
