(* ===== verification/Kern_Structs.thy ===== *)
theory Kern_Structs
  imports Kern_Prelude
begin

text \<open>
  The data of the module: the enums and structs of \<^verbatim>\<open>rdma.h\<close> and \<^verbatim>\<open>rpc.h\<close>, the structs of the RDMA
  verbs interface as far as the sources read or write their fields, and the value each struct has
  after \<open>kzalloc\<close> (all bytes zero). Struct fields carry a prefix where two structs share a name.
\<close>

section \<open>Connection states (enum rdma\_ch\_state)\<close>

text \<open>
  The code compares states as integers (\<open>cb->state >= CONNECTED\<close>), so the enum is ordered by its
  values. \<open>NO_STATE\<close> is the value 0 of a zeroed control block, which no enumerator names.
\<close>

datatype rdma_ch_state =
  NO_STATE | IDLE | CONNECT_REQUEST | ADDR_RESOLVED | ROUTE_RESOLVED
  | CONNECTED | WORKING | DISCONNECTED | ERROR

primrec state_num :: "rdma_ch_state \<Rightarrow> nat" where
  "state_num NO_STATE = 0"
| "state_num IDLE = 1"
| "state_num CONNECT_REQUEST = 2"
| "state_num ADDR_RESOLVED = 3"
| "state_num ROUTE_RESOLVED = 4"
| "state_num CONNECTED = 5"
| "state_num WORKING = 6"
| "state_num DISCONNECTED = 7"
| "state_num ERROR = 8"

lemma state_num_inject: "state_num a = state_num b \<Longrightarrow> a = b"
  by (cases a; cases b) simp_all

instantiation rdma_ch_state :: linorder
begin

definition less_eq_rdma_ch_state :: "rdma_ch_state \<Rightarrow> rdma_ch_state \<Rightarrow> bool" where
  "less_eq_rdma_ch_state a b = (state_num a \<le> state_num b)"

definition less_rdma_ch_state :: "rdma_ch_state \<Rightarrow> rdma_ch_state \<Rightarrow> bool" where
  "less_rdma_ch_state a b = (state_num a < state_num b)"

instance
  by standard
    (auto simp: less_eq_rdma_ch_state_def less_rdma_ch_state_def intro: state_num_inject)

end

section \<open>Structs of the verbs interface\<close>

record ib_sge =
  sge_addr :: u64
  sge_length :: u32
  sge_lkey :: u32

text \<open>
  \<open>sg_list\<close> of a work request points at a scatter entry inside a message-buffer context (the array
  of contexts it lives in and its index there), or inside a control block of the ping module.
\<close>

datatype sgl_ptr = SglNull | RecvSgl addr nat | SendSgl addr nat | KrpingRecvSgl addr | KrpingSendSgl addr

datatype ib_wr_opcode = IB_WR_ZERO | IB_WR_SEND | IB_WR_LOCAL_INV | IB_WR_REG_MR

datatype ib_send_flags = IB_NO_FLAGS | IB_SEND_SIGNALED

record ib_recv_wr =
  rwr_wr_id :: u64
  rwr_sg_list :: sgl_ptr
  rwr_num_sge :: c_int

record ib_send_wr =
  swr_wr_id :: u64
  swr_opcode :: ib_wr_opcode
  swr_send_flags :: ib_send_flags
  swr_sg_list :: sgl_ptr
  swr_num_sge :: c_int

datatype ib_wc_status = IB_WC_SUCCESS | IB_WC_WR_FLUSH_ERR | IB_WC_OTHER_ERR nat

datatype ib_wc_opcode =
  IB_WC_SEND | IB_WC_RDMA_WRITE | IB_WC_RDMA_READ | IB_WC_RECV | IB_WC_OTHER nat

record ib_wc =
  wc_wr_id :: u64
  wc_status :: ib_wc_status
  wc_opcode :: ib_wc_opcode
  wc_byte_len :: u32

datatype ib_qp_type = IB_QPT_RC

datatype ib_sig_type = IB_SIGNAL_ALL_WR | IB_SIGNAL_REQ_WR

record ib_qp_init_attr =
  max_send_wr :: u32
  max_recv_wr :: u32
  max_recv_sge :: u32
  max_send_sge :: u32
  sq_sig_type :: ib_sig_type
  qp_type :: ib_qp_type
  send_cq :: addr
  recv_cq :: addr

record ib_pd =
  pd_device :: addr
  local_dma_lkey :: u32

record ib_cq =
  cq_context :: addr

record ib_qp =
  qp_attr :: ib_qp_init_attr

record rdma_cm_id =
  id_context :: addr
  id_qp :: addr

datatype rdma_cm_event_type =
  RDMA_CM_EVENT_ADDR_RESOLVED | RDMA_CM_EVENT_ADDR_ERROR
  | RDMA_CM_EVENT_ROUTE_RESOLVED | RDMA_CM_EVENT_ROUTE_ERROR
  | RDMA_CM_EVENT_CONNECT_REQUEST | RDMA_CM_EVENT_CONNECT_ERROR
  | RDMA_CM_EVENT_UNREACHABLE | RDMA_CM_EVENT_REJECTED
  | RDMA_CM_EVENT_ESTABLISHED | RDMA_CM_EVENT_DISCONNECTED
  | RDMA_CM_EVENT_DEVICE_REMOVAL | RDMA_CM_EVENT_OTHER nat

record rdma_conn_param =
  responder_resources :: byte
  initiator_depth :: byte
  retry_count :: byte

text \<open>
  A socket address: the family, the port and address bytes, which IPv4 and IPv6 place alike, and the
  scope of an IPv6 address.
\<close>

record sockaddr =
  sa_family :: u16
  sa_port :: u16
  sa_addr :: "byte list"
  sa_scope_id :: u32

definition AF_INET :: u16 where
  "AF_INET = 2"

section \<open>Function pointers\<close>

text \<open>
  \<open>rpc_msg_handler_cb\<close> is only ever the RPC layer's handler; \<open>user_msg_handler_cb\<close> is the
  application's, one of a numbered family that is a parameter of the model.
\<close>

datatype fnptr = FnNull | Fn_client_rpc_rdma_msg_handler | Fn_user nat

section \<open>Structs of rdma.h\<close>

record rdma_ch_attr =
  attr_port :: c_int
  attr_server :: c_int
  attr_ip_addr :: "byte list"
  attr_msgbuf_cnt :: c_int
  attr_msgdata_size :: c_int
  attr_rpc_msg_handler_cb :: fnptr
  attr_user_msg_handler_cb :: fnptr

record rdma_msg =
  seq_num :: u64
  rpc_ch_addr :: u64
  sem_addr :: u64
  msg_data :: "byte list"

record msgbuf_ctx =
  ctx_id :: c_int
  rq_wr :: ib_recv_wr
  recv_sgl :: ib_sge
  recv_buf :: addr
  recv_mr :: u64
  recv_mapping :: u64
  sq_wr :: ib_send_wr
  send_sgl :: ib_sge
  send_buf :: addr
  send_mr :: u64
  send_mapping :: u64
  rdma_sq_wr :: ib_send_wr
  rdma_sgl :: ib_sge
  rdma_buf :: addr
  rdma_mr :: addr
  remote_rkey :: u32
  remote_addr :: u64
  remote_len :: u32
  ctx_seqn :: u64

record rdma_ch_cb =
  cb_server :: c_int
  cb_channel :: addr
  cb_cq :: addr
  cb_pd :: addr
  cb_qp :: addr
  cb_msgbuf_cnt :: c_int
  cb_msgbuf_size :: c_int
  cb_msgheader_size :: c_int
  cb_msgdata_size :: c_int
  cb_buf_ctxs :: addr
  cb_rpc_msg_handler_cb :: fnptr
  cb_user_msg_handler_cb :: fnptr
  cb_state :: rdma_ch_state
  cb_sin :: sockaddr
  cb_ssource :: sockaddr
  cb_port :: u16
  cb_size :: c_int
  cb_validate :: c_int
  cb_cm_channel :: addr
  cb_cm_id :: addr
  cb_child_cm_id :: addr

section \<open>Structs of rpc.h\<close>

definition RPC_MSG_BUF_NUM :: c_int where
  "RPC_MSG_BUF_NUM = 4"

definition RPC_CH_RDMA :: c_int where
  "RPC_CH_RDMA = 1"

record rpc_ch_info =
  ch_type :: c_int
  ch_cb :: addr
  msgbuf_bitmap :: addr
  msgbuf_bitmap_lock :: bool

record rpc_req_param =
  req_rpc_ch :: addr
  req_data :: addr
  req_sem :: addr

record msg_handler_param =
  mh_client_id :: c_int
  mh_msgbuf_id :: c_int
  mh_ch_cb :: addr
  mh_msg :: addr

record rpc_msg_handler_param =
  rh_msgbuf_id :: c_int
  rh_client_rpc_ch :: addr
  rh_param :: addr
  rh_user_msg_handler_cb :: fnptr

record rpc_msg_header =
  hdr_seqn :: u64
  hdr_client_rpc_ch :: addr
  hdr_sem :: addr

record rpc_msg =
  rpc_header :: rpc_msg_header
  rpc_data :: "byte list"

section \<open>Zeroed objects\<close>

text \<open>What \<open>kzalloc\<close> leaves behind the returned pointer, per type.\<close>

definition zero_sge :: ib_sge where
  "zero_sge = \<lparr>sge_addr = 0, sge_length = 0, sge_lkey = 0\<rparr>"

definition zero_recv_wr :: ib_recv_wr where
  "zero_recv_wr = \<lparr>rwr_wr_id = 0, rwr_sg_list = SglNull, rwr_num_sge = 0\<rparr>"

definition zero_send_wr :: ib_send_wr where
  "zero_send_wr = \<lparr>swr_wr_id = 0, swr_opcode = IB_WR_ZERO, swr_send_flags = IB_NO_FLAGS,
     swr_sg_list = SglNull, swr_num_sge = 0\<rparr>"

definition zero_sockaddr :: sockaddr where
  "zero_sockaddr = \<lparr>sa_family = 0, sa_port = 0, sa_addr = replicate 4 0, sa_scope_id = 0\<rparr>"

definition zero_ctx :: msgbuf_ctx where
  "zero_ctx = \<lparr>ctx_id = 0, rq_wr = zero_recv_wr, recv_sgl = zero_sge, recv_buf = NULL,
     recv_mr = 0, recv_mapping = 0, sq_wr = zero_send_wr, send_sgl = zero_sge,
     send_buf = NULL, send_mr = 0, send_mapping = 0, rdma_sq_wr = zero_send_wr,
     rdma_sgl = zero_sge, rdma_buf = NULL, rdma_mr = NULL, remote_rkey = 0,
     remote_addr = 0, remote_len = 0, ctx_seqn = 0\<rparr>"

definition zero_cb :: rdma_ch_cb where
  "zero_cb = \<lparr>cb_server = 0, cb_channel = NULL, cb_cq = NULL, cb_pd = NULL, cb_qp = NULL,
     cb_msgbuf_cnt = 0, cb_msgbuf_size = 0, cb_msgheader_size = 0, cb_msgdata_size = 0,
     cb_buf_ctxs = NULL, cb_rpc_msg_handler_cb = FnNull, cb_user_msg_handler_cb = FnNull,
     cb_state = NO_STATE, cb_sin = zero_sockaddr, cb_ssource = zero_sockaddr, cb_port = 0,
     cb_size = 0, cb_validate = 0, cb_cm_channel = NULL, cb_cm_id = NULL,
     cb_child_cm_id = NULL\<rparr>"

definition zero_rpc_ch :: rpc_ch_info where
  "zero_rpc_ch = \<lparr>ch_type = 0, ch_cb = NULL, msgbuf_bitmap = NULL, msgbuf_bitmap_lock = False\<rparr>"

definition zero_mh_param :: msg_handler_param where
  "zero_mh_param = \<lparr>mh_client_id = 0, mh_msgbuf_id = 0, mh_ch_cb = NULL, mh_msg = NULL\<rparr>"

definition zero_rh_param :: rpc_msg_handler_param where
  "zero_rh_param = \<lparr>rh_msgbuf_id = 0, rh_client_rpc_ch = NULL, rh_param = NULL,
     rh_user_msg_handler_cb = FnNull\<rparr>"

text \<open>A message buffer of \<open>n\<close> bytes after the 24-byte header, in both of its layouts.\<close>

definition zero_msg :: "nat \<Rightarrow> rdma_msg" where
  "zero_msg n = \<lparr>seq_num = 0, rpc_ch_addr = 0, sem_addr = 0, msg_data = replicate n 0\<rparr>"

definition zero_rpc_msg :: "nat \<Rightarrow> rpc_msg" where
  "zero_rpc_msg n = \<lparr>rpc_header = \<lparr>hdr_seqn = 0, hdr_client_rpc_ch = NULL, hdr_sem = NULL\<rparr>,
     rpc_data = replicate n 0\<rparr>"

lemmas zero_defs = zero_sge_def zero_recv_wr_def zero_send_wr_def zero_sockaddr_def zero_ctx_def
  zero_cb_def zero_rpc_ch_def zero_mh_param_def zero_rh_param_def zero_msg_def zero_rpc_msg_def

section \<open>The order of the states\<close>

lemma state_le_num: "a \<le> b \<longleftrightarrow> state_num a \<le> state_num b" for a b :: rdma_ch_state
  by (simp add: less_eq_rdma_ch_state_def)

lemma state_less_num: "a < b \<longleftrightarrow> state_num a < state_num b" for a b :: rdma_ch_state
  by (simp add: less_rdma_ch_state_def)

lemma ROUTE_RESOLVED_le:
  "ROUTE_RESOLVED \<le> s \<longleftrightarrow> s \<in> {ROUTE_RESOLVED, CONNECTED, WORKING, DISCONNECTED, ERROR}"
  by (cases s) (simp_all add: state_le_num)

lemma CONNECTED_le: "CONNECTED \<le> s \<longleftrightarrow> s \<in> {CONNECTED, WORKING, DISCONNECTED, ERROR}"
  by (cases s) (simp_all add: state_le_num)

lemma le_CONNECTED: "s \<le> CONNECTED \<longleftrightarrow> s \<notin> {WORKING, DISCONNECTED, ERROR}"
  by (cases s) (simp_all add: state_le_num)

end
