(* ===== verification/Krping_Structs.thy ===== *)
theory Krping_Structs
  imports Kern_Structs
begin

text \<open>
  The data of the ping module (\<^verbatim>\<open>bak/krping.h\<close>): the states of a ping, the advertisement the peers exchange, the
  statistics and the control block, with the work requests it embeds as far as the code writes
  their fields. Members that no statement of \<^verbatim>\<open>bak/krping.c\<close> reads or writes (\<open>page_list\<close>, \<open>read_inv\<close>, \<open>poll\<close>,
  \<open>local_dma_lkey\<close>, \<open>rdma_sgl\<close> and the two callbacks) are left out; the wait queue \<open>sem\<close> is named by the
  address of its control block, and \<open>list\<close> is the position of the block in the list of the state.
\<close>

section \<open>States of a ping (enum test\_state)\<close>

datatype test_state =
  TS_ZERO | TS_IDLE | TS_CONNECT_REQUEST | TS_ADDR_RESOLVED | TS_ROUTE_RESOLVED | TS_CONNECTED
  | TS_RDMA_READ_ADV | TS_RDMA_READ_COMPLETE | TS_RDMA_WRITE_ADV | TS_RDMA_WRITE_COMPLETE | TS_ERROR

text \<open>The states are compared as integers; \<open>TS_ZERO\<close> is the value 0 of a zeroed block.\<close>

primrec test_num :: "test_state \<Rightarrow> nat" where
  "test_num TS_ZERO = 0"
| "test_num TS_IDLE = 1"
| "test_num TS_CONNECT_REQUEST = 2"
| "test_num TS_ADDR_RESOLVED = 3"
| "test_num TS_ROUTE_RESOLVED = 4"
| "test_num TS_CONNECTED = 5"
| "test_num TS_RDMA_READ_ADV = 6"
| "test_num TS_RDMA_READ_COMPLETE = 7"
| "test_num TS_RDMA_WRITE_ADV = 8"
| "test_num TS_RDMA_WRITE_COMPLETE = 9"
| "test_num TS_ERROR = 10"

lemma test_num_inject: "test_num a = test_num b \<Longrightarrow> a = b"
  by (cases a; cases b) simp_all

instantiation test_state :: linorder
begin

definition less_eq_test_state :: "test_state \<Rightarrow> test_state \<Rightarrow> bool" where
  "less_eq_test_state a b = (test_num a \<le> test_num b)"

definition less_test_state :: "test_state \<Rightarrow> test_state \<Rightarrow> bool" where
  "less_test_state a b = (test_num a < test_num b)"

instance
  by standard (auto simp: less_eq_test_state_def less_test_state_def intro: test_num_inject)

end

section \<open>Structs\<close>

record krping_rdma_info =
  info_buf :: u64
  info_rkey :: u32
  info_size :: u32

record krping_stats =
  send_bytes :: u64
  send_msgs :: u64
  recv_bytes :: u64
  recv_msgs :: u64
  write_bytes :: u64
  write_msgs :: u64
  read_bytes :: u64
  read_msgs :: u64

text \<open>
  A memory region; the registration request \<open>ib_reg_wr\<close>; the invalidation request, whose \<open>next\<close> is NULL or
  the registration request of the same block.
\<close>

record ib_mr =
  mr_rkey :: u32

record ib_reg_wr =
  reg_opcode :: ib_wr_opcode
  reg_mr_ptr :: addr
  reg_key :: u32
  reg_access :: u32

record ib_inv_wr =
  inv_opcode :: ib_wr_opcode
  inv_rkey :: u32
  inv_next :: bool

text \<open>What a chain of posted send work requests consists of.\<close>

datatype posted_wr = WrSend ib_send_wr | WrInv ib_inv_wr | WrReg ib_reg_wr

record krping_cb =
  kc_server :: c_int
  kc_cq :: addr
  kc_pd :: addr
  kc_qp :: addr
  kc_dma_mr :: addr
  kc_page_list_len :: c_int
  kc_reg_mr_wr :: ib_reg_wr
  kc_invalidate_wr :: ib_inv_wr
  kc_reg_mr :: addr
  kc_server_invalidate :: c_int
  kc_key :: byte
  kc_rq_wr :: ib_recv_wr
  kc_recv_sgl :: ib_sge
  kc_recv_buf :: krping_rdma_info
  kc_recv_dma_addr :: u64
  kc_recv_mapping :: u64
  kc_sq_wr :: ib_send_wr
  kc_send_sgl :: ib_sge
  kc_send_buf :: krping_rdma_info
  kc_send_dma_addr :: u64
  kc_send_mapping :: u64
  kc_rdma_sg_list :: "ib_sge option"
  kc_rdma_buf :: addr
  kc_rdma_dma_addr :: u64
  kc_rdma_mapping :: u64
  kc_rdma_mr :: addr
  kc_remote_rkey :: u32
  kc_remote_addr :: u64
  kc_remote_len :: u32
  kc_start_buf :: addr
  kc_start_dma_addr :: u64
  kc_start_mapping :: u64
  kc_start_mr :: addr
  kc_state :: test_state
  kc_stats :: krping_stats
  kc_port :: u16
  kc_addr :: "byte list"
  kc_ip6_ndev_name :: string
  kc_addr_str :: "string option"
  kc_addr_type :: byte
  kc_verbose :: c_int
  kc_count :: c_int
  kc_size :: c_int
  kc_txdepth :: c_int
  kc_frtest :: c_int
  kc_tos :: c_int
  kc_rpc_msg_handler_cb :: fnptr
  kc_user_msg_handler_cb :: fnptr
  kc_cm_id :: addr
  kc_child_cm_id :: addr

text \<open>
  \<open>kc_rdma_sg_list\<close> is the scatter entry \<open>rdma_sq_wr.wr.sg_list\<close> points to, \<open>None\<close> when it is NULL.
\<close>

definition RPING_BUFSIZE :: c_int where
  "RPING_BUFSIZE = 128 * 1024"

definition RPING_SQ_DEPTH :: c_int where
  "RPING_SQ_DEPTH = 64"

definition INFO_BYTES :: nat where
  "INFO_BYTES = 16"

definition AF_INET6 :: byte where
  "AF_INET6 = 10"

section \<open>Zeroed objects\<close>

definition zero_info :: krping_rdma_info where
  "zero_info = \<lparr>info_buf = 0, info_rkey = 0, info_size = 0\<rparr>"

definition zero_stats :: krping_stats where
  "zero_stats = \<lparr>send_bytes = 0, send_msgs = 0, recv_bytes = 0, recv_msgs = 0,
     write_bytes = 0, write_msgs = 0, read_bytes = 0, read_msgs = 0\<rparr>"

definition zero_krping_cb :: krping_cb where
  "zero_krping_cb = \<lparr>kc_server = 0, kc_cq = NULL, kc_pd = NULL, kc_qp = NULL, kc_dma_mr = NULL, kc_page_list_len = 0,
     kc_reg_mr_wr = \<lparr>reg_opcode = IB_WR_ZERO, reg_mr_ptr = NULL, reg_key = 0, reg_access = 0\<rparr>,
     kc_invalidate_wr = \<lparr>inv_opcode = IB_WR_ZERO, inv_rkey = 0, inv_next = False\<rparr>,
     kc_reg_mr = NULL, kc_server_invalidate = 0, kc_key = 0,
     kc_rq_wr = zero_recv_wr, kc_recv_sgl = zero_sge, kc_recv_buf = zero_info, kc_recv_dma_addr = 0, kc_recv_mapping = 0,
     kc_sq_wr = zero_send_wr, kc_send_sgl = zero_sge, kc_send_buf = zero_info, kc_send_dma_addr = 0, kc_send_mapping = 0,
     kc_rdma_sg_list = None, kc_rdma_buf = NULL, kc_rdma_dma_addr = 0, kc_rdma_mapping = 0, kc_rdma_mr = NULL,
     kc_remote_rkey = 0, kc_remote_addr = 0, kc_remote_len = 0,
     kc_start_buf = NULL, kc_start_dma_addr = 0, kc_start_mapping = 0, kc_start_mr = NULL,
     kc_state = TS_ZERO, kc_stats = zero_stats, kc_port = 0, kc_addr = replicate 16 0, kc_ip6_ndev_name = [],
     kc_addr_str = None, kc_addr_type = 0, kc_verbose = 0, kc_count = 0, kc_size = 0, kc_txdepth = 0, kc_frtest = 0,
     kc_tos = 0, kc_rpc_msg_handler_cb = FnNull, kc_user_msg_handler_cb = FnNull, kc_cm_id = NULL, kc_child_cm_id = NULL\<rparr>"

section \<open>The order of the states\<close>

lemma test_le_num: "a \<le> b \<longleftrightarrow> test_num a \<le> test_num b" for a b :: test_state
  by (simp add: less_eq_test_state_def)

lemma TS_ROUTE_RESOLVED_le: "TS_ROUTE_RESOLVED \<le> s \<longleftrightarrow> s \<notin> {TS_ZERO, TS_IDLE, TS_CONNECT_REQUEST, TS_ADDR_RESOLVED}"
  by (cases s) (simp_all add: test_le_num)

lemma TS_CONNECTED_le:
  "TS_CONNECTED \<le> s \<longleftrightarrow> s \<notin> {TS_ZERO, TS_IDLE, TS_CONNECT_REQUEST, TS_ADDR_RESOLVED, TS_ROUTE_RESOLVED}"
  by (cases s) (simp_all add: test_le_num)

lemma TS_WRITE_ADV_le: "TS_RDMA_WRITE_ADV \<le> s \<longleftrightarrow> s \<in> {TS_RDMA_WRITE_ADV, TS_RDMA_WRITE_COMPLETE, TS_ERROR}"
  by (cases s) (simp_all add: test_le_num)

lemma TS_WRITE_COMPLETE_le: "TS_RDMA_WRITE_COMPLETE \<le> s \<longleftrightarrow> s \<in> {TS_RDMA_WRITE_COMPLETE, TS_ERROR}"
  by (cases s) (simp_all add: test_le_num)

lemmas test_order = TS_ROUTE_RESOLVED_le TS_CONNECTED_le TS_WRITE_ADV_le TS_WRITE_COMPLETE_le

end
