(* ===== verification/Kern_World.thy ===== *)
theory Kern_World
  imports Krping_Structs
begin

text \<open>
  The state the module runs in and the kernel interface it calls. The state has one typed heap per
  C type, a ledger of the verbs objects and DMA mappings that are live, the calls made so far
  (newest first) and the events the environment still delivers. What a kernel or verbs function
  returns is not defined here: it is a field of the record \<open>kapi\<close>, a parameter of every definition
  that makes the call, and may depend on the whole state. The wrappers below only do the model's
  bookkeeping: they record the call, enter an object when its creation was reported as successful
  and fault when the code uses or releases an object that is not live.
\<close>

section \<open>Events\<close>

text \<open>What the environment delivers: a connection-manager event, a completion interrupt, a signal.\<close>

datatype env_event = CmEvent addr rdma_cm_event_type | CqEvent addr | SignalEvent

text \<open>Calls out of the module that have an effect outside its memory.\<close>

datatype event =
  EvAlloc addr u64
  | EvPostSend addr ib_send_wr
  | EvPostRecv addr ib_recv_wr
  | EvPoll addr c_int
  | EvNotify addr
  | EvWake addr
  | EvResolveAddr addr sockaddr
  | EvResolveRoute addr
  | EvConnect addr rdma_conn_param
  | EvAccept addr
  | EvDisconnect addr
  | EvPostWrs addr "posted_wr list"
  | EvServiceType addr c_int

section \<open>The state\<close>

record world =
  w_cbs :: "addr \<Rightarrow> rdma_ch_cb option"
  w_ctxs :: "addr \<Rightarrow> msgbuf_ctx list option"
  w_msgs :: "addr \<Rightarrow> rdma_msg option"
  w_rmsgs :: "addr \<Rightarrow> rpc_msg option"
  w_rpcs :: "addr \<Rightarrow> rpc_ch_info option"
  w_bytes :: "addr \<Rightarrow> byte list option"
  w_mhs :: "addr \<Rightarrow> msg_handler_param option"
  w_rhs :: "addr \<Rightarrow> rpc_msg_handler_param option"
  w_waitqs :: "addr \<Rightarrow> unit option"
  w_cmids :: "addr \<Rightarrow> rdma_cm_id option"
  w_pds :: "addr \<Rightarrow> ib_pd option"
  w_cqs :: "addr \<Rightarrow> ib_cq option"
  w_qps :: "addr \<Rightarrow> ib_qp option"
  w_mrs :: "addr \<Rightarrow> ib_mr option"
  w_dmas :: "addr \<Rightarrow> (addr \<times> u64) option"
  w_trace :: "event list"
  w_pending :: "env_event list"
  w_refs :: nat
  w_proc :: bool
  w_kcbs :: "addr \<Rightarrow> krping_cb option"
  w_klist :: "addr list"

definition empty_world :: world where
  "empty_world = \<lparr>w_cbs = Map.empty, w_ctxs = Map.empty, w_msgs = Map.empty, w_rmsgs = Map.empty,
     w_rpcs = Map.empty, w_bytes = Map.empty, w_mhs = Map.empty, w_rhs = Map.empty,
     w_waitqs = Map.empty, w_cmids = Map.empty, w_pds = Map.empty, w_cqs = Map.empty,
     w_qps = Map.empty, w_mrs = Map.empty, w_dmas = Map.empty, w_trace = [], w_pending = [],
     w_refs = 0, w_proc = False, w_kcbs = Map.empty, w_klist = []\<rparr>"

text \<open>
  \<open>w_refs\<close> counts the references held on the module, \<open>w_proc\<close> says whether its \<open>/proc\<close> entry exists;
  \<open>w_klist\<close> is the list of control blocks of the ping module. An address some object of any type lives at:
\<close>

definition live :: "world \<Rightarrow> addr \<Rightarrow> bool" where
  "live w p \<longleftrightarrow> w_cbs w p \<noteq> None \<or> w_ctxs w p \<noteq> None \<or> w_msgs w p \<noteq> None \<or> w_rmsgs w p \<noteq> None
     \<or> w_rpcs w p \<noteq> None \<or> w_bytes w p \<noteq> None \<or> w_mhs w p \<noteq> None \<or> w_rhs w p \<noteq> None
     \<or> w_waitqs w p \<noteq> None \<or> w_cmids w p \<noteq> None \<or> w_pds w p \<noteq> None \<or> w_cqs w p \<noteq> None
     \<or> w_qps w p \<noteq> None \<or> w_mrs w p \<noteq> None \<or> w_kcbs w p \<noteq> None"

text \<open>Two states with the same objects: they differ at most in the calls made and the events left.\<close>

definition same_objects :: "world \<Rightarrow> world \<Rightarrow> bool" where
  "same_objects w w' \<longleftrightarrow> w' = w\<lparr>w_trace := w_trace w', w_pending := w_pending w'\<rparr>"

section \<open>The kernel interface\<close>

record kapi =
  kzalloc_ret :: "world \<Rightarrow> u64 \<Rightarrow> addr"
  is_err :: "addr \<Rightarrow> bool"
  ptr_err :: "addr \<Rightarrow> c_int"
  cpu_to_be64 :: "u64 \<Rightarrow> u64"
  htons :: "u16 \<Rightarrow> u16"
  sizeof_msgbuf_ctx :: u64
  sizeof_rdma_ch_cb :: u64
  sizeof_rpc_ch_info :: u64
  sizeof_rpc_msg_handler_param :: u64
  sizeof_msg_handler_param :: u64
  cm_id_device :: "world \<Rightarrow> addr \<Rightarrow> addr"
  ib_alloc_pd_ret :: "world \<Rightarrow> addr \<Rightarrow> addr \<times> ib_pd"
  ib_create_cq_ret :: "world \<Rightarrow> addr \<Rightarrow> addr"
  ib_req_notify_cq_ret :: "world \<Rightarrow> addr \<Rightarrow> c_int"
  rdma_create_qp_ret :: "world \<Rightarrow> addr \<Rightarrow> addr \<Rightarrow> ib_qp_init_attr \<Rightarrow> c_int \<times> addr"
  ib_dma_map_single_ret :: "world \<Rightarrow> addr \<Rightarrow> addr \<Rightarrow> u64 \<Rightarrow> u64"
  ib_post_send_ret :: "world \<Rightarrow> addr \<Rightarrow> ib_send_wr \<Rightarrow> c_int"
  ib_post_recv_ret :: "world \<Rightarrow> addr \<Rightarrow> ib_recv_wr \<Rightarrow> c_int"
  ib_poll_cq_ret :: "world \<Rightarrow> addr \<Rightarrow> c_int \<times> ib_wc \<times> (addr \<times> rdma_msg) list"
  rdma_create_id_ret :: "world \<Rightarrow> addr"
  rdma_resolve_addr_ret :: "world \<Rightarrow> addr \<Rightarrow> sockaddr \<Rightarrow> c_int"
  rdma_resolve_route_ret :: "world \<Rightarrow> addr \<Rightarrow> c_int"
  rdma_connect_ret :: "world \<Rightarrow> addr \<Rightarrow> rdma_conn_param \<Rightarrow> c_int"
  rdma_accept_ret :: "world \<Rightarrow> addr \<Rightarrow> c_int"

text \<open>
  What the code relies on: \<open>kzalloc\<close> returns NULL or memory that is not in use; a verbs object or DMA
  mapping that was created successfully is a new one; an error pointer
  stands for a non-zero error and is not NULL; conversion to big endian is its own inverse (it is
  the identity or the byte swap), which is what \<open>ntohll\<close>, defined as \<open>cpu_to_be64\<close>, needs.
\<close>

definition alloc_sound :: "kapi \<Rightarrow> bool" where
  "alloc_sound api \<longleftrightarrow>
     (\<forall>w n. kzalloc_ret api w n \<noteq> NULL \<longrightarrow> \<not> live w (kzalloc_ret api w n))"

definition verbs_sound :: "kapi \<Rightarrow> bool" where
  "verbs_sound api \<longleftrightarrow>
     (\<forall>w d. let p = fst (ib_alloc_pd_ret api w d) in \<not> is_err api p \<longrightarrow> p \<noteq> NULL \<and> w_pds w p = None)
     \<and> (\<forall>w d. let p = ib_create_cq_ret api w d in \<not> is_err api p \<longrightarrow> p \<noteq> NULL \<and> w_cqs w p = None)
     \<and> (\<forall>w c p a. let (r, q) = rdma_create_qp_ret api w c p a in r = 0 \<longrightarrow> q \<noteq> NULL \<and> w_qps w q = None)
     \<and> (\<forall>w d b n. let a = ib_dma_map_single_ret api w d b n in a \<noteq> 0 \<longrightarrow> w_dmas w a = None)
     \<and> (\<forall>w. let p = rdma_create_id_ret api w in \<not> is_err api p \<longrightarrow> p \<noteq> NULL \<and> w_cmids w p = None)"

definition err_ptr_sound :: "kapi \<Rightarrow> bool" where
  "err_ptr_sound api \<longleftrightarrow> (\<forall>p. is_err api p \<longrightarrow> p \<noteq> NULL \<and> ptr_err api p \<noteq> 0)"

definition be64_involution :: "kapi \<Rightarrow> bool" where
  "be64_involution api \<longleftrightarrow> (\<forall>x. cpu_to_be64 api (cpu_to_be64 api x) = x)"

section \<open>Calls\<close>

definition log_ev :: "event \<Rightarrow> (world, unit) kern" where
  "log_ev e = modifyK (\<lambda>w. w\<lparr>w_trace := e # w_trace w\<rparr>)"

text \<open>\<open>kzalloc\<close> of one object of a known type: NULL, or a zeroed object at the returned address.\<close>

definition kzalloc_obj ::
    "kapi \<Rightarrow> (world, 'v) getter \<Rightarrow> (world, 'v) setter \<Rightarrow> u64 \<Rightarrow> 'v \<Rightarrow> (world, addr) kern" where
  "kzalloc_obj api get upd n z =
     bindK (getK (\<lambda>w. kzalloc_ret api w n)) (\<lambda>p.
     thenK (log_ev (EvAlloc p n))
     (thenK (whenK (p \<noteq> NULL) (create_at get upd p z))
     (returnK p)))"

text \<open>
  \<open>kzalloc(n)\<close> behind a pointer to a struct with a 24-byte header and a flexible array: with fewer
  than 24 bytes the block is raw memory, and an access through the struct type faults.
\<close>

definition HEADER_BYTES :: nat where
  "HEADER_BYTES = 24"

definition kzalloc_msg :: "kapi \<Rightarrow> u64 \<Rightarrow> (world, addr) kern" where
  "kzalloc_msg api n =
     (if unat n < HEADER_BYTES then kzalloc_obj api w_bytes w_bytes_update n (replicate (unat n) 0)
      else kzalloc_obj api w_msgs w_msgs_update n (zero_msg (unat n - HEADER_BYTES)))"

definition kzalloc_rpc_msg :: "kapi \<Rightarrow> u64 \<Rightarrow> (world, addr) kern" where
  "kzalloc_rpc_msg api n =
     (if unat n < HEADER_BYTES then kzalloc_obj api w_bytes w_bytes_update n (replicate (unat n) 0)
      else kzalloc_obj api w_rmsgs w_rmsgs_update n (zero_rpc_msg (unat n - HEADER_BYTES)))"

definition kfree_msg :: "addr \<Rightarrow> (world, unit) kern" where
  "kfree_msg p w =
     (if w_msgs w p = None \<and> w_bytes w p \<noteq> None then free_at w_bytes w_bytes_update p w
      else free_at w_msgs w_msgs_update p w)"

definition kfree_rpc_msg :: "addr \<Rightarrow> (world, unit) kern" where
  "kfree_rpc_msg p w =
     (if w_rmsgs w p = None \<and> w_bytes w p \<noteq> None then free_at w_bytes w_bytes_update p w
      else free_at w_rmsgs w_rmsgs_update p w)"

text \<open>The memory of the control blocks and their message-buffer contexts.\<close>

abbreviation get_cb :: "addr \<Rightarrow> (world, rdma_ch_cb) kern" where
  "get_cb \<equiv> load w_cbs"

abbreviation upd_cb :: "addr \<Rightarrow> (rdma_ch_cb \<Rightarrow> rdma_ch_cb) \<Rightarrow> (world, unit) kern" where
  "upd_cb \<equiv> modify_at w_cbs w_cbs_update"

text \<open>Element \<open>i\<close> of the array of contexts at \<open>p\<close>; an index past its end is out of bounds.\<close>

definition get_ctx :: "addr \<Rightarrow> nat \<Rightarrow> (world, msgbuf_ctx) kern" where
  "get_ctx p i =
     bindK (load w_ctxs p) (\<lambda>cs. if i < length cs then returnK (cs ! i) else failK OutOfBounds)"

definition upd_ctx :: "addr \<Rightarrow> nat \<Rightarrow> (msgbuf_ctx \<Rightarrow> msgbuf_ctx) \<Rightarrow> (world, unit) kern" where
  "upd_ctx p i f =
     bindK (load w_ctxs p) (\<lambda>cs.
     if i < length cs then modify_at w_ctxs w_ctxs_update p (\<lambda>cs. cs[i := f (cs ! i)])
     else failK OutOfBounds)"

text \<open>Wait queues: \<open>&cb->sem\<close> is named by the address of its control block.\<close>

definition wake_up_interruptible_cb :: "addr \<Rightarrow> (world, unit) kern" where
  "wake_up_interruptible_cb cbp = thenK (get_cb cbp) (log_ev (EvWake cbp))"

definition wake_up_interruptible_sem :: "addr \<Rightarrow> (world, unit) kern" where
  "wake_up_interruptible_sem q = thenK (load w_waitqs q) (log_ev (EvWake q))"

definition wakes :: "addr \<Rightarrow> world \<Rightarrow> nat" where
  "wakes q w = length (filter (\<lambda>e. e = EvWake q) (w_trace w))"

text \<open>
  \<open>wait_event_interruptible(q, cond)\<close>: the condition is tested on entry and after each wake-up of
  the queue; while the thread sleeps the environment's events are handled by \<open>intr\<close>. A signal ends
  the wait with \<open>-ERESTARTSYS\<close>. With no event left the thread sleeps for ever.
\<close>

fun wait_loop ::
    "(env_event \<Rightarrow> (world, unit) kern) \<Rightarrow> addr \<Rightarrow> (world \<Rightarrow> bool) \<Rightarrow> bool \<Rightarrow> env_event list
     \<Rightarrow> (world, c_int) kern" where
  "wait_loop intr q cond awake [] w =
     (if awake \<and> cond w then Inr (0, w\<lparr>w_pending := []\<rparr>) else Inl Blocked)"
| "wait_loop intr q cond awake (e # es) w =
     (if awake \<and> cond w then Inr (0, w\<lparr>w_pending := e # es\<rparr>)
      else if e = SignalEvent then Inr (- 512, w\<lparr>w_pending := es\<rparr>)
      else case intr e w of
             Inl f \<Rightarrow> Inl f
           | Inr (_, w') \<Rightarrow> wait_loop intr q cond (wakes q w < wakes q w') es w')"

definition state_cond :: "addr \<Rightarrow> (rdma_ch_state \<Rightarrow> bool) \<Rightarrow> world \<Rightarrow> bool" where
  "state_cond cbp cond w =
     (case w_cbs w cbp of Some cb \<Rightarrow> cond (cb_state cb) | None \<Rightarrow> False)"

definition wait_event_interruptible ::
    "(env_event \<Rightarrow> (world, unit) kern) \<Rightarrow> addr \<Rightarrow> (rdma_ch_state \<Rightarrow> bool) \<Rightarrow> (world, c_int) kern" where
  "wait_event_interruptible intr cbp cond =
     bindK (get_cb cbp) (\<lambda>_.
     bindK (getK w_pending) (\<lambda>es.
     wait_loop intr cbp (state_cond cbp cond) True es))"

text \<open>The verbs and connection-manager calls.\<close>

definition ib_alloc_pd :: "kapi \<Rightarrow> addr \<Rightarrow> (world, addr) kern" where
  "ib_alloc_pd api dev =
     bindK (getK (\<lambda>w. ib_alloc_pd_ret api w dev)) (\<lambda>(p, pd).
     thenK (whenK (\<not> is_err api p) (create_at w_pds w_pds_update p pd)) (returnK p))"

definition ib_dealloc_pd :: "addr \<Rightarrow> (world, unit) kern" where
  "ib_dealloc_pd = release w_pds w_pds_update"

definition ib_create_cq :: "kapi \<Rightarrow> addr \<Rightarrow> addr \<Rightarrow> (world, addr) kern" where
  "ib_create_cq api dev ctx =
     bindK (getK (\<lambda>w. ib_create_cq_ret api w dev)) (\<lambda>p.
     thenK (whenK (\<not> is_err api p) (create_at w_cqs w_cqs_update p \<lparr>cq_context = ctx\<rparr>)) (returnK p))"

definition ib_destroy_cq :: "addr \<Rightarrow> (world, unit) kern" where
  "ib_destroy_cq = release w_cqs w_cqs_update"

definition ib_req_notify_cq :: "kapi \<Rightarrow> addr \<Rightarrow> (world, c_int) kern" where
  "ib_req_notify_cq api cq =
     thenK (load w_cqs cq)
     (bindK (getK (\<lambda>w. ib_req_notify_cq_ret api w cq)) (\<lambda>r.
     thenK (log_ev (EvNotify cq)) (returnK r)))"

definition rdma_create_qp ::
    "kapi \<Rightarrow> addr \<Rightarrow> addr \<Rightarrow> ib_qp_init_attr \<Rightarrow> (world, c_int) kern" where
  "rdma_create_qp api cm pd at =
     thenK (load w_cmids cm) (thenK (load w_pds pd)
     (bindK (getK (\<lambda>w. rdma_create_qp_ret api w cm pd at)) (\<lambda>(r, q).
      if r = 0 then
        thenK (create_at w_qps w_qps_update q \<lparr>qp_attr = at\<rparr>)
        (thenK (modify_at w_cmids w_cmids_update cm (\<lambda>c. c\<lparr>id_qp := q\<rparr>)) (returnK r))
      else returnK r)))"

definition ib_destroy_qp :: "addr \<Rightarrow> (world, unit) kern" where
  "ib_destroy_qp = release w_qps w_qps_update"

definition ib_dereg_mr :: "addr \<Rightarrow> (world, unit) kern" where
  "ib_dereg_mr = release w_mrs w_mrs_update"

definition ib_dma_map_single :: "kapi \<Rightarrow> addr \<Rightarrow> addr \<Rightarrow> u64 \<Rightarrow> (world, u64) kern" where
  "ib_dma_map_single api dev buf len =
     bindK (getK (\<lambda>w. ib_dma_map_single_ret api w dev buf len)) (\<lambda>d.
     thenK (whenK (d \<noteq> 0) (create_at w_dmas w_dmas_update d (buf, len))) (returnK d))"

definition dma_unmap_single :: "u64 \<Rightarrow> (world, unit) kern" where
  "dma_unmap_single = release w_dmas w_dmas_update"

definition ib_post_send :: "kapi \<Rightarrow> addr \<Rightarrow> ib_send_wr \<Rightarrow> (world, c_int) kern" where
  "ib_post_send api qp wr =
     thenK (load w_qps qp)
     (bindK (getK (\<lambda>w. ib_post_send_ret api w qp wr)) (\<lambda>r.
     thenK (whenK (r = 0) (log_ev (EvPostSend qp wr))) (returnK r)))"

definition ib_post_recv :: "kapi \<Rightarrow> addr \<Rightarrow> ib_recv_wr \<Rightarrow> (world, c_int) kern" where
  "ib_post_recv api qp wr =
     thenK (load w_qps qp)
     (bindK (getK (\<lambda>w. ib_post_recv_ret api w qp wr)) (\<lambda>r.
     thenK (whenK (r = 0) (log_ev (EvPostRecv qp wr))) (returnK r)))"

text \<open>
  A poll returns the number of completions and the first of them, together with what the device
  wrote into receive buffers since the last poll; a write never changes a buffer's size.
\<close>

definition dma_fill :: "addr \<times> rdma_msg \<Rightarrow> (addr \<Rightarrow> rdma_msg option) \<Rightarrow> addr \<Rightarrow> rdma_msg option" where
  "dma_fill pm h =
     (case h (fst pm) of
        None \<Rightarrow> h
      | Some m0 \<Rightarrow> if length (msg_data (snd pm)) = length (msg_data m0)
                  then h(fst pm \<mapsto> snd pm) else h)"

definition ib_poll_cq :: "kapi \<Rightarrow> addr \<Rightarrow> (world, c_int \<times> ib_wc) kern" where
  "ib_poll_cq api cq =
     thenK (load w_cqs cq)
     (bindK (getK (\<lambda>w. ib_poll_cq_ret api w cq)) (\<lambda>(r, wc, fills).
     thenK (modifyK (w_msgs_update (fold dma_fill fills)))
     (thenK (log_ev (EvPoll cq r)) (returnK (r, wc)))))"

definition rdma_create_id :: "kapi \<Rightarrow> addr \<Rightarrow> (world, addr) kern" where
  "rdma_create_id api ctx =
     bindK (getK (rdma_create_id_ret api)) (\<lambda>p.
     thenK (whenK (\<not> is_err api p)
       (create_at w_cmids w_cmids_update p \<lparr>id_context = ctx, id_qp = NULL\<rparr>)) (returnK p))"

definition rdma_destroy_id :: "addr \<Rightarrow> (world, unit) kern" where
  "rdma_destroy_id = release w_cmids w_cmids_update"

definition rdma_resolve_addr :: "kapi \<Rightarrow> addr \<Rightarrow> sockaddr \<Rightarrow> (world, c_int) kern" where
  "rdma_resolve_addr api cm sa =
     thenK (load w_cmids cm)
     (bindK (getK (\<lambda>w. rdma_resolve_addr_ret api w cm sa)) (\<lambda>r.
     thenK (log_ev (EvResolveAddr cm sa)) (returnK r)))"

definition rdma_resolve_route :: "kapi \<Rightarrow> addr \<Rightarrow> (world, c_int) kern" where
  "rdma_resolve_route api cm =
     thenK (load w_cmids cm)
     (bindK (getK (\<lambda>w. rdma_resolve_route_ret api w cm)) (\<lambda>r.
     thenK (log_ev (EvResolveRoute cm)) (returnK r)))"

definition rdma_connect :: "kapi \<Rightarrow> addr \<Rightarrow> rdma_conn_param \<Rightarrow> (world, c_int) kern" where
  "rdma_connect api cm prm =
     thenK (load w_cmids cm)
     (bindK (getK (\<lambda>w. rdma_connect_ret api w cm prm)) (\<lambda>r.
     thenK (log_ev (EvConnect cm prm)) (returnK r)))"

definition rdma_accept :: "kapi \<Rightarrow> addr \<Rightarrow> (world, c_int) kern" where
  "rdma_accept api cm =
     thenK (load w_cmids cm)
     (bindK (getK (\<lambda>w. rdma_accept_ret api w cm)) (\<lambda>r.
     thenK (log_ev (EvAccept cm)) (returnK r)))"

definition rdma_disconnect :: "addr \<Rightarrow> (world, unit) kern" where
  "rdma_disconnect cm = thenK (load w_cmids cm) (log_ev (EvDisconnect cm))"

section \<open>Executing the calls\<close>

lemma thenK_log_ev [run_simps]: "thenK (log_ev e) m w = m (w\<lparr>w_trace := e # w_trace w\<rparr>)"
  by (simp add: log_ev_def thenK_modifyK)

lemma log_ev_run [run_simps]: "log_ev e w = Inr ((), w\<lparr>w_trace := e # w_trace w\<rparr>)"
  by (simp add: log_ev_def)

lemma bindK_get_ctx [run_simps]:
  "p \<noteq> 0 \<Longrightarrow> w_ctxs w p = Some cs \<Longrightarrow> i < length cs \<Longrightarrow> bindK (get_ctx p i) f w = f (cs ! i) w"
  by (simp add: get_ctx_def run_simps)

lemma thenK_get_ctx [run_simps]:
  "p \<noteq> 0 \<Longrightarrow> w_ctxs w p = Some cs \<Longrightarrow> i < length cs \<Longrightarrow> thenK (get_ctx p i) m w = m w"
  by (simp add: get_ctx_def run_simps)

lemma thenK_upd_ctx [run_simps]:
  "p \<noteq> 0 \<Longrightarrow> w_ctxs w p = Some cs \<Longrightarrow> i < length cs \<Longrightarrow>
   thenK (upd_ctx p i f) m w = m (w\<lparr>w_ctxs := (w_ctxs w)(p \<mapsto> cs[i := f (cs ! i)])\<rparr>)"
  by (simp add: upd_ctx_def run_simps)

lemma upd_ctx_run [run_simps]:
  "p \<noteq> 0 \<Longrightarrow> w_ctxs w p = Some cs \<Longrightarrow> i < length cs \<Longrightarrow>
   upd_ctx p i f w = Inr ((), w\<lparr>w_ctxs := (w_ctxs w)(p \<mapsto> cs[i := f (cs ! i)])\<rparr>)"
  by (simp add: upd_ctx_def run_simps)

lemma bindK_upd_ctx [run_simps]:
  "p \<noteq> 0 \<Longrightarrow> w_ctxs w p = Some cs \<Longrightarrow> i < length cs \<Longrightarrow>
   bindK (upd_ctx p i f) g w = g () (w\<lparr>w_ctxs := (w_ctxs w)(p \<mapsto> cs[i := f (cs ! i)])\<rparr>)"
  by (simp add: bindK_def upd_ctx_run)

text \<open>The outcome of \<open>kzalloc\<close> on the heap of its type.\<close>

definition put_new :: "addr \<Rightarrow> 'v \<Rightarrow> (addr \<Rightarrow> 'v option) \<Rightarrow> addr \<Rightarrow> 'v option" where
  "put_new p v h = (if p = NULL then h else h(p \<mapsto> v))"

lemma bindK_kzalloc_obj [run_simps]:
  "bindK (kzalloc_obj api get upd n z) f w =
     (let p = kzalloc_ret api w n; w' = w\<lparr>w_trace := EvAlloc p n # w_trace w\<rparr>
      in f p (if p = NULL then w' else upd (\<lambda>_. (get w')(p \<mapsto> z)) w'))"
  by (simp add: kzalloc_obj_def log_ev_def Let_def bindK_def thenK_def whenK_def create_at_def)

lemma bindK_kzalloc_msg [run_simps]:
  "HEADER_BYTES \<le> unat n \<Longrightarrow> bindK (kzalloc_msg api n) f w =
   f (kzalloc_ret api w n) (w\<lparr>w_trace := EvAlloc (kzalloc_ret api w n) n # w_trace w,
     w_msgs := put_new (kzalloc_ret api w n) (zero_msg (unat n - HEADER_BYTES)) (w_msgs w)\<rparr>)"
  by (simp add: kzalloc_msg_def kzalloc_obj_def log_ev_def run_simps put_new_def whenK_def)

lemma bindK_kzalloc_rpc_msg [run_simps]:
  "HEADER_BYTES \<le> unat n \<Longrightarrow> bindK (kzalloc_rpc_msg api n) f w =
   f (kzalloc_ret api w n) (w\<lparr>w_trace := EvAlloc (kzalloc_ret api w n) n # w_trace w,
     w_rmsgs := put_new (kzalloc_ret api w n) (zero_rpc_msg (unat n - HEADER_BYTES)) (w_rmsgs w)\<rparr>)"
  by (simp add: kzalloc_rpc_msg_def kzalloc_obj_def log_ev_def run_simps put_new_def whenK_def)

lemma alloc_fresh:
  assumes "alloc_sound api" and "kzalloc_ret api w n = p" and "p \<noteq> 0"
  shows "w_cbs w p = None" "w_ctxs w p = None" "w_msgs w p = None" "w_rmsgs w p = None"
    "w_rpcs w p = None" "w_bytes w p = None" "w_mhs w p = None" "w_rhs w p = None" "w_kcbs w p = None"
proof -
  have "\<not> live w p" using assms unfolding alloc_sound_def by blast
  then show "w_cbs w p = None" "w_ctxs w p = None" "w_msgs w p = None" "w_rmsgs w p = None"
    "w_rpcs w p = None" "w_bytes w p = None" "w_mhs w p = None" "w_rhs w p = None" "w_kcbs w p = None"
    by (auto simp: live_def)
qed

lemma ib_alloc_pd_run [run_simps]:
  "bindK (ib_alloc_pd api dev) f w =
     (let r = ib_alloc_pd_ret api w dev in
      f (fst r) (if is_err api (fst r) then w else w\<lparr>w_pds := (w_pds w)(fst r \<mapsto> snd r)\<rparr>))"
  by (simp add: ib_alloc_pd_def run_simps create_at_def thenK_def bindK_def whenK_def Let_def
      split: prod.splits)

lemma ib_create_cq_run [run_simps]:
  "bindK (ib_create_cq api dev ctx) f w =
     (let p = ib_create_cq_ret api w dev in
      f p (if is_err api p then w else w\<lparr>w_cqs := (w_cqs w)(p \<mapsto> \<lparr>cq_context = ctx\<rparr>)\<rparr>))"
  by (simp add: ib_create_cq_def create_at_def thenK_def bindK_def whenK_def Let_def)

lemma ib_req_notify_cq_run [run_simps]:
  "cq \<noteq> 0 \<Longrightarrow> w_cqs w cq = Some c \<Longrightarrow>
   bindK (ib_req_notify_cq api cq) f w =
     f (ib_req_notify_cq_ret api w cq) (w\<lparr>w_trace := EvNotify cq # w_trace w\<rparr>)"
  by (simp add: ib_req_notify_cq_def run_simps)

lemma ib_post_recv_run [run_simps]:
  "qp \<noteq> 0 \<Longrightarrow> w_qps w qp = Some v \<Longrightarrow> bindK (ib_post_recv api qp wr) f w =
     (let r = ib_post_recv_ret api w qp wr
      in f r (if r = 0 then w\<lparr>w_trace := EvPostRecv qp wr # w_trace w\<rparr> else w))"
  by (simp add: ib_post_recv_def run_simps Let_def whenK_def)

text \<open>What the soundness of the verbs says of one call.\<close>

lemma verbs_pd: "verbs_sound api \<Longrightarrow> ib_alloc_pd_ret api w d = (p, v) \<Longrightarrow> \<not> is_err api p \<Longrightarrow>
    p \<noteq> 0 \<and> w_pds w p = None"
  unfolding verbs_sound_def Let_def by (metis fst_conv)

lemma verbs_cq: "verbs_sound api \<Longrightarrow> ib_create_cq_ret api w d = p \<Longrightarrow> \<not> is_err api p \<Longrightarrow>
    p \<noteq> 0 \<and> w_cqs w p = None"
  unfolding verbs_sound_def Let_def by metis

lemma verbs_qp: "verbs_sound api \<Longrightarrow> rdma_create_qp_ret api w c p a = (0, q) \<Longrightarrow> q \<noteq> 0 \<and> w_qps w q = None"
  unfolding verbs_sound_def Let_def by (metis (mono_tags, lifting) case_prod_conv)

lemma verbs_dma: "verbs_sound api \<Longrightarrow> ib_dma_map_single_ret api w d b n = a \<Longrightarrow> a \<noteq> 0 \<Longrightarrow> w_dmas w a = None"
  unfolding verbs_sound_def Let_def by metis

lemma verbs_id: "verbs_sound api \<Longrightarrow> rdma_create_id_ret api w = p \<Longrightarrow> \<not> is_err api p \<Longrightarrow>
    p \<noteq> 0 \<and> w_cmids w p = None"
  unfolding verbs_sound_def Let_def by metis

text \<open>A wait that ends with 0 ends in a state that satisfies its condition.\<close>

lemma state_cond_pending [simp]: "state_cond cbp cond (w\<lparr>w_pending := es\<rparr>) = state_cond cbp cond w"
  by (simp add: state_cond_def)

lemma wait_loop_result:
  assumes "wait_loop intr q (state_cond cbp cond) awake es w = Inr (r, w')"
  shows "r = 0 \<and> state_cond cbp cond w' \<or> r = - 512"
  using assms
proof (induction intr q "state_cond cbp cond" awake es w rule: wait_loop.induct)
  case (2 intr q awake e es w)
  then show ?case by (force split: if_splits sum.splits)
qed (auto split: if_splits)

lemma wait_loop_now:
  "cond w \<Longrightarrow> wait_loop intr q cond True es w = Inr (0, w\<lparr>w_pending := es\<rparr>)"
  by (cases es) simp_all

declare wait_loop.simps [simp del]

section \<open>The heaps of the state are typed heaps\<close>

interpretation cbs: typed_heap w_cbs w_cbs_update by unfold_locales simp_all
interpretation ctxs: typed_heap w_ctxs w_ctxs_update by unfold_locales simp_all
interpretation msgs: typed_heap w_msgs w_msgs_update by unfold_locales simp_all
interpretation rmsgs: typed_heap w_rmsgs w_rmsgs_update by unfold_locales simp_all
interpretation rpcs: typed_heap w_rpcs w_rpcs_update by unfold_locales simp_all
interpretation bytes: typed_heap w_bytes w_bytes_update by unfold_locales simp_all
interpretation mhs: typed_heap w_mhs w_mhs_update by unfold_locales simp_all
interpretation rhs: typed_heap w_rhs w_rhs_update by unfold_locales simp_all
interpretation waitqs: typed_heap w_waitqs w_waitqs_update by unfold_locales simp_all
interpretation cmids: typed_heap w_cmids w_cmids_update by unfold_locales simp_all
interpretation pds: typed_heap w_pds w_pds_update by unfold_locales simp_all
interpretation cqs: typed_heap w_cqs w_cqs_update by unfold_locales simp_all
interpretation qps: typed_heap w_qps w_qps_update by unfold_locales simp_all
interpretation mrs: typed_heap w_mrs w_mrs_update by unfold_locales simp_all
interpretation kcbs: typed_heap w_kcbs w_kcbs_update by unfold_locales simp_all
interpretation dmas: typed_heap w_dmas w_dmas_update by unfold_locales simp_all

end
