(* ===== verification/Kern_Sample.thy ===== *)
theory Kern_Sample
  imports Kern_World
begin

unbundle bit_operations_syntax

text \<open>
  A concrete kernel interface: a machine on which every call succeeds, addresses are handed out in
  order and conversion to big endian swaps the bytes of a word. It shows that what the components
  assume of the interface can hold, and the witnesses run on it.
\<close>

definition byte_to :: "nat \<Rightarrow> nat \<Rightarrow> u64 \<Rightarrow> u64" where
  "byte_to i j x = push_bit (8 * j) (take_bit 8 (drop_bit (8 * i) x))"

definition bswap64 :: "u64 \<Rightarrow> u64" where
  "bswap64 x = byte_to 0 7 x OR byte_to 1 6 x OR byte_to 2 5 x OR byte_to 3 4 x
     OR byte_to 4 3 x OR byte_to 5 2 x OR byte_to 6 1 x OR byte_to 7 0 x"

definition bswap16 :: "u16 \<Rightarrow> u16" where
  "bswap16 x = push_bit 8 x OR drop_bit 8 x"

definition sample_wc :: ib_wc where
  "sample_wc = \<lparr>wc_wr_id = 0, wc_status = IB_WC_SUCCESS, wc_opcode = IB_WC_SEND, wc_byte_len = 0\<rparr>"

definition sample_alloc :: "world \<Rightarrow> u64 \<Rightarrow> addr" where
  "sample_alloc w n =
     (let p = of_nat (16 * Suc (length (w_trace w))) in if live w p then NULL else p)"

definition sample_api :: kapi where
  "sample_api = \<lparr>
     kzalloc_ret = sample_alloc,
     is_err = (\<lambda>p. 0xFFFFFFFFFFFFF001 \<le> p),
     ptr_err = ucast,
     cpu_to_be64 = bswap64,
     htons = bswap16,
     sizeof_msgbuf_ctx = 320,
     sizeof_rdma_ch_cb = 512,
     sizeof_rpc_ch_info = 32,
     sizeof_rpc_msg_handler_param = 32,
     sizeof_msg_handler_param = 24,
     cm_id_device = (\<lambda>w c. 0x2000),
     ib_alloc_pd_ret = (\<lambda>w d. (if live w 0x3000 then 0xFFFFFFFFFFFFFFF4 else 0x3000,
                              \<lparr>pd_device = d, local_dma_lkey = 7\<rparr>)),
     ib_create_cq_ret = (\<lambda>w d. if live w 0x4000 then 0xFFFFFFFFFFFFFFF4 else 0x4000),
     ib_req_notify_cq_ret = (\<lambda>w c. 0),
     rdma_create_qp_ret = (\<lambda>w c p a. if live w 0x5000 then (- 12, 0) else (0, 0x5000)),
     ib_dma_map_single_ret = (\<lambda>w d b n. if w_dmas w b = None then b else 0),
     ib_post_send_ret = (\<lambda>w q wr. 0),
     ib_post_recv_ret = (\<lambda>w q wr. 0),
     ib_poll_cq_ret = (\<lambda>w c. (0, sample_wc, [])),
     rdma_create_id_ret = (\<lambda>w. if live w 0x6000 then 0xFFFFFFFFFFFFFFF4 else 0x6000),
     rdma_resolve_addr_ret = (\<lambda>w c s. 0),
     rdma_resolve_route_ret = (\<lambda>w c. 0),
     rdma_connect_ret = (\<lambda>w c p. 0),
     rdma_accept_ret = (\<lambda>w c. 0)\<rparr>"

lemma bit_byte_to:
  assumes "j < 8" and "r < 8" and "k < 8"
  shows "bit (byte_to i j x) (8 * k + r) \<longleftrightarrow> k = j \<and> bit x (8 * i + r)"
proof (cases "k = j")
  case True
  then show ?thesis using assms by (simp add: byte_to_def bit_simps)
next
  case False
  then have "\<not> (8 * j \<le> 8 * k + r \<and> 8 * k + r - 8 * j < 8)" using assms by linarith
  then show ?thesis using False by (auto simp: byte_to_def bit_simps)
qed

lemma bit_bswap64:
  assumes "k < 8" and "r < 8"
  shows "bit (bswap64 x) (8 * k + r) = bit x (8 * (7 - k) + r)"
proof -
  have b: "bit (byte_to i j x) (8 * k + r) \<longleftrightarrow> k = j \<and> bit x (8 * i + r)" if "j < 8" for i j
    using that assms by (intro bit_byte_to)
  have eq: "bit (bswap64 x) (8 * k + r) \<longleftrightarrow>
      k = 7 \<and> bit x r \<or> k = 6 \<and> bit x (8 + r) \<or> k = 5 \<and> bit x (16 + r) \<or> k = 4 \<and> bit x (24 + r)
      \<or> k = 3 \<and> bit x (32 + r) \<or> k = 2 \<and> bit x (40 + r) \<or> k = 1 \<and> bit x (48 + r) \<or> k = 0 \<and> bit x (56 + r)"
    by (simp add: bswap64_def bit_or_iff b)
  consider "k = 0" | "k = 1" | "k = 2" | "k = 3" | "k = 4" | "k = 5" | "k = 6" | "k = 7"
    using assms(1) by linarith
  then show ?thesis unfolding eq by cases simp_all
qed

lemma bswap64_twice: "bswap64 (bswap64 x) = x"
proof (rule bit_word_eqI)
  fix n
  assume "n < LENGTH(64)"
  then have k: "n div 8 < 8" "n mod 8 < 8" "7 - n div 8 < 8" "7 - (7 - n div 8) = n div 8"
    by auto
  have "bit (bswap64 (bswap64 x)) (8 * (n div 8) + n mod 8) = bit x (8 * (n div 8) + n mod 8)"
    unfolding bit_bswap64[OF k(1,2)] bit_bswap64[OF k(3,2)] k(4) ..
  then show "bit (bswap64 (bswap64 x)) n = bit x n" by simp
qed

lemma sample_api_sel:
  "kzalloc_ret sample_api = sample_alloc"
  "is_err sample_api p \<longleftrightarrow> 0xFFFFFFFFFFFFF001 \<le> p"
  "cpu_to_be64 sample_api = bswap64"
  "htons sample_api = bswap16"
  "cm_id_device sample_api w c = 0x2000"
  "ib_alloc_pd_ret sample_api w d =
     (if live w 0x3000 then 0xFFFFFFFFFFFFFFF4 else 0x3000, \<lparr>pd_device = d, local_dma_lkey = 7\<rparr>)"
  "ib_create_cq_ret sample_api w d = (if live w 0x4000 then 0xFFFFFFFFFFFFFFF4 else 0x4000)"
  "ib_req_notify_cq_ret sample_api w q = 0"
  "rdma_create_qp_ret sample_api w c p a = (if live w 0x5000 then (- 12, 0) else (0, 0x5000))"
  "ib_dma_map_single_ret sample_api w d b n = (if w_dmas w b = None then b else 0)"
  "ib_post_send_ret sample_api w q swr = 0"
  "ib_post_recv_ret sample_api w q rwr = 0"
  "ib_poll_cq_ret sample_api w q = (0, sample_wc, [])"
  "rdma_create_id_ret sample_api w = (if live w 0x6000 then 0xFFFFFFFFFFFFFFF4 else 0x6000)"
  "rdma_resolve_addr_ret sample_api w c sa = 0"
  "rdma_resolve_route_ret sample_api w c = 0"
  "rdma_connect_ret sample_api w c prm = 0"
  "rdma_accept_ret sample_api w c = 0"
  by (simp_all add: sample_api_def)

lemma sample_alloc_sound: "alloc_sound sample_api"
  by (simp add: alloc_sound_def sample_api_def sample_alloc_def Let_def)

lemma sample_verbs_sound: "verbs_sound sample_api"
  by (simp add: verbs_sound_def sample_api_def live_def)

lemma err_range_low_bits:
  assumes "0xFFFFFFFFFFFFF001 \<le> (p :: addr)"
  shows "(ucast p :: c_int) \<noteq> 0"
proof
  assume "(ucast p :: c_int) = 0"
  then have "unat p mod 4294967296 = 0"
    by (simp add: unsigned_ucast_eq take_bit_eq_mod flip: unat_eq_0)
  then obtain k where k: "unat p = 4294967296 * k" by auto
  have "unat p < 2 ^ LENGTH(64)" by (rule unsigned_less)
  then have "k < 4294967296" by (simp add: k)
  moreover have "18446744073709547521 \<le> unat p"
    using assms by (simp add: word_le_nat_alt)
  ultimately show False by (simp add: k)
qed

lemma sample_err_ptr_sound: "err_ptr_sound sample_api"
  by (auto simp: err_ptr_sound_def sample_api_def err_range_low_bits)

lemma sample_be64_involution: "be64_involution sample_api"
  by (simp add: be64_involution_def sample_api_def bswap64_twice)

end
