(* ===== verification/Rdma_Conn.thy ===== *)
theory Rdma_Conn
  imports Kern_Sample
begin

text \<open>
  Connection management of \<^verbatim>\<open>rdma.c\<close>: the event handler the connection manager calls, and the three
  operations that start a transition and sleep until the handler reports its end
  (\<open>bind_client\<close>, \<open>connect_client\<close>, \<open>do_accept\<close>). The handler is first specified as a pure
  transition of the connection state, then shown to refine it.
\<close>

section \<open>The event handler\<close>

abbreviation (input) set_state :: "addr \<Rightarrow> rdma_ch_state \<Rightarrow> (world, unit) kern" where
  "set_state cbp st \<equiv> upd_cb cbp (\<lambda>cb. cb\<lparr>cb_state := st\<rparr>)"

definition cma_event_handler ::
    "kapi \<Rightarrow> addr \<Rightarrow> rdma_cm_event_type \<Rightarrow> (world, c_int) kern" where
  "cma_event_handler api cma_id ev =
     bindK (load w_cmids cma_id) (\<lambda>idr. let cbp = id_context idr in
     bindK (get_cb cbp) (\<lambda>cb.
     case ev of
       RDMA_CM_EVENT_ADDR_RESOLVED \<Rightarrow>
         thenK (set_state cbp ADDR_RESOLVED)
         (bindK (rdma_resolve_route api cma_id) (\<lambda>ret.
          if ret \<noteq> 0 then
            thenK (set_state cbp ERROR) (thenK (wake_up_interruptible_cb cbp) (returnK ret))
          else returnK ret))
     | RDMA_CM_EVENT_ROUTE_RESOLVED \<Rightarrow>
         thenK (set_state cbp ROUTE_RESOLVED) (thenK (wake_up_interruptible_cb cbp) (returnK 0))
     | RDMA_CM_EVENT_CONNECT_REQUEST \<Rightarrow>
         thenK (set_state cbp CONNECT_REQUEST)
         (thenK (upd_cb cbp (\<lambda>cb. cb\<lparr>cb_child_cm_id := cma_id\<rparr>))
         (thenK (wake_up_interruptible_cb cbp) (returnK 0)))
     | RDMA_CM_EVENT_ESTABLISHED \<Rightarrow>
         thenK (whenK (cb_server cb = 0) (set_state cbp CONNECTED))
         (thenK (wake_up_interruptible_cb cbp) (returnK 0))
     | RDMA_CM_EVENT_ADDR_ERROR \<Rightarrow> thenK (wake_up_interruptible_cb cbp) (returnK (- 1))
     | RDMA_CM_EVENT_ROUTE_ERROR \<Rightarrow> thenK (wake_up_interruptible_cb cbp) (returnK (- 1))
     | RDMA_CM_EVENT_CONNECT_ERROR \<Rightarrow> thenK (wake_up_interruptible_cb cbp) (returnK (- 1))
     | RDMA_CM_EVENT_UNREACHABLE \<Rightarrow> thenK (wake_up_interruptible_cb cbp) (returnK (- 1))
     | RDMA_CM_EVENT_REJECTED \<Rightarrow> thenK (wake_up_interruptible_cb cbp) (returnK (- 1))
     | RDMA_CM_EVENT_DISCONNECTED \<Rightarrow>
         thenK (set_state cbp DISCONNECTED) (thenK (wake_up_interruptible_cb cbp) (returnK 0))
     | RDMA_CM_EVENT_DEVICE_REMOVAL \<Rightarrow> returnK (- 1)
     | RDMA_CM_EVENT_OTHER _ \<Rightarrow> returnK 0))"

text \<open>
  The connection manager destroys an id whose handler returned a non-zero value (the documented
  contract of \<open>rdma_cm_event_handler\<close>).
\<close>

definition cm_deliver :: "kapi \<Rightarrow> addr \<Rightarrow> rdma_cm_event_type \<Rightarrow> (world, unit) kern" where
  "cm_deliver api cma_id ev =
     bindK (cma_event_handler api cma_id ev) (\<lambda>ret.
     if ret \<noteq> 0 then rdma_destroy_id cma_id else returnK ())"

section \<open>Waiting for a transition\<close>

definition do_accept ::
    "kapi \<Rightarrow> (env_event \<Rightarrow> (world, unit) kern) \<Rightarrow> addr \<Rightarrow> (world, c_int) kern" where
  "do_accept api intr cbp =
     bindK (get_cb cbp) (\<lambda>cb.
     bindK (rdma_accept api (cb_child_cm_id cb)) (\<lambda>ret.
     if ret \<noteq> 0 then returnK ret
     else
       thenK (wait_event_interruptible intr cbp (\<lambda>st. CONNECTED \<le> st))
       (bindK (get_cb cbp) (\<lambda>cb.
        if cb_state cb = ERROR then returnK (- 1) else returnK 0))))"

text \<open>
  The port is stored at the same place of a \<open>sockaddr_in\<close> and a \<open>sockaddr_in6\<close>, so both branches of
  the family test write the same field.
\<close>

definition bind_client ::
    "kapi \<Rightarrow> (env_event \<Rightarrow> (world, unit) kern) \<Rightarrow> addr \<Rightarrow> (world, c_int) kern" where
  "bind_client api intr cbp =
     bindK (get_cb cbp) (\<lambda>cb.
     thenK (if sa_family (cb_sin cb) = AF_INET
            then upd_cb cbp (\<lambda>c. c\<lparr>cb_sin := (cb_sin c)\<lparr>sa_port := cb_port c\<rparr>\<rparr>)
            else upd_cb cbp (\<lambda>c. c\<lparr>cb_sin := (cb_sin c)\<lparr>sa_port := cb_port c\<rparr>\<rparr>))
     (bindK (get_cb cbp) (\<lambda>cb.
      bindK (rdma_resolve_addr api (cb_cm_id cb) (cb_sin cb)) (\<lambda>ret.
      if ret \<noteq> 0 then returnK ret
      else
        thenK (wait_event_interruptible intr cbp (\<lambda>st. ROUTE_RESOLVED \<le> st))
        (bindK (get_cb cbp) (\<lambda>cb.
         if cb_state cb \<noteq> ROUTE_RESOLVED then returnK (- 1) else returnK 0))))))"

definition client_conn_param :: rdma_conn_param where
  "client_conn_param = \<lparr>responder_resources = 1, initiator_depth = 1, retry_count = 7\<rparr>"

definition connect_client ::
    "kapi \<Rightarrow> (env_event \<Rightarrow> (world, unit) kern) \<Rightarrow> addr \<Rightarrow> (world, c_int) kern" where
  "connect_client api intr cbp =
     bindK (get_cb cbp) (\<lambda>cb.
     bindK (rdma_connect api (cb_cm_id cb) client_conn_param) (\<lambda>ret.
     if ret \<noteq> 0 then returnK ret
     else
       thenK (wait_event_interruptible intr cbp (\<lambda>st. CONNECTED \<le> st))
       (bindK (get_cb cbp) (\<lambda>cb.
        if cb_state cb \<noteq> CONNECTED then returnK (- 1) else returnK 0))))"

section \<open>Specification of the handler\<close>

text \<open>
  The abstract transition: from a state, the event and the outcome of \<open>rdma_resolve_route\<close>, the new
  state, whether the waiting thread is woken, and the value returned to the connection manager.
\<close>

definition cm_error_events :: "rdma_cm_event_type set" where
  "cm_error_events = {RDMA_CM_EVENT_ADDR_ERROR, RDMA_CM_EVENT_ROUTE_ERROR,
     RDMA_CM_EVENT_CONNECT_ERROR, RDMA_CM_EVENT_UNREACHABLE, RDMA_CM_EVENT_REJECTED}"

fun cm_next ::
    "bool \<Rightarrow> c_int \<Rightarrow> rdma_ch_state \<Rightarrow> rdma_cm_event_type \<Rightarrow> rdma_ch_state \<times> bool \<times> c_int" where
  "cm_next client route st RDMA_CM_EVENT_ADDR_RESOLVED =
     (if route = 0 then (ADDR_RESOLVED, False, 0) else (ERROR, True, route))"
| "cm_next client route st RDMA_CM_EVENT_ROUTE_RESOLVED = (ROUTE_RESOLVED, True, 0)"
| "cm_next client route st RDMA_CM_EVENT_CONNECT_REQUEST = (CONNECT_REQUEST, True, 0)"
| "cm_next client route st RDMA_CM_EVENT_ESTABLISHED =
     ((if client then CONNECTED else st), True, 0)"
| "cm_next client route st RDMA_CM_EVENT_DISCONNECTED = (DISCONNECTED, True, 0)"
| "cm_next client route st RDMA_CM_EVENT_DEVICE_REMOVAL = (st, False, - 1)"
| "cm_next client route st (RDMA_CM_EVENT_OTHER n) = (st, False, 0)"
| "cm_next client route st ev = (st, True, - 1)"

text \<open>A connection: the id the manager knows and the control block it refers to, both live.\<close>

definition conn_ok :: "addr \<Rightarrow> addr \<Rightarrow> rdma_cm_id \<Rightarrow> rdma_ch_cb \<Rightarrow> world \<Rightarrow> bool" where
  "conn_ok cid cbp idr cb w \<longleftrightarrow>
     cid \<noteq> NULL \<and> cbp \<noteq> NULL \<and> w_cmids w cid = Some idr \<and> id_context idr = cbp
     \<and> w_cbs w cbp = Some cb"

definition route_result :: "kapi \<Rightarrow> addr \<Rightarrow> addr \<Rightarrow> rdma_ch_cb \<Rightarrow> world \<Rightarrow> c_int" where
  "route_result api cid cbp cb w =
     rdma_resolve_route_ret api (w\<lparr>w_cbs := (w_cbs w)(cbp \<mapsto> cb\<lparr>cb_state := ADDR_RESOLVED\<rparr>)\<rparr>) cid"

definition child_after :: "addr \<Rightarrow> rdma_cm_event_type \<Rightarrow> rdma_ch_cb \<Rightarrow> addr" where
  "child_after cid ev cb = (if ev = RDMA_CM_EVENT_CONNECT_REQUEST then cid else cb_child_cm_id cb)"

definition trace_after :: "addr \<Rightarrow> addr \<Rightarrow> rdma_cm_event_type \<Rightarrow> bool \<Rightarrow> event list" where
  "trace_after cid cbp ev woken =
     (if woken then [EvWake cbp] else [])
     @ (if ev = RDMA_CM_EVENT_ADDR_RESOLVED then [EvResolveRoute cid] else [])"

text \<open>The control block and the state after an event, for the outcome of the abstract transition.\<close>

definition cb_after :: "addr \<Rightarrow> rdma_cm_event_type \<Rightarrow> rdma_ch_state \<Rightarrow> rdma_ch_cb \<Rightarrow> rdma_ch_cb" where
  "cb_after cid ev st cb = cb\<lparr>cb_state := st, cb_child_cm_id := child_after cid ev cb\<rparr>"

definition after_event ::
    "addr \<Rightarrow> addr \<Rightarrow> rdma_ch_cb \<Rightarrow> rdma_cm_event_type \<Rightarrow> rdma_ch_state \<Rightarrow> bool \<Rightarrow> world \<Rightarrow> world" where
  "after_event cid cbp cb ev st woken w = w\<lparr>w_cbs := (w_cbs w)(cbp \<mapsto> cb_after cid ev st cb),
     w_trace := trace_after cid cbp ev woken @ w_trace w\<rparr>"

lemma handler_run:
  assumes "conn_ok cid cbp idr cb w"
    and "cm_next (cb_server cb = 0) (route_result api cid cbp cb w) (cb_state cb) ev = (st, woken, ret)"
  shows "cma_event_handler api cid ev w = Inr (ret, after_event cid cbp cb ev st woken w)"
proof -
  have ok: "cid \<noteq> 0" "cbp \<noteq> 0" "w_cmids w cid = Some idr" "id_context idr = cbp" "w_cbs w cbp = Some cb"
    using assms(1) by (auto simp: conn_ok_def)
  note run = cma_event_handler_def Let_def wake_up_interruptible_cb_def rdma_resolve_route_def
    child_after_def trace_after_def after_event_def cb_after_def run_simps
  show ?thesis
  proof (cases ev)
    case RDMA_CM_EVENT_ADDR_RESOLVED
    then show ?thesis
      using ok assms(2) by (simp add: run route_result_def split: if_splits)
  next
    case RDMA_CM_EVENT_ESTABLISHED
    then show ?thesis
      using ok assms(2) by (cases "cb_server cb = 0") (auto simp: run fun_upd_idem)
  qed (use ok assms(2) in \<open>simp_all add: run fun_upd_idem whenK_def\<close>)
qed

definition delivered :: "addr \<Rightarrow> c_int \<Rightarrow> world \<Rightarrow> world" where
  "delivered cid ret w = (if ret = 0 then w else w\<lparr>w_cmids := (w_cmids w)(cid := None)\<rparr>)"

lemma after_event_sel [simp]:
  "w_cbs (after_event cid cbp cb ev st woken w) cbp = Some (cb_after cid ev st cb)"
  "w_cmids (after_event cid cbp cb ev st woken w) = w_cmids w"
  "w_pending (after_event cid cbp cb ev st woken w) = w_pending w"
  "cb_state (cb_after cid ev st cb) = st" "cb_server (cb_after cid ev st cb) = cb_server cb"
  "cb_cm_id (cb_after cid ev st cb) = cb_cm_id cb"
  by (simp_all add: after_event_def cb_after_def)

lemma conn_ok_after:
  "conn_ok cid cbp idr cb w \<Longrightarrow> conn_ok cid cbp idr (cb_after cid ev st cb) (after_event cid cbp cb ev st woken w)"
  by (simp add: conn_ok_def)

lemma conn_ok_pending: "conn_ok cid cbp idr cb w \<Longrightarrow> conn_ok cid cbp idr cb (w\<lparr>w_pending := es\<rparr>)"
  by (simp add: conn_ok_def)

lemma deliver_run:
  assumes "conn_ok cid cbp idr cb w"
    and "cm_next (cb_server cb = 0) (route_result api cid cbp cb w) (cb_state cb) ev = (st, woken, ret)"
  shows "cm_deliver api cid ev w = Inr ((), delivered cid ret (after_event cid cbp cb ev st woken w))"
proof -
  have "w_cmids w cid = Some idr" using assms(1) by (simp add: conn_ok_def)
  then show ?thesis
    using handler_run[OF assms]
    by (simp add: cm_deliver_def bindK_def rdma_destroy_id_def release_def delivered_def after_event_def)
qed

lemma wakes_after:
  "wakes cbp w < wakes cbp (delivered cid ret (after_event cid cbp cb ev st woken w)) \<longleftrightarrow> woken"
  by (simp add: wakes_def trace_after_def after_event_def delivered_def)

text \<open>One connection-manager event while a thread waits on the control block.\<close>

lemma wait_step:
  assumes intr: "\<And>cid ev. intr (CmEvent cid ev) = cm_deliver api cid ev"
    and ok: "conn_ok cid cbp idr cb w"
    and nxt: "cm_next (cb_server cb = 0) (route_result api cid cbp cb w) (cb_state cb) ev = (st, woken, ret)"
    and sleeps: "awake \<Longrightarrow> \<not> cond (cb_state cb)"
  shows "wait_loop intr cbp (state_cond cbp cond) awake (CmEvent cid ev # es) w =
     wait_loop intr cbp (state_cond cbp cond) woken es
       (delivered cid ret (after_event cid cbp cb ev st woken w))"
proof -
  have "w_cbs w cbp = Some cb" using ok by (simp add: conn_ok_def)
  then have "\<not> (awake \<and> state_cond cbp cond w)"
    using sleeps by (auto simp: state_cond_def)
  then show ?thesis
    using deliver_run[OF ok nxt] by (auto simp: wait_loop.simps intr wakes_after)
qed

lemma wait_ends:
  "conn_ok cid cbp idr cb w \<Longrightarrow> cond (cb_state cb) \<Longrightarrow>
   wait_loop intr cbp (state_cond cbp cond) True es w = Inr (0, w\<lparr>w_pending := es\<rparr>)"
  by (rule wait_loop_now) (simp add: state_cond_def conn_ok_def)

text \<open>What the two client operations do up to the point where they sleep.\<close>

definition bound_cb :: "rdma_ch_cb \<Rightarrow> rdma_ch_cb" where
  "bound_cb cb = cb\<lparr>cb_sin := (cb_sin cb)\<lparr>sa_port := cb_port cb\<rparr>\<rparr>"

definition bind_sleeps :: "addr \<Rightarrow> addr \<Rightarrow> rdma_ch_cb \<Rightarrow> world \<Rightarrow> world" where
  "bind_sleeps cid cbp cb w = w\<lparr>w_cbs := (w_cbs w)(cbp \<mapsto> bound_cb cb),
     w_trace := EvResolveAddr cid (cb_sin (bound_cb cb)) # w_trace w\<rparr>"

lemma bound_cb_sel [simp]:
  "cb_state (bound_cb cb) = cb_state cb" "cb_server (bound_cb cb) = cb_server cb"
  "cb_cm_id (bound_cb cb) = cb_cm_id cb" "cb_child_cm_id (bound_cb cb) = cb_child_cm_id cb"
  by (simp_all add: bound_cb_def)

lemma conn_ok_bind: "conn_ok cid cbp idr cb w \<Longrightarrow> conn_ok cid cbp idr (bound_cb cb) (bind_sleeps cid cbp cb w)"
  by (simp add: conn_ok_def bind_sleeps_def)

lemma bind_client_to_sleep:
  assumes "conn_ok cid cbp idr cb w" and "cb_cm_id cb = cid"
    and "\<And>w sa. rdma_resolve_addr_ret api w cid sa = 0"
  shows "bind_client api intr cbp w =
     thenK (wait_loop intr cbp (state_cond cbp (\<lambda>st. ROUTE_RESOLVED \<le> st)) True (w_pending w))
       (bindK (get_cb cbp) (\<lambda>cb. if cb_state cb \<noteq> ROUTE_RESOLVED then returnK (- 1) else returnK 0))
       (bind_sleeps cid cbp cb w)"
  using assms
  by (simp add: bind_client_def conn_ok_def bind_sleeps_def bound_cb_def rdma_resolve_addr_def
      wait_event_interruptible_def run_simps)

definition connect_sleeps :: "addr \<Rightarrow> world \<Rightarrow> world" where
  "connect_sleeps cid w = w\<lparr>w_trace := EvConnect cid client_conn_param # w_trace w\<rparr>"

lemma conn_ok_connect: "conn_ok cid cbp idr cb w \<Longrightarrow> conn_ok cid cbp idr cb (connect_sleeps cid w)"
  by (simp add: conn_ok_def connect_sleeps_def)

lemma connect_client_to_sleep:
  assumes "conn_ok cid cbp idr cb w" and "cb_cm_id cb = cid"
    and "\<And>w p. rdma_connect_ret api w cid p = 0"
  shows "connect_client api intr cbp w =
     thenK (wait_loop intr cbp (state_cond cbp (\<lambda>st. CONNECTED \<le> st)) True (w_pending w))
       (bindK (get_cb cbp) (\<lambda>cb. if cb_state cb \<noteq> CONNECTED then returnK (- 1) else returnK 0))
       (connect_sleeps cid w)"
  using assms
  by (simp add: connect_client_def conn_ok_def connect_sleeps_def rdma_connect_def
      wait_event_interruptible_def run_simps)

text \<open>An error event wakes the thread, whose condition is still false: it sleeps again.\<close>

lemma wait_error_blocks:
  assumes intr: "\<And>cid ev. intr (CmEvent cid ev) = cm_deliver api cid ev"
    and ok: "conn_ok cid cbp idr cb w" and "\<not> cond (cb_state cb)" and ev: "ev \<in> cm_error_events"
  shows "wait_loop intr cbp (state_cond cbp cond) True [CmEvent cid ev] w = Inl Blocked"
proof -
  have "cm_next (cb_server cb = 0) (route_result api cid cbp cb w) (cb_state cb) ev
        = (cb_state cb, True, - 1)"
    using ev by (auto simp: cm_error_events_def)
  from wait_step[OF intr ok this, of True cond "[]"] assms(3) show ?thesis
    by (simp add: wait_loop.simps state_cond_def delivered_def)
qed

text \<open>Sample connections for the witnesses.\<close>

definition sample_intr :: "env_event \<Rightarrow> (world, unit) kern" where
  "sample_intr e = (case e of CmEvent c ev \<Rightarrow> cm_deliver sample_api c ev | _ \<Rightarrow> returnK ())"

definition sample_id :: rdma_cm_id where
  "sample_id = \<lparr>id_context = 64, id_qp = NULL\<rparr>"

definition sample_conn :: "rdma_ch_state \<Rightarrow> env_event list \<Rightarrow> world" where
  "sample_conn st evs = empty_world\<lparr>
     w_cbs := [64 \<mapsto> zero_cb\<lparr>cb_state := st, cb_cm_id := 0x6000, cb_port := 0x061C\<rparr>],
     w_cmids := [0x6000 \<mapsto> sample_id], w_pending := evs\<rparr>"

lemma sample_conn_ok:
  "conn_ok 0x6000 64 sample_id
     (zero_cb\<lparr>cb_state := st, cb_cm_id := 0x6000, cb_port := 0x061C\<rparr>) (sample_conn st evs)"
  by (simp add: conn_ok_def sample_conn_def sample_id_def)

lemma bind_client_run:
  assumes intr: "\<And>cid ev. intr (CmEvent cid ev) = cm_deliver api cid ev"
    and ok: "conn_ok cid cbp idr cb w" and id: "cb_cm_id cb = cid"
    and api: "\<And>w sa. rdma_resolve_addr_ret api w cid sa = 0" "\<And>w. rdma_resolve_route_ret api w cid = 0"
    and st: "cb_state cb < ROUTE_RESOLVED"
    and evs: "w_pending w = CmEvent cid RDMA_CM_EVENT_ADDR_RESOLVED # CmEvent cid RDMA_CM_EVENT_ROUTE_RESOLVED # es"
  shows "\<exists>t. bind_client api intr cbp w = Inr (0, w\<lparr>w_cbs := (w_cbs w)(cbp \<mapsto>
       cb\<lparr>cb_sin := (cb_sin cb)\<lparr>sa_port := cb_port cb\<rparr>, cb_state := ROUTE_RESOLVED\<rparr>),
       w_trace := t, w_pending := es\<rparr>)"
proof -
  let ?A = RDMA_CM_EVENT_ADDR_RESOLVED and ?R = RDMA_CM_EVENT_ROUTE_RESOLVED
  let ?cb0 = "bound_cb cb" and ?w0 = "bind_sleeps cid cbp cb w"
  let ?cb1 = "cb_after cid ?A ADDR_RESOLVED ?cb0" and ?w1 = "after_event cid cbp ?cb0 ?A ADDR_RESOLVED False ?w0"
  let ?cb2 = "cb_after cid ?R ROUTE_RESOLVED ?cb1"
  let ?w2 = "(after_event cid cbp ?cb1 ?R ROUTE_RESOLVED True ?w1)\<lparr>w_pending := es\<rparr>"
  have low: "\<not> ROUTE_RESOLVED \<le> cb_state ?cb0" using st by simp
  have ok1: "conn_ok cid cbp idr ?cb1 ?w1" by (rule conn_ok_after[OF conn_ok_bind[OF ok]])
  have cbp: "cbp \<noteq> 0" using ok by (simp add: conn_ok_def)
  have "wait_loop intr cbp (state_cond cbp (\<lambda>st. ROUTE_RESOLVED \<le> st)) True (w_pending w) ?w0 = Inr (0, ?w2)"
    using wait_step[where intr = intr and ev = ?A and cond = "\<lambda>st. ROUTE_RESOLVED \<le> st", OF intr conn_ok_bind[OF ok]]
      wait_step[where intr = intr and ev = ?R and cond = "\<lambda>st. ROUTE_RESOLVED \<le> st", OF intr ok1]
      wait_ends[where cond = "\<lambda>st. ROUTE_RESOLVED \<le> st", OF conn_ok_after[OF ok1, of ?R ROUTE_RESOLVED True]] low
    by (simp add: evs route_result_def api delivered_def)
  then have "bind_client api intr cbp w = Inr (0, ?w2)"
    unfolding bind_client_to_sleep[OF ok id api(1)] using cbp by (simp add: thenK_def bindK_def load_def)
  then show ?thesis
    by (auto simp: after_event_def bind_sleeps_def cb_after_def child_after_def bound_cb_def)
qed

lemma connect_client_run:
  assumes intr: "\<And>cid ev. intr (CmEvent cid ev) = cm_deliver api cid ev"
    and ok: "conn_ok cid cbp idr cb w" and id: "cb_cm_id cb = cid"
    and api: "\<And>w p. rdma_connect_ret api w cid p = 0"
    and st: "cb_state cb < CONNECTED" and client: "cb_server cb = 0"
    and evs: "w_pending w = CmEvent cid RDMA_CM_EVENT_ESTABLISHED # es"
  shows "\<exists>t. connect_client api intr cbp w = Inr (0, w\<lparr>w_cbs := (w_cbs w)(cbp \<mapsto> cb\<lparr>cb_state := CONNECTED\<rparr>),
       w_trace := t @ w_trace w, w_pending := es\<rparr>)"
proof -
  let ?E = RDMA_CM_EVENT_ESTABLISHED
  let ?w3 = "connect_sleeps cid w"
  let ?w4 = "(after_event cid cbp cb ?E CONNECTED True ?w3)\<lparr>w_pending := es\<rparr>"
  have ok3: "conn_ok cid cbp idr cb ?w3" by (rule conn_ok_connect[OF ok])
  have cbp: "cbp \<noteq> 0" using ok by (simp add: conn_ok_def)
  have low: "\<not> CONNECTED \<le> cb_state cb" using st by simp
  have "wait_loop intr cbp (state_cond cbp (\<lambda>st. CONNECTED \<le> st)) True (w_pending w) ?w3 = Inr (0, ?w4)"
    using wait_step[where intr = intr and ev = ?E and cond = "\<lambda>st. CONNECTED \<le> st", OF intr ok3] low
      wait_ends[where cond = "\<lambda>st. CONNECTED \<le> st", OF conn_ok_after[OF ok3, of ?E CONNECTED True]]
    by (simp add: evs delivered_def client)
  then have "connect_client api intr cbp w = Inr (0, ?w4)"
    unfolding connect_client_to_sleep[OF ok id api] using cbp by (simp add: thenK_def bindK_def load_def)
  then show ?thesis
    by (intro exI[of _ "trace_after cid cbp ?E True @ [EvConnect cid client_conn_param]"])
      (simp add: after_event_def connect_sleeps_def cb_after_def child_after_def)
qed

lemma connects_run:
  assumes intr: "\<And>cid ev. intr (CmEvent cid ev) = cm_deliver api cid ev"
    and ok: "conn_ok cid cbp idr cb w" and id: "cb_cm_id cb = cid"
    and api: "\<And>w sa. rdma_resolve_addr_ret api w cid sa = 0" "\<And>w. rdma_resolve_route_ret api w cid = 0"
      "\<And>w p. rdma_connect_ret api w cid p = 0"
    and st: "cb_state cb < ROUTE_RESOLVED" and client: "cb_server cb = 0"
    and evs: "w_pending w = CmEvent cid RDMA_CM_EVENT_ADDR_RESOLVED # CmEvent cid RDMA_CM_EVENT_ROUTE_RESOLVED
       # CmEvent cid RDMA_CM_EVENT_ESTABLISHED # es"
  shows "\<exists>w1 w2. bind_client api intr cbp w = Inr (0, w1)
     \<and> w_cbs w1 cbp = Some (cb\<lparr>cb_sin := (cb_sin cb)\<lparr>sa_port := cb_port cb\<rparr>, cb_state := ROUTE_RESOLVED\<rparr>)
     \<and> connect_client api intr cbp w1 = Inr (0, w2)
     \<and> w_cbs w2 cbp = Some (cb\<lparr>cb_sin := (cb_sin cb)\<lparr>sa_port := cb_port cb\<rparr>, cb_state := CONNECTED\<rparr>)
     \<and> w_pending w2 = es"
proof -
  let ?cb = "cb\<lparr>cb_sin := (cb_sin cb)\<lparr>sa_port := cb_port cb\<rparr>, cb_state := ROUTE_RESOLVED\<rparr>"
  let ?es = "CmEvent cid RDMA_CM_EVENT_ESTABLISHED # es"
  obtain t where t: "bind_client api intr cbp w = Inr (0, w\<lparr>w_cbs := (w_cbs w)(cbp \<mapsto> ?cb), w_trace := t, w_pending := ?es\<rparr>)"
    using bind_client_run[where intr = intr, OF intr ok id api(1,2) st evs] by blast
  let ?w1 = "w\<lparr>w_cbs := (w_cbs w)(cbp \<mapsto> ?cb), w_trace := t, w_pending := ?es\<rparr>"
  have ok1: "conn_ok cid cbp idr ?cb ?w1" using ok by (simp add: conn_ok_def)
  have "\<exists>t. connect_client api intr cbp ?w1 = Inr (0, ?w1\<lparr>w_cbs := (w_cbs ?w1)(cbp \<mapsto> ?cb\<lparr>cb_state := CONNECTED\<rparr>),
       w_trace := t @ w_trace ?w1, w_pending := es\<rparr>)"
    by (rule connect_client_run[where intr = intr, OF intr ok1 _ api(3)]) (simp_all add: id client state_less_num)
  with t show ?thesis by fastforce
qed

lemma sample_connects:
  "\<exists>w1 w2. bind_client sample_api sample_intr 64
       (sample_conn IDLE [CmEvent 0x6000 RDMA_CM_EVENT_ADDR_RESOLVED,
          CmEvent 0x6000 RDMA_CM_EVENT_ROUTE_RESOLVED, CmEvent 0x6000 RDMA_CM_EVENT_ESTABLISHED])
       = Inr (0, w1) \<and> connect_client sample_api sample_intr 64 w1 = Inr (0, w2)"
  using connects_run[where intr = sample_intr and api = sample_api and es = "[]",
      OF _ sample_conn_ok[of IDLE]]
  by (fastforce simp: sample_intr_def sample_api_def state_less_num sample_conn_def zero_cb_def)

section \<open>Properties of the connection state machine\<close>

text \<open>
  C12. The event handler refines the abstract transition \<open>cm_next\<close> on every event and every outcome of
  \<open>rdma_resolve_route\<close>: it returns what the transition says, updates the state of the control block
  (and its child id on a connection request) and nothing else, and wakes the waiting thread exactly
  when the transition says so.
\<close>

theorem cma_event_handler_refines:
  assumes "conn_ok cid cbp idr cb w"
  shows "\<exists>st woken ret.
     cm_next (cb_server cb = 0) (route_result api cid cbp cb w) (cb_state cb) ev = (st, woken, ret)
     \<and> cma_event_handler api cid ev w = Inr (ret, w\<lparr>
         w_cbs := (w_cbs w)(cbp \<mapsto> cb\<lparr>cb_state := st, cb_child_cm_id := child_after cid ev cb\<rparr>),
         w_trace := trace_after cid cbp ev woken @ w_trace w\<rparr>)"
  using handler_run[OF assms] unfolding after_event_def cb_after_def by (metis prod_cases3)

theorem cma_event_handler_refines_witness:
  "\<exists>st woken ret. cm_next True 0 ROUTE_RESOLVED RDMA_CM_EVENT_ESTABLISHED = (st, woken, ret)
     \<and> (\<exists>w'. cma_event_handler sample_api 0x6000 RDMA_CM_EVENT_ESTABLISHED (sample_conn ROUTE_RESOLVED [])
           = Inr (ret, w'))"
  using cma_event_handler_refines[OF sample_conn_ok[of ROUTE_RESOLVED "[]"], of sample_api
      RDMA_CM_EVENT_ESTABLISHED]
  by (auto simp: route_result_def sample_api_def zero_cb_def)

text \<open>
  Whenever \<open>bind_client\<close> returns 0 the channel is in state \<open>ROUTE_RESOLVED\<close>, and whenever
  \<open>connect_client\<close> returns 0 it is in state \<open>CONNECTED\<close>, for every behaviour of the connection
  manager and every handler run while the thread slept.
\<close>

theorem setup_waits_sound:
  "(bind_client api intr cbp w = Inr (0, w') \<longrightarrow>
      (\<exists>cb. w_cbs w' cbp = Some cb \<and> cb_state cb = ROUTE_RESOLVED))
   \<and> (connect_client api intr cbp w = Inr (0, w') \<longrightarrow>
      (\<exists>cb. w_cbs w' cbp = Some cb \<and> cb_state cb = CONNECTED))"
  by (auto simp: bind_client_def connect_client_def bindK_eq_Inr thenK_eq_Inr cbs.load_Inr
      split: if_splits)

theorem setup_waits_sound_witness:
  "\<exists>w w1 w2 cb1 cb2. bind_client sample_api sample_intr 64 w = Inr (0, w1)
     \<and> w_cbs w1 64 = Some cb1 \<and> cb_state cb1 = ROUTE_RESOLVED
     \<and> connect_client sample_api sample_intr 64 w1 = Inr (0, w2)
     \<and> w_cbs w2 64 = Some cb2 \<and> cb_state cb2 = CONNECTED"
  using sample_connects setup_waits_sound by metis

text \<open>
  C28. Address and route resolution complete: when the manager reports \<open>ADDR_RESOLVED\<close> and then
  \<open>ROUTE_RESOLVED\<close>, \<open>bind_client\<close> returns 0 with the port stored in the destination address; when it
  then reports \<open>ESTABLISHED\<close>, \<open>connect_client\<close> of a client returns 0 in state \<open>CONNECTED\<close>. Neither
  consumes a later event.
\<close>

theorem client_connects:
  assumes intr: "\<And>cid ev. intr (CmEvent cid ev) = cm_deliver api cid ev"
    and ok: "conn_ok cid cbp idr cb w" and id: "cb_cm_id cb = cid"
    and api: "\<And>w sa. rdma_resolve_addr_ret api w cid sa = 0" "\<And>w. rdma_resolve_route_ret api w cid = 0"
      "\<And>w p. rdma_connect_ret api w cid p = 0"
    and st: "cb_state cb < ROUTE_RESOLVED" and client: "cb_server cb = 0"
    and evs: "w_pending w = CmEvent cid RDMA_CM_EVENT_ADDR_RESOLVED # CmEvent cid RDMA_CM_EVENT_ROUTE_RESOLVED
       # CmEvent cid RDMA_CM_EVENT_ESTABLISHED # es"
  shows "\<exists>w1 w2. bind_client api intr cbp w = Inr (0, w1)
     \<and> w_cbs w1 cbp = Some (cb\<lparr>cb_sin := (cb_sin cb)\<lparr>sa_port := cb_port cb\<rparr>, cb_state := ROUTE_RESOLVED\<rparr>)
     \<and> connect_client api intr cbp w1 = Inr (0, w2)
     \<and> w_cbs w2 cbp = Some (cb\<lparr>cb_sin := (cb_sin cb)\<lparr>sa_port := cb_port cb\<rparr>, cb_state := CONNECTED\<rparr>)
     \<and> w_pending w2 = es"
  using assms by (rule connects_run)

theorem client_connects_witness:
  "\<exists>w1 w2. bind_client sample_api sample_intr 64
       (sample_conn IDLE [CmEvent 0x6000 RDMA_CM_EVENT_ADDR_RESOLVED,
          CmEvent 0x6000 RDMA_CM_EVENT_ROUTE_RESOLVED, CmEvent 0x6000 RDMA_CM_EVENT_ESTABLISHED])
       = Inr (0, w1) \<and> connect_client sample_api sample_intr 64 w1 = Inr (0, w2) \<and> w_pending w2 = []"
  using client_connects[where intr = sample_intr and api = sample_api and es = "[]",
      OF _ sample_conn_ok[of IDLE]]
  by (fastforce simp: sample_intr_def sample_api_def state_less_num sample_conn_def zero_cb_def)

text \<open>
  C29. When the connection manager reports a failure (address, route or connection error,
  unreachable, rejected), the handler wakes the waiting thread but leaves the state unchanged, so
  the thread finds its condition false and sleeps for ever: neither \<open>bind_client\<close> nor
  \<open>connect_client\<close> returns the error.
\<close>

theorem connection_error_never_reported:
  assumes intr: "\<And>cid ev. intr (CmEvent cid ev) = cm_deliver api cid ev"
    and ok: "conn_ok cid cbp idr cb w" and id: "cb_cm_id cb = cid"
    and api: "\<And>w sa. rdma_resolve_addr_ret api w cid sa = 0" "\<And>w p. rdma_connect_ret api w cid p = 0"
    and ev: "ev \<in> cm_error_events" and pend: "w_pending w = [CmEvent cid ev]"
  shows "(cb_state cb < ROUTE_RESOLVED \<longrightarrow> bind_client api intr cbp w = Inl Blocked)
     \<and> (cb_state cb < CONNECTED \<longrightarrow> connect_client api intr cbp w = Inl Blocked)"
proof (intro conjI impI)
  assume "cb_state cb < ROUTE_RESOLVED"
  then have "\<not> ROUTE_RESOLVED \<le> cb_state (bound_cb cb)" by simp
  from wait_error_blocks[where cond = "\<lambda>st. ROUTE_RESOLVED \<le> st", OF intr conn_ok_bind[OF ok] this ev]
  show "bind_client api intr cbp w = Inl Blocked"
    unfolding bind_client_to_sleep[OF ok id api(1)] pend by (rule thenK_Inl)
next
  assume "cb_state cb < CONNECTED"
  then have "\<not> CONNECTED \<le> cb_state cb" by simp
  from wait_error_blocks[where cond = "\<lambda>st. CONNECTED \<le> st", OF intr conn_ok_connect[OF ok] this ev]
  show "connect_client api intr cbp w = Inl Blocked"
    unfolding connect_client_to_sleep[OF ok id api(2)] pend by (rule thenK_Inl)
qed

theorem connection_error_never_reported_witness:
  "connect_client sample_api sample_intr 64
     (sample_conn ROUTE_RESOLVED [CmEvent 0x6000 RDMA_CM_EVENT_REJECTED]) = Inl Blocked"
  using connection_error_never_reported[where intr = sample_intr and api = sample_api
      and ev = RDMA_CM_EVENT_REJECTED, OF _ sample_conn_ok[of ROUTE_RESOLVED]]
  by (fastforce simp: sample_intr_def sample_api_def state_less_num sample_conn_def
      cm_error_events_def)

end
