(* ===== verification/Rdma_Setup.thy ===== *)
theory Rdma_Setup
  imports Rdma_Conn
begin

text \<open>
  Message sizes and the queue pair of a channel with its protection domain and completion queue
  (\<^verbatim>\<open>rdma.c\<close>). The file-local variable \<open>errno\<close> of \<^verbatim>\<open>rdma.c\<close> is never assigned and therefore 0.
\<close>

section \<open>Message sizes\<close>

text \<open>The offset of \<open>data\<close> in the packed \<open>struct rdma_msg\<close>: three 64-bit fields precede it.\<close>

definition msgheader_size :: c_int where
  "msgheader_size = of_nat HEADER_BYTES"

definition msgdata_size :: "c_int \<Rightarrow> c_int" where
  "msgdata_size buf_size = buf_size - msgheader_size"

definition msgbuf_size :: "c_int \<Rightarrow> c_int" where
  "msgbuf_size data_size = data_size + msgheader_size"

text \<open>\<open>sizeof *data\<close> is the size of a \<open>char\<close>, whatever the message.\<close>

definition valid_msg_size :: "rdma_ch_cb \<Rightarrow> addr \<Rightarrow> bool" where
  "valid_msg_size cb data \<longleftrightarrow> size_of_int (cb_msgheader_size cb) + 1 \<le> size_of_int (cb_msgbuf_size cb)"

definition errno :: c_int where
  "errno = 0"

section \<open>Queue pair\<close>

definition RDMA_SQ_DEPTH :: u32 where
  "RDMA_SQ_DEPTH = 16"

text \<open>The signalling type is the zero of \<open>memset\<close>, every work request.\<close>

definition qp_init_attr :: "rdma_ch_cb \<Rightarrow> ib_qp_init_attr" where
  "qp_init_attr cb = \<lparr>max_send_wr = RDMA_SQ_DEPTH, max_recv_wr = 2, max_recv_sge = 1, max_send_sge = 1,
     sq_sig_type = IB_SIGNAL_ALL_WR, qp_type = IB_QPT_RC, send_cq = cb_cq cb, recv_cq = cb_cq cb\<rparr>"

definition create_qp_on :: "kapi \<Rightarrow> addr \<Rightarrow> addr \<Rightarrow> (world, c_int) kern" where
  "create_qp_on api cbp cm =
     bindK (get_cb cbp) (\<lambda>cb.
     bindK (rdma_create_qp api cm (cb_pd cb) (qp_init_attr cb)) (\<lambda>ret.
     if ret = 0 then
       bindK (load w_cmids cm) (\<lambda>idr.
       thenK (upd_cb cbp (\<lambda>c. c\<lparr>cb_qp := id_qp idr\<rparr>)) (returnK ret))
     else returnK ret))"

definition create_qp :: "kapi \<Rightarrow> addr \<Rightarrow> (world, c_int) kern" where
  "create_qp api cbp =
     bindK (get_cb cbp) (\<lambda>cb.
     if cb_server cb \<noteq> 0 then create_qp_on api cbp (cb_child_cm_id cb)
     else create_qp_on api cbp (cb_cm_id cb))"

definition setup_qp_err2 :: "addr \<Rightarrow> c_int \<Rightarrow> (world, c_int) kern" where
  "setup_qp_err2 cbp ret =
     bindK (get_cb cbp) (\<lambda>cb. thenK (ib_dealloc_pd (cb_pd cb)) (returnK ret))"

definition setup_qp_err3 :: "addr \<Rightarrow> c_int \<Rightarrow> (world, c_int) kern" where
  "setup_qp_err3 cbp ret =
     bindK (get_cb cbp) (\<lambda>cb. thenK (ib_destroy_cq (cb_cq cb)) (setup_qp_err2 cbp ret))"

definition setup_qp :: "kapi \<Rightarrow> addr \<Rightarrow> addr \<Rightarrow> (world, c_int) kern" where
  "setup_qp api cbp cm_id =
     thenK (load w_cmids cm_id)
     (bindK (getK (\<lambda>w. cm_id_device api w cm_id)) (\<lambda>dev.
      bindK (ib_alloc_pd api dev) (\<lambda>pd.
      thenK (upd_cb cbp (\<lambda>c. c\<lparr>cb_pd := pd\<rparr>))
      (if is_err api pd then returnK (ptr_err api pd)
       else
         bindK (getK (\<lambda>w. cm_id_device api w cm_id)) (\<lambda>dev.
         bindK (ib_create_cq api dev cbp) (\<lambda>cq.
         thenK (upd_cb cbp (\<lambda>c. c\<lparr>cb_cq := cq\<rparr>))
         (if is_err api cq then setup_qp_err2 cbp (ptr_err api cq)
          else
            bindK (ib_req_notify_cq api cq) (\<lambda>ret.
            if ret \<noteq> 0 then setup_qp_err3 cbp errno
            else
              bindK (create_qp api cbp) (\<lambda>ret.
              if ret \<noteq> 0 then setup_qp_err3 cbp ret else returnK 0)))))))))"

definition kfree_qp :: "addr \<Rightarrow> (world, unit) kern" where
  "kfree_qp cbp =
     bindK (get_cb cbp) (\<lambda>cb.
     thenK (ib_destroy_qp (cb_qp cb))
     (thenK (ib_destroy_cq (cb_cq cb))
     (ib_dealloc_pd (cb_pd cb))))"

section \<open>Steps of the set-up\<close>

text \<open>The state once the protection domain and the completion queue exist and notification is requested.\<close>

definition qp_base :: "addr \<Rightarrow> rdma_ch_cb \<Rightarrow> addr \<Rightarrow> ib_pd \<Rightarrow> addr \<Rightarrow> world \<Rightarrow> world" where
  "qp_base cbp cb pd pdv cq w = w\<lparr>w_pds := (w_pds w)(pd \<mapsto> pdv),
     w_cqs := (w_cqs w)(cq \<mapsto> \<lparr>cq_context = cbp\<rparr>),
     w_cbs := (w_cbs w)(cbp \<mapsto> cb\<lparr>cb_pd := pd, cb_cq := cq\<rparr>),
     w_trace := EvNotify cq # w_trace w\<rparr>"

lemma setup_qp_err3_run:
  assumes "cbp \<noteq> 0" and "w_pds w pd = None" and "w_cqs w cq = None"
  shows "setup_qp_err3 cbp ret (qp_base cbp cb pd pdv cq w) = Inr (ret,
     w\<lparr>w_cbs := (w_cbs w)(cbp \<mapsto> cb\<lparr>cb_pd := pd, cb_cq := cq\<rparr>), w_trace := EvNotify cq # w_trace w\<rparr>)"
proof -
  have undo: "(w_pds w)(pd := None) = w_pds w" "(w_cqs w)(cq := None) = w_cqs w"
    using assms(2,3) by (simp_all add: fun_upd_idem)
  show ?thesis
    using assms(1)
    by (simp add: setup_qp_err3_def setup_qp_err2_def ib_destroy_cq_def ib_dealloc_pd_def qp_base_def
        run_simps undo)
qed

lemma create_qp_run:
  assumes "conn_ok cid cbp idr cb w" and "cb_cm_id cb = cid" and "cb_server cb = 0"
    and "w_pds w (cb_pd cb) = Some pdv" and "cb_pd cb \<noteq> 0"
    and ret: "rdma_create_qp_ret api w cid (cb_pd cb) (qp_init_attr cb) = (r, q)"
  shows "create_qp api cbp w = Inr (r, if r = 0 then
       w\<lparr>w_qps := (w_qps w)(q \<mapsto> \<lparr>qp_attr = qp_init_attr cb\<rparr>),
         w_cmids := (w_cmids w)(cid \<mapsto> idr\<lparr>id_qp := q\<rparr>),
         w_cbs := (w_cbs w)(cbp \<mapsto> cb\<lparr>cb_qp := q\<rparr>)\<rparr> else w)"
proof -
  have ok: "cid \<noteq> 0" "cbp \<noteq> 0" "w_cmids w cid = Some idr" "w_cbs w cbp = Some cb"
    using assms(1) by (auto simp: conn_ok_def)
  show ?thesis
    using assms(2-5) ok
    by (simp add: create_qp_def create_qp_on_def rdma_create_qp_def run_simps ret)
qed

text \<open>A queue pair that is set up: its three objects are live and the control block refers to them.\<close>

definition qp_ready :: "addr \<Rightarrow> rdma_ch_cb \<Rightarrow> world \<Rightarrow> bool" where
  "qp_ready cbp cb w \<longleftrightarrow>
     (\<exists>pdv. w_pds w (cb_pd cb) = Some pdv) \<and> cb_pd cb \<noteq> NULL
     \<and> w_cqs w (cb_cq cb) = Some \<lparr>cq_context = cbp\<rparr> \<and> cb_cq cb \<noteq> NULL
     \<and> w_qps w (cb_qp cb) = Some \<lparr>qp_attr = qp_init_attr cb\<rparr> \<and> cb_qp cb \<noteq> NULL"

lemma qp_init_attr_sel: "cb_cq cb = cb_cq cb' \<Longrightarrow> qp_init_attr cb = qp_init_attr cb'"
  by (simp add: qp_init_attr_def)

lemma kfree_qp_run:
  assumes "cbp \<noteq> 0" and "w_cbs w cbp = Some cb" and "qp_ready cbp cb w"
  shows "kfree_qp cbp w = Inr ((), w\<lparr>w_pds := (w_pds w)(cb_pd cb := None),
     w_cqs := (w_cqs w)(cb_cq cb := None), w_qps := (w_qps w)(cb_qp cb := None)\<rparr>)"
  using assms
  by (auto simp: kfree_qp_def ib_destroy_qp_def ib_destroy_cq_def ib_dealloc_pd_def qp_ready_def run_simps)

section \<open>Outcomes of setup\_qp\<close>

text \<open>With the protection domain and the completion queue created, what is left to run.\<close>

lemma setup_qp_to_notify:
  assumes ok: "conn_ok cid cbp idr cb w" and vs: "verbs_sound api"
    and pd: "ib_alloc_pd_ret api w (cm_id_device api w cid) = (pd, pdv)" "\<not> is_err api pd"
    and w1: "w1 = w\<lparr>w_pds := (w_pds w)(pd \<mapsto> pdv), w_cbs := (w_cbs w)(cbp \<mapsto> cb\<lparr>cb_pd := pd\<rparr>)\<rparr>"
    and cq: "ib_create_cq_ret api w1 (cm_id_device api w1 cid) = cq" "\<not> is_err api cq"
    and w2: "w2 = w1\<lparr>w_cqs := (w_cqs w)(cq \<mapsto> \<lparr>cq_context = cbp\<rparr>),
       w_cbs := (w_cbs w)(cbp \<mapsto> cb\<lparr>cb_pd := pd, cb_cq := cq\<rparr>)\<rparr>"
  shows "setup_qp api cbp cid w =
     (if ib_req_notify_cq_ret api w2 cq \<noteq> 0 then setup_qp_err3 cbp errno (qp_base cbp cb pd pdv cq w)
      else bindK (create_qp api cbp) (\<lambda>ret. if ret \<noteq> 0 then setup_qp_err3 cbp ret else returnK 0)
             (qp_base cbp cb pd pdv cq w))"
proof -
  have live: "cid \<noteq> 0" "cbp \<noteq> 0" "w_cmids w cid = Some idr" "w_cbs w cbp = Some cb"
    using ok by (auto simp: conn_ok_def)
  have cqn: "cq \<noteq> 0" using verbs_cq[OF vs cq] by simp
  show ?thesis
    using live pd cq cqn by (simp add: setup_qp_def run_simps Let_def qp_base_def w1 w2)
qed

text \<open>An error in creating the protection domain or the completion queue.\<close>

lemma setup_qp_early_errors:
  assumes ok: "conn_ok cid cbp idr cb w" and vs: "verbs_sound api"
    and pd: "ib_alloc_pd_ret api w (cm_id_device api w cid) = (pd, pdv)"
    and w1: "w1 = w\<lparr>w_pds := (w_pds w)(pd \<mapsto> pdv), w_cbs := (w_cbs w)(cbp \<mapsto> cb\<lparr>cb_pd := pd\<rparr>)\<rparr>"
    and cq: "ib_create_cq_ret api w1 (cm_id_device api w1 cid) = cq"
  shows "is_err api pd \<Longrightarrow> setup_qp api cbp cid w =
       Inr (ptr_err api pd, w\<lparr>w_cbs := (w_cbs w)(cbp \<mapsto> cb\<lparr>cb_pd := pd\<rparr>)\<rparr>)"
    and "\<not> is_err api pd \<Longrightarrow> is_err api cq \<Longrightarrow> setup_qp api cbp cid w =
       Inr (ptr_err api cq, w\<lparr>w_cbs := (w_cbs w)(cbp \<mapsto> cb\<lparr>cb_pd := pd, cb_cq := cq\<rparr>)\<rparr>)"
proof -
  have live: "cid \<noteq> 0" "cbp \<noteq> 0" "w_cmids w cid = Some idr" "w_cbs w cbp = Some cb"
    using ok by (auto simp: conn_ok_def)
  show "is_err api pd \<Longrightarrow> setup_qp api cbp cid w =
       Inr (ptr_err api pd, w\<lparr>w_cbs := (w_cbs w)(cbp \<mapsto> cb\<lparr>cb_pd := pd\<rparr>)\<rparr>)"
    using live pd by (simp add: setup_qp_def run_simps Let_def)
  assume e: "\<not> is_err api pd" "is_err api cq"
  have "(w_pds w)(pd := None) = w_pds w"
    using verbs_pd[OF vs pd e(1)] by (simp add: fun_upd_idem)
  then show "setup_qp api cbp cid w =
       Inr (ptr_err api cq, w\<lparr>w_cbs := (w_cbs w)(cbp \<mapsto> cb\<lparr>cb_pd := pd, cb_cq := cq\<rparr>)\<rparr>)"
    using live pd cq e
    by (simp add: setup_qp_def run_simps Let_def w1 setup_qp_err2_def ib_dealloc_pd_def)
qed

text \<open>The control block with its three objects, and the state after a successful set-up.\<close>

definition qp_cb :: "rdma_ch_cb \<Rightarrow> addr \<Rightarrow> addr \<Rightarrow> addr \<Rightarrow> rdma_ch_cb" where
  "qp_cb cb pd cq q = cb\<lparr>cb_pd := pd, cb_cq := cq, cb_qp := q\<rparr>"

definition qp_done ::
    "addr \<Rightarrow> addr \<Rightarrow> rdma_cm_id \<Rightarrow> rdma_ch_cb \<Rightarrow> addr \<Rightarrow> ib_pd \<Rightarrow> addr \<Rightarrow> addr \<Rightarrow> world \<Rightarrow> world" where
  "qp_done cid cbp idr cb pd pdv cq q w =
     w\<lparr>w_pds := (w_pds w)(pd \<mapsto> pdv), w_cqs := (w_cqs w)(cq \<mapsto> \<lparr>cq_context = cbp\<rparr>),
       w_trace := EvNotify cq # w_trace w,
       w_qps := (w_qps w)(q \<mapsto> \<lparr>qp_attr = qp_init_attr (qp_cb cb pd cq q)\<rparr>),
       w_cmids := (w_cmids w)(cid \<mapsto> idr\<lparr>id_qp := q\<rparr>),
       w_cbs := (w_cbs w)(cbp \<mapsto> qp_cb cb pd cq q)\<rparr>"

lemma qp_done_sel [simp]:
  "w_cbs (qp_done cid cbp idr cb pd pdv cq q w) = (w_cbs w)(cbp \<mapsto> qp_cb cb pd cq q)"
  "w_pds (qp_done cid cbp idr cb pd pdv cq q w) = (w_pds w)(pd \<mapsto> pdv)"
  "w_cqs (qp_done cid cbp idr cb pd pdv cq q w) = (w_cqs w)(cq \<mapsto> \<lparr>cq_context = cbp\<rparr>)"
  "w_qps (qp_done cid cbp idr cb pd pdv cq q w) =
     (w_qps w)(q \<mapsto> \<lparr>qp_attr = qp_init_attr (qp_cb cb pd cq q)\<rparr>)"
  "w_cmids (qp_done cid cbp idr cb pd pdv cq q w) = (w_cmids w)(cid \<mapsto> idr\<lparr>id_qp := q\<rparr>)"
  "w_ctxs (qp_done cid cbp idr cb pd pdv cq q w) = w_ctxs w"
  "w_msgs (qp_done cid cbp idr cb pd pdv cq q w) = w_msgs w"
  "w_dmas (qp_done cid cbp idr cb pd pdv cq q w) = w_dmas w"
  "w_bytes (qp_done cid cbp idr cb pd pdv cq q w) = w_bytes w"
  "w_rpcs (qp_done cid cbp idr cb pd pdv cq q w) = w_rpcs w"
  "w_pending (qp_done cid cbp idr cb pd pdv cq q w) = w_pending w"
  "w_rmsgs (qp_done cid cbp idr cb pd pdv cq q w) = w_rmsgs w"
  "w_mhs (qp_done cid cbp idr cb pd pdv cq q w) = w_mhs w"
  "w_rhs (qp_done cid cbp idr cb pd pdv cq q w) = w_rhs w"
  "w_waitqs (qp_done cid cbp idr cb pd pdv cq q w) = w_waitqs w"
  "w_mrs (qp_done cid cbp idr cb pd pdv cq q w) = w_mrs w"
  by (simp_all add: qp_done_def)

lemma qp_cb_sel [simp]:
  "cb_pd (qp_cb cb pd cq q) = pd" "cb_cq (qp_cb cb pd cq q) = cq" "cb_qp (qp_cb cb pd cq q) = q"
  by (simp_all add: qp_cb_def)

lemma qp_done_ready:
  "pd \<noteq> 0 \<Longrightarrow> cq \<noteq> 0 \<Longrightarrow> q \<noteq> 0 \<Longrightarrow> qp_ready cbp (qp_cb cb pd cq q) (qp_done cid cbp idr cb pd pdv cq q w)"
  by (simp add: qp_ready_def)

lemma setup_qp_from_notify:
  assumes ok: "conn_ok cid cbp idr cb w" and id: "cb_cm_id cb = cid" and client: "cb_server cb = 0"
    and pd: "pd \<noteq> 0" "w_pds w pd = None" and cq: "w_cqs w cq = None"
    and ret: "rdma_create_qp_ret api (qp_base cbp cb pd pdv cq w) cid pd
       (qp_init_attr (cb\<lparr>cb_pd := pd, cb_cq := cq\<rparr>)) = (r, q)"
  shows "bindK (create_qp api cbp) (\<lambda>ret. if ret \<noteq> 0 then setup_qp_err3 cbp ret else returnK 0)
       (qp_base cbp cb pd pdv cq w) =
     (if r = 0 then Inr (0, qp_done cid cbp idr cb pd pdv cq q w)
      else Inr (r, w\<lparr>w_cbs := (w_cbs w)(cbp \<mapsto> cb\<lparr>cb_pd := pd, cb_cq := cq\<rparr>),
             w_trace := EvNotify cq # w_trace w\<rparr>))"
proof -
  let ?cb = "cb\<lparr>cb_pd := pd, cb_cq := cq\<rparr>"
  have ok': "conn_ok cid cbp idr ?cb (qp_base cbp cb pd pdv cq w)" and cbp: "cbp \<noteq> 0"
    using ok by (simp_all add: conn_ok_def qp_base_def)
  note run = create_qp_run[OF ok', where api = api and pdv = pdv and r = r and q = q]
  have created: "create_qp api cbp (qp_base cbp cb pd pdv cq w) =
      Inr (r, if r = 0 then qp_done cid cbp idr cb pd pdv cq q w else qp_base cbp cb pd pdv cq w)"
    using run id client pd ret
    by (simp add: qp_done_def) (simp add: qp_base_def qp_cb_def qp_init_attr_def)
  show ?thesis
    using setup_qp_err3_run[OF cbp pd(2) cq] by (simp add: bindK_def created)
qed

lemma setup_qp_outcome:
  assumes ok: "conn_ok cid cbp idr cb w" and id: "cb_cm_id cb = cid" and client: "cb_server cb = 0"
    and vs: "verbs_sound api" and es: "err_ptr_sound api"
    and notify: "\<And>w q. ib_req_notify_cq_ret api w q = 0"
  shows "(\<exists>pd pdv cq q. setup_qp api cbp cid w = Inr (0, qp_done cid cbp idr cb pd pdv cq q w)
        \<and> pd \<noteq> 0 \<and> cq \<noteq> 0 \<and> q \<noteq> 0 \<and> w_pds w pd = None \<and> w_cqs w cq = None \<and> w_qps w q = None)
     \<or> (\<exists>r w' pd cq. setup_qp api cbp cid w = Inr (r, w') \<and> r \<noteq> 0
        \<and> (\<exists>t. w' = w\<lparr>w_cbs := (w_cbs w)(cbp \<mapsto> cb\<lparr>cb_pd := pd, cb_cq := cq\<rparr>), w_trace := t\<rparr>))"
proof -
  obtain pd pdv where pd: "ib_alloc_pd_ret api w (cm_id_device api w cid) = (pd, pdv)"
    by fastforce
  define w1 where w1: "w1 = w\<lparr>w_pds := (w_pds w)(pd \<mapsto> pdv), w_cbs := (w_cbs w)(cbp \<mapsto> cb\<lparr>cb_pd := pd\<rparr>)\<rparr>"
  obtain cq where cq: "ib_create_cq_ret api w1 (cm_id_device api w1 cid) = cq" by blast
  obtain r q where qp: "rdma_create_qp_ret api (qp_base cbp cb pd pdv cq w) cid pd
       (qp_init_attr (cb\<lparr>cb_pd := pd, cb_cq := cq\<rparr>)) = (r, q)" by fastforce
  note early = setup_qp_early_errors[OF ok vs pd w1 cq]
  consider "is_err api pd" | "\<not> is_err api pd" "is_err api cq" | "\<not> is_err api pd" "\<not> is_err api cq" by blast
  then show ?thesis
  proof cases
    case 1
    have "w\<lparr>w_cbs := (w_cbs w)(cbp \<mapsto> cb\<lparr>cb_pd := pd\<rparr>)\<rparr> =
        w\<lparr>w_cbs := (w_cbs w)(cbp \<mapsto> cb\<lparr>cb_pd := pd, cb_cq := cb_cq cb\<rparr>), w_trace := w_trace w\<rparr>" by simp
    then show ?thesis using early(1)[OF 1] es 1 unfolding err_ptr_sound_def by metis
  next
    case 2
    have "w\<lparr>w_cbs := (w_cbs w)(cbp \<mapsto> cb\<lparr>cb_pd := pd, cb_cq := cq\<rparr>)\<rparr> =
        w\<lparr>w_cbs := (w_cbs w)(cbp \<mapsto> cb\<lparr>cb_pd := pd, cb_cq := cq\<rparr>), w_trace := w_trace w\<rparr>" by simp
    then show ?thesis using early(2)[OF 2] es 2 unfolding err_ptr_sound_def by metis
  next
    case 3
    have new: "pd \<noteq> 0" "w_pds w pd = None" "cq \<noteq> 0" "w_cqs w cq = None"
      using verbs_pd[OF vs pd 3(1)] verbs_cq[OF vs cq 3(2)] by (simp_all add: w1)
    have q: "q \<noteq> 0 \<and> w_qps w q = None" if "r = 0"
      using verbs_qp[OF vs qp[unfolded that]] by (simp add: qp_base_def)
    have "setup_qp api cbp cid w =
       (if r = 0 then Inr (0, qp_done cid cbp idr cb pd pdv cq q w)
        else Inr (r, w\<lparr>w_cbs := (w_cbs w)(cbp \<mapsto> cb\<lparr>cb_pd := pd, cb_cq := cq\<rparr>),
               w_trace := EvNotify cq # w_trace w\<rparr>))"
      using setup_qp_to_notify[OF ok vs pd 3(1) w1 cq 3(2) refl]
        setup_qp_from_notify[OF ok id client new(1,2,4) qp] by (simp add: notify)
    then show ?thesis using new q by (cases "r = 0") (simp, blast, fastforce)
  qed
qed

section \<open>Sizes\<close>

lemma sint_msgbuf_size:
  assumes "0 \<le> sint n" and "sint n < 2 ^ 31 - 24"
  shows "sint (msgbuf_size n) = sint n + 24"
proof -
  have "sint (24 :: c_int) = 24" by simp
  moreover have "sint (msgbuf_size n) = signed_take_bit 31 (sint n + sint (24 :: c_int))"
    by (simp add: msgbuf_size_def msgheader_size_def HEADER_BYTES_def sint_word_ariths)
  ultimately show ?thesis using assms by (simp add: signed_take_bit_int_eq_self)
qed

lemma msgbuf_size_bytes:
  assumes "0 \<le> sint n" and "sint n < 2 ^ 31 - 24"
  shows "unat (size_of_int (msgbuf_size n)) = HEADER_BYTES + unat (size_of_int n)"
proof -
  have "0 \<le> sint (msgbuf_size n)" using assms sint_msgbuf_size[OF assms] by simp
  then show ?thesis
    using assms by (simp add: unat_size_of_int sint_msgbuf_size HEADER_BYTES_def nat_add_distrib)
qed

lemma valid_msg_size_iff:
  assumes "0 \<le> sint n" and "sint n < 2 ^ 31 - 24"
    and "cb_msgheader_size cb = msgheader_size" and "cb_msgbuf_size cb = msgbuf_size n"
  shows "valid_msg_size cb data \<longleftrightarrow> 0 < sint n"
proof -
  have "size_of_int msgheader_size + 1 = (25 :: u64)"
    by (simp add: size_of_int_def msgheader_size_def HEADER_BYTES_def)
  then have "valid_msg_size cb data \<longleftrightarrow> 25 \<le> unat (size_of_int (msgbuf_size n))"
    using assms(3,4) by (simp add: valid_msg_size_def word_le_nat_alt)
  also have "\<dots> \<longleftrightarrow> 0 < unat (size_of_int n)"
    unfolding msgbuf_size_bytes[OF assms(1,2)] by (auto simp: HEADER_BYTES_def)
  finally show ?thesis unfolding unat_size_of_int[OF assms(1)] by simp
qed

section \<open>Properties\<close>

text \<open>
  The size of a message buffer and of its data are inverse to each other at every \<open>int\<close>,
  wrap-around included; the header has 24 bytes; for data sizes up to \<open>2^31 - 25\<close> the buffer size
  does not overflow; and for a control block with these sizes the size check accepts any message
  whatever its length as soon as there is one byte of data.
\<close>

theorem message_sizes:
  "msgdata_size (msgbuf_size n) = n \<and> msgbuf_size (msgdata_size n) = n
   \<and> (0 \<le> sint n \<and> sint n < 2 ^ 31 - 24 \<longrightarrow>
        sint (msgbuf_size n) = sint n + 24
        \<and> unat (size_of_int (msgbuf_size n)) = HEADER_BYTES + unat (size_of_int n)
        \<and> (\<forall>cb data. cb_msgheader_size cb = msgheader_size \<longrightarrow> cb_msgbuf_size cb = msgbuf_size n \<longrightarrow>
             (valid_msg_size cb data \<longleftrightarrow> 0 < sint n)))"
proof -
  have inv: "msgdata_size (msgbuf_size n) = n \<and> msgbuf_size (msgdata_size n) = n"
    by (simp add: msgdata_size_def msgbuf_size_def)
  moreover have "sint (msgbuf_size n) = sint n + 24" if "0 \<le> sint n" "sint n < 2 ^ 31 - 24"
    using that by (rule sint_msgbuf_size)
  ultimately show ?thesis using msgbuf_size_bytes valid_msg_size_iff by blast
qed

theorem message_sizes_witness:
  "sint (msgbuf_size 4096) = 4120
   \<and> valid_msg_size (zero_cb\<lparr>cb_msgheader_size := msgheader_size, cb_msgbuf_size := msgbuf_size 4096\<rparr>) 0"
  using message_sizes[of 4096] by simp



text \<open>
  When requesting completion notification fails, \<open>setup_qp\<close> reports success: it destroys the
  completion queue and the protection domain, then returns the value of the never assigned \<open>errno\<close>,
  0, and leaves the control block pointing at the destroyed objects, so that creating buffers or
  releasing the queue pair afterwards faults.
\<close>

theorem setup_qp_hides_notify_failure:
  assumes ok: "conn_ok cid cbp idr cb w" and vs: "verbs_sound api"
    and pd: "ib_alloc_pd_ret api w (cm_id_device api w cid) = (p, pdv)" "\<not> is_err api p"
    and w1: "w1 = w\<lparr>w_pds := (w_pds w)(p \<mapsto> pdv), w_cbs := (w_cbs w)(cbp \<mapsto> cb\<lparr>cb_pd := p\<rparr>)\<rparr>"
    and cq: "ib_create_cq_ret api w1 (cm_id_device api w1 cid) = c" "\<not> is_err api c"
    and notify: "\<And>w q. ib_req_notify_cq_ret api w q \<noteq> 0"
  shows "\<exists>w' cb'. setup_qp api cbp cid w = Inr (0, w') \<and> w_cbs w' cbp = Some cb'
     \<and> w_pds w' = w_pds w \<and> w_cqs w' = w_cqs w
     \<and> load w_pds (cb_pd cb') w' = Inl BadAccess \<and> ib_destroy_cq (cb_cq cb') w' = Inl BadFree"
proof -
  have new: "p \<noteq> 0" "w_pds w p = None" "w_cqs w c = None" "cbp \<noteq> 0"
    using verbs_pd[OF vs pd] verbs_cq[OF vs cq] ok by (simp_all add: w1 conn_ok_def)
  from setup_qp_to_notify[OF ok vs pd w1 cq refl] setup_qp_err3_run[OF new(4,2,3)]
  have "setup_qp api cbp cid w = Inr (0,
     w\<lparr>w_cbs := (w_cbs w)(cbp \<mapsto> cb\<lparr>cb_pd := p, cb_cq := c\<rparr>), w_trace := EvNotify c # w_trace w\<rparr>)"
    by (simp add: notify errno_def)
  then show ?thesis using new by (simp add: load_def ib_destroy_cq_def release_def)
qed

theorem setup_qp_hides_notify_failure_witness:
  "\<exists>w'. setup_qp (sample_api\<lparr>ib_req_notify_cq_ret := \<lambda>w q. - 5\<rparr>) 64 0x6000 (sample_conn ROUTE_RESOLVED [])
       = Inr (0, w') \<and> w_pds w' = Map.empty"
proof -
  let ?api = "sample_api\<lparr>ib_req_notify_cq_ret := \<lambda>w q. - 5\<rparr>"
  have vs: "verbs_sound ?api" using sample_verbs_sound by (simp add: verbs_sound_def)
  show ?thesis
    using setup_qp_hides_notify_failure[OF sample_conn_ok[of ROUTE_RESOLVED "[]"] vs, where c = "0x4000"
        and p = "0x3000" and pdv = "\<lparr>pd_device = 0x2000, local_dma_lkey = 7\<rparr>", OF _ _ refl]
    by (fastforce simp: sample_api_def sample_conn_def empty_world_def live_def)
qed

end
