(* ===== verification/Rdma_Buffers.thy ===== *)
theory Rdma_Buffers
  imports Rdma_Setup
begin

text \<open>
  The message buffers of a channel (\<^verbatim>\<open>rdma.c\<close>): their allocation, DMA mappings and work requests, the
  release of the buffers and of the control block, and the copy of a control block for a new
  connection of a listening server.
\<close>

section \<open>Work requests and message buffers\<close>

definition wr_of :: "rdma_ch_cb \<Rightarrow> ib_pd \<Rightarrow> nat \<Rightarrow> msgbuf_ctx \<Rightarrow> msgbuf_ctx" where
  "wr_of cb pd i c = c\<lparr>
     recv_sgl := \<lparr>sge_addr = recv_mr c, sge_length = cb_msgbuf_size cb, sge_lkey = local_dma_lkey pd\<rparr>,
     rq_wr := \<lparr>rwr_wr_id = of_nat i, rwr_sg_list = RecvSgl (cb_buf_ctxs cb) i, rwr_num_sge = 1\<rparr>,
     send_sgl := \<lparr>sge_addr = send_mr c, sge_length = cb_msgbuf_size cb, sge_lkey = local_dma_lkey pd\<rparr>,
     sq_wr := \<lparr>swr_wr_id = of_nat i, swr_opcode = IB_WR_SEND, swr_send_flags = IB_SEND_SIGNALED,
       swr_sg_list = SendSgl (cb_buf_ctxs cb) i, swr_num_sge = 1\<rparr>\<rparr>"

definition wr_at :: "rdma_ch_cb \<Rightarrow> nat \<Rightarrow> (world, unit) kern" where
  "wr_at cb i = bindK (load w_pds (cb_pd cb)) (\<lambda>pd. upd_ctx (cb_buf_ctxs cb) i (wr_of cb pd i))"

definition setup_wr :: "addr \<Rightarrow> (world, unit) kern" where
  "setup_wr cbp =
     bindK (get_cb cbp) (\<lambda>cb. forK (wr_at cb) [0..<iters (cb_msgbuf_cnt cb)])"

definition alloc_body :: "kapi \<Rightarrow> addr \<Rightarrow> u64 \<Rightarrow> nat \<Rightarrow> (world, unit) kern" where
  "alloc_body api cxs n i =
     thenK (get_ctx cxs i)
     (bindK (kzalloc_msg api n) (\<lambda>p.
      thenK (upd_ctx cxs i (\<lambda>c. c\<lparr>recv_buf := p\<rparr>))
      (bindK (kzalloc_msg api n) (\<lambda>q.
       upd_ctx cxs i (\<lambda>c. c\<lparr>send_buf := q\<rparr>)))))"

definition alloc_msg_buffers :: "kapi \<Rightarrow> addr \<Rightarrow> (world, c_int) kern" where
  "alloc_msg_buffers api cbp =
     bindK (get_cb cbp) (\<lambda>cb.
     thenK (forK (alloc_body api (cb_buf_ctxs cb) (size_of_int (cb_msgbuf_size cb)))
              [0..<iters (cb_msgbuf_cnt cb)])
     (returnK 0))"

text \<open>
  One iteration of the mapping loop: \<open>Some ret\<close> is the \<open>goto err1\<close>. The DMA address is stored in the
  field for the memory region and, by \<open>dma_unmap_addr_set\<close>, in the mapping field.
\<close>

definition map_buffers_at :: "kapi \<Rightarrow> rdma_ch_cb \<Rightarrow> nat \<Rightarrow> (world, c_int option) kern" where
  "map_buffers_at api cb i =
     bindK (get_ctx (cb_buf_ctxs cb) i) (\<lambda>c.
     bindK (load w_pds (cb_pd cb)) (\<lambda>pd.
     bindK (ib_dma_map_single api (pd_device pd) (recv_buf c) (size_of_int (cb_msgbuf_size cb))) (\<lambda>d.
     thenK (upd_ctx (cb_buf_ctxs cb) i (\<lambda>c. c\<lparr>recv_mr := d, recv_mapping := d\<rparr>))
     (if d = 0 then returnK (Some errno)
      else
        bindK (ib_dma_map_single api (pd_device pd) (send_buf c) (size_of_int (cb_msgbuf_size cb))) (\<lambda>e.
        thenK (upd_ctx (cb_buf_ctxs cb) i (\<lambda>c. c\<lparr>send_mr := e, send_mapping := e\<rparr>))
        (if e = 0 then returnK (Some errno) else returnK None))))))"

definition free_bufs_at :: "rdma_ch_cb \<Rightarrow> nat \<Rightarrow> (world, unit) kern" where
  "free_bufs_at cb i =
     bindK (get_ctx (cb_buf_ctxs cb) i) (\<lambda>c.
     thenK (whenK (recv_buf c \<noteq> NULL) (kfree_msg (recv_buf c)))
     (whenK (send_buf c \<noteq> NULL) (kfree_msg (send_buf c))))"

definition setup_buffers_err2 :: "rdma_ch_cb \<Rightarrow> c_int \<Rightarrow> (world, c_int) kern" where
  "setup_buffers_err2 cb ret =
     thenK (forK (free_bufs_at cb) [0..<iters (cb_msgbuf_cnt cb)]) (returnK ret)"

definition dereg_at :: "rdma_ch_cb \<Rightarrow> nat \<Rightarrow> (world, unit) kern" where
  "dereg_at cb i =
     bindK (get_ctx (cb_buf_ctxs cb) i) (\<lambda>c.
     thenK (whenK (recv_mr c \<noteq> 0) (ib_dereg_mr (recv_mr c)))
     (whenK (send_mr c \<noteq> 0) (ib_dereg_mr (send_mr c))))"

definition setup_buffers_err1 :: "rdma_ch_cb \<Rightarrow> c_int \<Rightarrow> (world, c_int) kern" where
  "setup_buffers_err1 cb ret =
     thenK (forK (dereg_at cb) [0..<iters (cb_msgbuf_cnt cb)]) (setup_buffers_err2 cb ret)"

definition setup_buffers :: "kapi \<Rightarrow> addr \<Rightarrow> (world, c_int) kern" where
  "setup_buffers api cbp =
     bindK (alloc_msg_buffers api cbp) (\<lambda>ret.
     bindK (get_cb cbp) (\<lambda>cb.
     if ret \<noteq> 0 then setup_buffers_err2 cb ret
     else
       bindK (loopK (map_buffers_at api cb) [0..<iters (cb_msgbuf_cnt cb)]) (\<lambda>r.
       case r of
         Some ret \<Rightarrow> setup_buffers_err1 cb ret
       | None \<Rightarrow> thenK (setup_wr cbp) (returnK 0))))"

section \<open>Release\<close>

definition kfree_bufs_at :: "rdma_ch_cb \<Rightarrow> nat \<Rightarrow> (world, unit) kern" where
  "kfree_bufs_at cb i =
     bindK (get_ctx (cb_buf_ctxs cb) i) (\<lambda>c.
     thenK (load w_pds (cb_pd cb))
     (thenK (dma_unmap_single (recv_mapping c))
     (thenK (kfree_msg (recv_buf c))
     (thenK (dma_unmap_single (send_mapping c))
     (kfree_msg (send_buf c))))))"

definition kfree_buffers :: "addr \<Rightarrow> (world, unit) kern" where
  "kfree_buffers cbp =
     bindK (get_cb cbp) (\<lambda>cb. forK (kfree_bufs_at cb) [0..<iters (cb_msgbuf_cnt cb)])"

definition kfree_cb :: "addr \<Rightarrow> (world, unit) kern" where
  "kfree_cb cbp =
     bindK (get_cb cbp) (\<lambda>cb.
     thenK (free_at w_ctxs w_ctxs_update (cb_buf_ctxs cb))
     (free_at w_cbs w_cbs_update cbp))"

section \<open>Cloning a control block\<close>

definition copy_ctx_at :: "addr \<Rightarrow> addr \<Rightarrow> nat \<Rightarrow> (world, unit) kern" where
  "copy_ctx_at src dst i = bindK (get_ctx src i) (\<lambda>c. upd_ctx dst i (\<lambda>_. c))"

definition clone_cb :: "kapi \<Rightarrow> addr \<Rightarrow> (world, addr) kern" where
  "clone_cb api listening_cb =
     bindK (kzalloc_obj api w_cbs w_cbs_update (sizeof_rdma_ch_cb api) zero_cb) (\<lambda>cbp.
     if cbp = NULL then returnK NULL
     else
       bindK (get_cb listening_cb) (\<lambda>lcb.
       thenK (upd_cb cbp (\<lambda>_. lcb))
       (thenK (modify_at w_cmids w_cmids_update (cb_child_cm_id lcb) (\<lambda>i. i\<lparr>id_context := cbp\<rparr>))
       (bindK (kzalloc_obj api w_ctxs w_ctxs_update
            (size_of_int (cb_msgbuf_cnt lcb) * sizeof_msgbuf_ctx api)
            (replicate (iters (cb_msgbuf_cnt lcb)) zero_ctx)) (\<lambda>cxs.
        thenK (upd_cb cbp (\<lambda>c. c\<lparr>cb_buf_ctxs := cxs\<rparr>))
        (if cxs = NULL then thenK (free_at w_cbs w_cbs_update cbp) (returnK NULL)
         else
           thenK (forK (copy_ctx_at (cb_buf_ctxs lcb) cxs) [0..<iters (cb_msgbuf_cnt lcb)])
           (returnK cbp)))))))"

section \<open>Adding and removing many objects\<close>

text \<open>A heap after the objects of a list were created in turn (NULL keys are failed allocations).\<close>

primrec put_all :: "(addr \<times> 'v) list \<Rightarrow> (addr \<Rightarrow> 'v option) \<Rightarrow> addr \<Rightarrow> 'v option" where
  "put_all [] h = h"
| "put_all (kv # kvs) h = put_all kvs (put_new (fst kv) (snd kv) h)"

definition del_all :: "addr list \<Rightarrow> (addr \<Rightarrow> 'v option) \<Rightarrow> addr \<Rightarrow> 'v option" where
  "del_all ks h = (\<lambda>q. if q \<noteq> NULL \<and> q \<in> set ks then None else h q)"

definition fresh_keys :: "addr list \<Rightarrow> (addr \<Rightarrow> 'v option) \<Rightarrow> bool" where
  "fresh_keys ks h \<longleftrightarrow>
     distinct (filter (\<lambda>k. k \<noteq> NULL) ks) \<and> (\<forall>k\<in>set ks. k \<noteq> NULL \<longrightarrow> h k = None)"

lemma put_all_append [simp]: "put_all (kvs @ kvs') h = put_all kvs' (put_all kvs h)"
  by (induction kvs arbitrary: h) simp_all

lemma put_all_other: "k \<notin> fst ` set kvs \<Longrightarrow> put_all kvs h k = h k"
  by (induction kvs arbitrary: h) (auto simp: put_new_def)

lemma put_all_None: "put_all kvs h k = None \<Longrightarrow> k \<noteq> 0 \<Longrightarrow> k \<notin> fst ` set kvs \<and> h k = None"
  by (induction kvs rule: rev_induct) (auto simp: put_new_def split: if_splits)

lemma put_all_in:
  "distinct (filter (\<lambda>k. k \<noteq> 0) (map fst kvs)) \<Longrightarrow> (k, v) \<in> set kvs \<Longrightarrow> k \<noteq> 0 \<Longrightarrow> put_all kvs h k = Some v"
proof (induction kvs rule: rev_induct)
  case (snoc kv kvs)
  show ?case
  proof (cases "fst kv = k")
    case True
    then have "k \<notin> fst ` set kvs" using snoc.prems by auto
    then have "(k, v) \<notin> set kvs" by force
    then show ?thesis using snoc.prems by (auto simp: put_new_def)
  next
    case False
    then show ?thesis using snoc by (auto simp: put_new_def split: if_splits)
  qed
qed simp

lemma fresh_keys_snoc:
  "fresh_keys (map fst kvs) h \<Longrightarrow> (k \<noteq> 0 \<Longrightarrow> put_all kvs h k = None) \<Longrightarrow> fresh_keys (map fst kvs @ [k]) h"
  using put_all_None[of kvs h k] by (auto simp: fresh_keys_def)

lemma del_put_all:
  assumes "fresh_keys (map fst kvs) h"
  shows "del_all (map fst kvs) (put_all kvs h) = h"
proof (rule ext)
  fix q
  show "del_all (map fst kvs) (put_all kvs h) q = h q"
  proof (cases "q \<noteq> 0 \<and> q \<in> fst ` set kvs")
    case True
    then show ?thesis using assms by (auto simp: del_all_def fresh_keys_def)
  next
    case False
    have "put_all kvs h 0 = h 0"
      by (induction kvs rule: rev_induct) (simp_all add: put_new_def)
    then show ?thesis using False put_all_other[of q kvs h] by (auto simp: del_all_def)
  qed
qed

lemma del_all_simps [simp]:
  "del_all [] h = h" "k \<noteq> 0 \<Longrightarrow> (del_all ks h)(k := None) = del_all (ks @ [k]) h"
  by (auto simp: del_all_def)

lemma del_all_other: "q \<notin> set ks \<Longrightarrow> del_all ks h q = h q"
  by (simp add: del_all_def)

section \<open>States that differ in the message buffers\<close>

definition buf_state ::
    "world \<Rightarrow> event list \<Rightarrow> (addr \<Rightarrow> rdma_msg option) \<Rightarrow> (addr \<Rightarrow> (addr \<times> u64) option)
     \<Rightarrow> (addr \<Rightarrow> msgbuf_ctx list option) \<Rightarrow> world" where
  "buf_state w t M D C = w\<lparr>w_trace := t, w_msgs := M, w_dmas := D, w_ctxs := C\<rparr>"

lemma buf_state_id: "w = buf_state w (w_trace w) (w_msgs w) (w_dmas w) (w_ctxs w)"
  by (simp add: buf_state_def)

lemma buf_state_upd [simp]:
  "buf_state w t M D C\<lparr>w_trace := t'\<rparr> = buf_state w t' M D C"
  "buf_state w t M D C\<lparr>w_msgs := M'\<rparr> = buf_state w t M' D C"
  "buf_state w t M D C\<lparr>w_dmas := D'\<rparr> = buf_state w t M D' C"
  "buf_state w t M D C\<lparr>w_ctxs := C'\<rparr> = buf_state w t M D C'"
  by (cases w; simp add: buf_state_def)+

lemma buf_state_sel [simp]:
  "w_trace (buf_state w t M D C) = t" "w_msgs (buf_state w t M D C) = M"
  "w_dmas (buf_state w t M D C) = D" "w_ctxs (buf_state w t M D C) = C"
  "w_cbs (buf_state w t M D C) = w_cbs w" "w_pds (buf_state w t M D C) = w_pds w"
  "w_cqs (buf_state w t M D C) = w_cqs w" "w_qps (buf_state w t M D C) = w_qps w"
  "w_cmids (buf_state w t M D C) = w_cmids w" "w_mrs (buf_state w t M D C) = w_mrs w"
  "w_bytes (buf_state w t M D C) = w_bytes w" "w_rpcs (buf_state w t M D C) = w_rpcs w"
  "w_pending (buf_state w t M D C) = w_pending w" "w_rmsgs (buf_state w t M D C) = w_rmsgs w"
  "w_mhs (buf_state w t M D C) = w_mhs w" "w_rhs (buf_state w t M D C) = w_rhs w"
  "w_waitqs (buf_state w t M D C) = w_waitqs w"
  by (simp_all add: buf_state_def)

lemma buf_state_buf_state [simp]:
  "buf_state (buf_state w t M D C) t' M' D' C' = buf_state w t' M' D' C'"
  by (cases w) (simp add: buf_state_def)

text \<open>The buffers of a list of contexts, their mappings, and what the heaps hold for them.\<close>

definition bufs :: "msgbuf_ctx list \<Rightarrow> addr list" where
  "bufs cs = concat (map (\<lambda>c. [recv_buf c, send_buf c]) cs)"

definition buf_objs :: "rdma_msg \<Rightarrow> msgbuf_ctx list \<Rightarrow> (addr \<times> rdma_msg) list" where
  "buf_objs z cs = map (\<lambda>p. (p, z)) (bufs cs)"

definition dma_objs :: "u64 \<Rightarrow> msgbuf_ctx list \<Rightarrow> (addr \<times> addr \<times> u64) list" where
  "dma_objs n cs =
     concat (map (\<lambda>c. [(recv_mapping c, recv_buf c, n), (send_mapping c, send_buf c, n)]) cs)"

definition maps :: "msgbuf_ctx list \<Rightarrow> addr list" where
  "maps cs = concat (map (\<lambda>c. [recv_mapping c, send_mapping c]) cs)"

lemma buf_keys [simp]: "map fst (buf_objs z cs) = bufs cs" "map fst (dma_objs n cs) = maps cs"
  by (simp_all add: buf_objs_def dma_objs_def maps_def map_concat comp_def)

lemma take_Suc_update: "i < length cs \<Longrightarrow> take (Suc i) (cs[i := c]) = take i cs @ [c]"
  by (simp add: take_Suc_conv_app_nth)

lemma buf_objs_Suc [simp]:
  "i < length cs \<Longrightarrow> buf_objs z (take (Suc i) (cs[i := c])) =
     buf_objs z (take i cs) @ [(recv_buf c, z), (send_buf c, z)]"
  "i < length cs \<Longrightarrow> dma_objs n (take (Suc i) (cs[i := c])) =
     dma_objs n (take i cs) @ [(recv_mapping c, recv_buf c, n), (send_mapping c, send_buf c, n)]"
  by (simp_all add: take_Suc_update buf_objs_def bufs_def dma_objs_def)

section \<open>Allocation\<close>

definition data_len :: "rdma_ch_cb \<Rightarrow> nat" where
  "data_len cb = unat (size_of_int (cb_msgdata_size cb))"

abbreviation (input) buf_len :: "rdma_ch_cb \<Rightarrow> u64" where
  "buf_len cb \<equiv> size_of_int (cb_msgbuf_size cb)"

text \<open>
  A control block whose buffers can be set up: the array of contexts and the protection domain are
  live, and the sizes are the ones \<open>init_rdma_ch\<close> computes from a data size that fits.
\<close>

definition buf_pre :: "addr \<Rightarrow> rdma_ch_cb \<Rightarrow> msgbuf_ctx list \<Rightarrow> ib_pd \<Rightarrow> world \<Rightarrow> bool" where
  "buf_pre cbp cb cs pdv w \<longleftrightarrow>
     cbp \<noteq> NULL \<and> w_cbs w cbp = Some cb
     \<and> cb_buf_ctxs cb \<noteq> NULL \<and> w_ctxs w (cb_buf_ctxs cb) = Some cs \<and> length cs = iters (cb_msgbuf_cnt cb)
     \<and> cb_pd cb \<noteq> NULL \<and> w_pds w (cb_pd cb) = Some pdv
     \<and> cb_msgbuf_size cb = msgbuf_size (cb_msgdata_size cb)
     \<and> 0 \<le> sint (cb_msgdata_size cb) \<and> sint (cb_msgdata_size cb) < 2 ^ 31 - 24"

lemma buf_preD:
  assumes "buf_pre cbp cb cs pdv w"
  shows "cbp \<noteq> 0" "w_cbs w cbp = Some cb" "cb_buf_ctxs cb \<noteq> 0" "w_ctxs w (cb_buf_ctxs cb) = Some cs"
    "iters (cb_msgbuf_cnt cb) = length cs" "cb_pd cb \<noteq> 0" "w_pds w (cb_pd cb) = Some pdv"
    "unat (buf_len cb) = HEADER_BYTES + data_len cb"
  using assms by (auto simp: buf_pre_def data_len_def msgbuf_size_bytes)

text \<open>Set-up changes neither the id nor the sequence number of a context.\<close>

definition ctxs_kept :: "msgbuf_ctx list \<Rightarrow> msgbuf_ctx list \<Rightarrow> bool" where
  "ctxs_kept cs cs' \<longleftrightarrow> map ctx_id cs' = map ctx_id cs \<and> map ctx_seqn cs' = map ctx_seqn cs"

lemma ctxs_kept_length: "ctxs_kept cs cs' \<Longrightarrow> length cs' = length cs"
  unfolding ctxs_kept_def by (metis length_map)

lemma ctxs_kept_refl: "ctxs_kept cs cs"
  by (simp add: ctxs_kept_def)

lemma map_update_same: "f c = f (cs ! i) \<Longrightarrow> map f (cs[i := c]) = map f cs"
  by (metis linorder_not_less list_update_beyond list_update_id map_update nth_map)

lemma ctxs_kept_update:
  "ctxs_kept cs cs' \<Longrightarrow> ctx_id c = ctx_id (cs' ! i) \<Longrightarrow> ctx_seqn c = ctx_seqn (cs' ! i) \<Longrightarrow>
   ctxs_kept cs (cs'[i := c])"
  by (simp add: ctxs_kept_def map_update_same)

definition mrs_kept :: "msgbuf_ctx list \<Rightarrow> msgbuf_ctx list \<Rightarrow> bool" where
  "mrs_kept cs cs' \<longleftrightarrow> map recv_mr cs' = map recv_mr cs \<and> map send_mr cs' = map send_mr cs"

lemma mrs_kept_update:
  "mrs_kept cs cs' \<Longrightarrow> recv_mr c = recv_mr (cs' ! i) \<Longrightarrow> send_mr c = send_mr (cs' ! i) \<Longrightarrow>
   mrs_kept cs (cs'[i := c])"
  by (simp add: mrs_kept_def map_update_same)

definition alloc_inv :: "addr \<Rightarrow> rdma_msg \<Rightarrow> msgbuf_ctx list \<Rightarrow> world \<Rightarrow> nat \<Rightarrow> world \<Rightarrow> bool" where
  "alloc_inv p z cs w i s \<longleftrightarrow> (\<exists>cs' t. ctxs_kept cs cs' \<and> mrs_kept cs cs'
     \<and> fresh_keys (bufs (take i cs')) (w_msgs w)
     \<and> s = buf_state w t (put_all (buf_objs z (take i cs')) (w_msgs w)) (w_dmas w) ((w_ctxs w)(p \<mapsto> cs')))"

lemma alloc_inv_start: "w_ctxs w p = Some cs \<Longrightarrow> alloc_inv p z cs w 0 w"
  unfolding alloc_inv_def
  by (rule exI[of _ cs], rule exI[of _ "w_trace w"])
    (simp add: ctxs_kept_refl mrs_kept_def fresh_keys_def bufs_def buf_objs_def fun_upd_idem buf_state_id[symmetric])

lemma alloc_body_runs:
  assumes as: "alloc_sound api" and p: "p \<noteq> 0" and n: "unat n = HEADER_BYTES + k" and i: "i < length cs"
  shows "runs (alloc_inv p (zero_msg k) cs w i) (alloc_body api p n i) (\<lambda>_. alloc_inv p (zero_msg k) cs w (Suc i))"
proof (rule runsI)
  fix s
  let ?z = "zero_msg k"
  assume "alloc_inv p ?z cs w i s"
  then obtain cs' t where kept: "ctxs_kept cs cs'" and mrs: "mrs_kept cs cs'"
    and fresh: "fresh_keys (bufs (take i cs')) (w_msgs w)"
    and s: "s = buf_state w t (put_all (buf_objs ?z (take i cs')) (w_msgs w)) (w_dmas w) ((w_ctxs w)(p \<mapsto> cs'))"
    unfolding alloc_inv_def by blast
  have i': "i < length cs'" using i ctxs_kept_length[OF kept] by simp
  define a where "a = kzalloc_ret api s n"
  define s1 where "s1 = buf_state w (EvAlloc a n # t) (put_all (buf_objs ?z (take i cs') @ [(a, ?z)]) (w_msgs w))
      (w_dmas w) ((w_ctxs w)(p \<mapsto> cs'[i := (cs' ! i)\<lparr>recv_buf := a\<rparr>]))"
  define b where "b = kzalloc_ret api s1 n"
  let ?c = "(cs' ! i)\<lparr>recv_buf := a, send_buf := b\<rparr>"
  have run: "alloc_body api p n i s = Inr ((), buf_state w (EvAlloc b n # EvAlloc a n # t)
      (put_all (buf_objs ?z (take (Suc i) (cs'[i := ?c]))) (w_msgs w)) (w_dmas w)
      ((w_ctxs w)(p \<mapsto> cs'[i := ?c])))"
    using p n i' unfolding alloc_body_def
    by (simp add: run_simps s a_def[unfolded s] b_def s1_def)
  have 1: "a \<noteq> 0 \<Longrightarrow> put_all (buf_objs ?z (take i cs')) (w_msgs w) a = None"
    using alloc_fresh(3)[OF as a_def[symmetric]] by (simp add: s)
  have 2: "b \<noteq> 0 \<Longrightarrow> put_all (buf_objs ?z (take i cs') @ [(a, ?z)]) (w_msgs w) b = None"
    using alloc_fresh(3)[OF as b_def[symmetric]] by (simp add: s1_def)
  have "fresh_keys (map fst (buf_objs ?z (take i cs') @ [(a, ?z)])) (w_msgs w)"
    using fresh_keys_snoc[of "buf_objs ?z (take i cs')" "w_msgs w" a] fresh 1 by simp
  from fresh_keys_snoc[OF this 2]
  have "fresh_keys (bufs (take (Suc i) (cs'[i := ?c]))) (w_msgs w)"
    using i' by (simp add: bufs_def take_Suc_update)
  moreover have "ctxs_kept cs (cs'[i := ?c])" using kept by (rule ctxs_kept_update) simp_all
  moreover have "mrs_kept cs (cs'[i := ?c])" using mrs by (rule mrs_kept_update) simp_all
  ultimately show "\<exists>u s'. alloc_body api p n i s = Inr (u, s') \<and> alloc_inv p ?z cs w (Suc i) s'"
    unfolding run alloc_inv_def by blast
qed

lemma alloc_msg_buffers_runs:
  assumes "alloc_sound api" and pre: "buf_pre cbp cb cs pdv w"
  shows "\<exists>s. alloc_msg_buffers api cbp w = Inr (0, s)
     \<and> alloc_inv (cb_buf_ctxs cb) (zero_msg (data_len cb)) cs w (length cs) s"
proof -
  note D = buf_preD[OF pre]
  have "runs (alloc_inv (cb_buf_ctxs cb) (zero_msg (data_len cb)) cs w 0)
      (forK (alloc_body api (cb_buf_ctxs cb) (buf_len cb)) [0..<length cs])
      (\<lambda>_. alloc_inv (cb_buf_ctxs cb) (zero_msg (data_len cb)) cs w (length cs))"
    by (rule runs_forK) (rule alloc_body_runs[OF assms(1) D(3,8)])
  from runsD[OF this alloc_inv_start[OF D(4)]] obtain s where
    "forK (alloc_body api (cb_buf_ctxs cb) (buf_len cb)) [0..<length cs] w = Inr ((), s)"
    "alloc_inv (cb_buf_ctxs cb) (zero_msg (data_len cb)) cs w (length cs) s" by auto
  then show ?thesis
    using D by (simp add: alloc_msg_buffers_def bindK_load thenK_Inr)
qed

section \<open>Mapping\<close>

lemma bufs_update:
  "recv_buf c = recv_buf (cs ! i) \<Longrightarrow> send_buf c = send_buf (cs ! i) \<Longrightarrow> bufs (cs[i := c]) = bufs cs"
  unfolding bufs_def by (subst map_update_same) simp_all

lemma buf_objs_update:
  "recv_buf c = recv_buf (cs ! i) \<Longrightarrow> send_buf c = send_buf (cs ! i) \<Longrightarrow> buf_objs z (cs[i := c]) = buf_objs z cs"
  by (simp add: buf_objs_def bufs_update)

text \<open>The contexts whose DMA addresses are recorded twice, as the code does.\<close>

definition mr_mapped :: "msgbuf_ctx list \<Rightarrow> bool" where
  "mr_mapped cs \<longleftrightarrow> (\<forall>c\<in>set cs. recv_mr c = recv_mapping c \<and> send_mr c = send_mapping c
     \<and> recv_mapping c \<noteq> 0 \<and> send_mapping c \<noteq> 0)"

definition map_inv :: "addr \<Rightarrow> rdma_msg \<Rightarrow> u64 \<Rightarrow> msgbuf_ctx list \<Rightarrow> world \<Rightarrow> nat \<Rightarrow> world \<Rightarrow> bool" where
  "map_inv p z n cs w i s \<longleftrightarrow> (\<exists>cs' t. ctxs_kept cs cs'
     \<and> fresh_keys (bufs cs') (w_msgs w)
     \<and> fresh_keys (maps (take i cs')) (w_dmas w) \<and> mr_mapped (take i cs')
     \<and> s = buf_state w t (put_all (buf_objs z cs') (w_msgs w))
         (put_all (dma_objs n (take i cs')) (w_dmas w)) ((w_ctxs w)(p \<mapsto> cs')))"

text \<open>After a failed mapping: the buffers are all there, some context has no mapping.\<close>

definition map_failed :: "addr \<Rightarrow> rdma_msg \<Rightarrow> msgbuf_ctx list \<Rightarrow> world \<Rightarrow> c_int \<Rightarrow> world \<Rightarrow> bool" where
  "map_failed p z cs w r s \<longleftrightarrow> r = errno \<and> (\<exists>cs' t D. ctxs_kept cs cs'
     \<and> fresh_keys (bufs cs') (w_msgs w) \<and> (\<exists>c\<in>set cs'. recv_mr c = 0 \<or> send_mr c = 0)
     \<and> s = buf_state w t (put_all (buf_objs z cs') (w_msgs w)) D ((w_ctxs w)(p \<mapsto> cs')))"

lemma map_inv_start:
  assumes "alloc_inv p z cs w (length cs) s"
  shows "map_inv p z n cs w 0 s"
proof -
  from assms obtain cs' t where kept: "ctxs_kept cs cs'"
    and rest: "fresh_keys (bufs (take (length cs) cs')) (w_msgs w)"
      "s = buf_state w t (put_all (buf_objs z (take (length cs) cs')) (w_msgs w)) (w_dmas w) ((w_ctxs w)(p \<mapsto> cs'))"
    unfolding alloc_inv_def by blast
  have "take (length cs) cs' = cs'" using ctxs_kept_length[OF kept] by simp
  with kept rest show ?thesis unfolding map_inv_def
    by (intro exI[of _ cs'] exI[of _ t]) (simp add: fresh_keys_def maps_def mr_mapped_def dma_objs_def)
qed

lemma ib_dma_map_single_run [run_simps]:
  "bindK (ib_dma_map_single api dev b n) f w =
     (let d = ib_dma_map_single_ret api w dev b n in f d (w\<lparr>w_dmas := put_new d (b, n) (w_dmas w)\<rparr>))"
  by (simp add: ib_dma_map_single_def create_at_def thenK_def bindK_def whenK_def Let_def put_new_def)

lemma map_buffers_at_runs:
  assumes vs: "verbs_sound api" and pre: "buf_pre cbp cb cs pdv w" and i: "i < length cs"
    and p: "p = cb_buf_ctxs cb"
  shows "runs (map_inv p z (buf_len cb) cs w i) (map_buffers_at api cb i)
     (\<lambda>r s. case r of None \<Rightarrow> map_inv p z (buf_len cb) cs w (Suc i) s | Some x \<Rightarrow> map_failed p z cs w x s)"
proof (rule runsI)
  fix s
  note D = buf_preD[OF pre]
  let ?n = "buf_len cb"
  assume "map_inv p z ?n cs w i s"
  then obtain cs' t where kept: "ctxs_kept cs cs'" and fb: "fresh_keys (bufs cs') (w_msgs w)"
    and fm: "fresh_keys (maps (take i cs')) (w_dmas w)" and mr: "mr_mapped (take i cs')"
    and s: "s = buf_state w t (put_all (buf_objs z cs') (w_msgs w))
         (put_all (dma_objs ?n (take i cs')) (w_dmas w)) ((w_ctxs w)(p \<mapsto> cs'))"
    unfolding map_inv_def by blast
  have i': "i < length cs'" using i ctxs_kept_length[OF kept] by simp
  define c where "c = cs' ! i"
  define d where "d = ib_dma_map_single_ret api s (pd_device pdv) (recv_buf c) ?n"
  define s1 where "s1 = buf_state w t (put_all (buf_objs z cs') (w_msgs w))
      (put_new d (recv_buf c, ?n) (put_all (dma_objs ?n (take i cs')) (w_dmas w)))
      ((w_ctxs w)(p \<mapsto> cs'[i := c\<lparr>recv_mr := d, recv_mapping := d\<rparr>]))"
  define e where "e = ib_dma_map_single_ret api s1 (pd_device pdv) (send_buf c) ?n"
  let ?c = "c\<lparr>recv_mr := d, recv_mapping := d, send_mr := e, send_mapping := e\<rparr>"
  let ?s2 = "buf_state w t (put_all (buf_objs z cs') (w_msgs w))
      (put_new e (send_buf c, ?n) (put_new d (recv_buf c, ?n) (put_all (dma_objs ?n (take i cs')) (w_dmas w))))
      ((w_ctxs w)(p \<mapsto> cs'[i := ?c]))"
  have run: "map_buffers_at api cb i s =
      (if d = 0 then Inr (Some errno, s1) else if e = 0 then Inr (Some errno, ?s2) else Inr (None, ?s2))"
    using D i' unfolding map_buffers_at_def
    by (simp add: run_simps s p Let_def d_def[unfolded s p] e_def s1_def c_def)
  have step: "ctxs_kept cs (cs'[i := c'])" "fresh_keys (bufs (cs'[i := c'])) (w_msgs w)"
      "buf_objs z (cs'[i := c']) = buf_objs z cs'"
    if "ctx_id c' = ctx_id c" "ctx_seqn c' = ctx_seqn c" "recv_buf c' = recv_buf c" "send_buf c' = send_buf c" for c'
    using that kept fb by (auto simp: c_def ctxs_kept_update bufs_update buf_objs_update)
  have failed: "map_failed p z cs w errno (buf_state w t (put_all (buf_objs z cs') (w_msgs w)) D' ((w_ctxs w)(p \<mapsto> cs'[i := c'])))"
    if "ctx_id c' = ctx_id c" "ctx_seqn c' = ctx_seqn c" "recv_buf c' = recv_buf c" "send_buf c' = send_buf c"
      "recv_mr c' = 0 \<or> send_mr c' = 0" for c' D'
    unfolding map_failed_def using step[OF that(1-4)] that(5) i'
    by (intro conjI refl exI[of _ "cs'[i := c']"] exI[of _ t] exI[of _ D']) (auto intro: set_update_memI)
  consider "d = 0" | "d \<noteq> 0" "e = 0" | "d \<noteq> 0" "e \<noteq> 0" by blast
  then show "\<exists>r s'. map_buffers_at api cb i s = Inr (r, s') \<and>
     (case r of None \<Rightarrow> map_inv p z ?n cs w (Suc i) s' | Some x \<Rightarrow> map_failed p z cs w x s')"
  proof cases
    case 1
    then show ?thesis unfolding run s1_def by (auto intro!: failed)
  next
    case 2
    then show ?thesis unfolding run by (auto intro!: failed)
  next
    case 3
    have fresh1: "put_all (dma_objs ?n (take i cs')) (w_dmas w) d = None"
      using verbs_dma[OF vs d_def[symmetric] 3(1)] by (simp add: s)
    have fresh2: "put_all (dma_objs ?n (take i cs') @ [(d, recv_buf c, ?n)]) (w_dmas w) e = None"
      using verbs_dma[OF vs e_def[symmetric] 3(2)] by (simp add: s1_def)
    have "fresh_keys (map fst (dma_objs ?n (take i cs') @ [(d, recv_buf c, ?n)])) (w_dmas w)"
      using fresh_keys_snoc[of "dma_objs ?n (take i cs')" "w_dmas w" d] fm fresh1 by simp
    from fresh_keys_snoc[OF this fresh2] have "fresh_keys (maps (take (Suc i) (cs'[i := ?c]))) (w_dmas w)"
      using i' by (simp add: maps_def take_Suc_update)
    moreover have "mr_mapped (take (Suc i) (cs'[i := ?c]))"
      using mr i' 3 by (auto simp: mr_mapped_def take_Suc_update)
    ultimately have "map_inv p z ?n cs w (Suc i) ?s2"
      unfolding map_inv_def using step[of ?c] i'
      by (intro exI[of _ "cs'[i := ?c]"] exI[of _ t]) simp
    then show ?thesis unfolding run using 3 by simp
  qed
qed

section \<open>Work requests\<close>

definition wired :: "rdma_ch_cb \<Rightarrow> ib_pd \<Rightarrow> msgbuf_ctx list \<Rightarrow> msgbuf_ctx list" where
  "wired cb pd cs = map (\<lambda>i. wr_of cb pd i (cs ! i)) [0..<length cs]"

lemma wired_simps [simp]:
  "length (wired cb pd cs) = length cs"
  "i < length cs \<Longrightarrow> wired cb pd cs ! i = wr_of cb pd i (cs ! i)"
  by (simp_all add: wired_def)

lemma map_wired: "(\<And>i c. f (wr_of cb pd i c) = f c) \<Longrightarrow> map f (wired cb pd cs) = map f cs"
  by (rule nth_equalityI) simp_all

lemma bufs_wired [simp]: "bufs (wired cb pd cs) = bufs cs" "maps (wired cb pd cs) = maps cs"
  "dma_objs n (wired cb pd cs) = dma_objs n cs" "buf_objs z (wired cb pd cs) = buf_objs z cs"
  by (simp_all add: bufs_def maps_def dma_objs_def buf_objs_def map_wired wr_of_def)

lemma ctxs_kept_wired: "ctxs_kept cs cs' \<Longrightarrow> ctxs_kept cs (wired cb pd cs')"
  by (simp add: ctxs_kept_def map_wired wr_of_def)

lemma mr_mapped_wired: "mr_mapped cs \<Longrightarrow> mr_mapped (wired cb pd cs)"
  by (auto simp: mr_mapped_def wired_def wr_of_def)

lemma take_wired_step:
  assumes "i < length cs" and "length W = length cs"
  shows "(take i W @ drop i cs)[i := x] = take i W @ x # drop (Suc i) cs"
  using assms by (simp add: list_update_append Cons_nth_drop_Suc[symmetric])

lemma setup_wr_run:
  assumes "cbp \<noteq> 0" and "w_cbs w cbp = Some cb" and p: "cb_buf_ctxs cb \<noteq> 0"
    and cs: "w_ctxs w (cb_buf_ctxs cb) = Some cs" "iters (cb_msgbuf_cnt cb) = length cs"
    and pd: "cb_pd cb \<noteq> 0" "w_pds w (cb_pd cb) = Some pdv"
  shows "setup_wr cbp w = Inr ((), w\<lparr>w_ctxs := (w_ctxs w)(cb_buf_ctxs cb \<mapsto> wired cb pdv cs)\<rparr>)"
proof -
  let ?W = "wired cb pdv cs"
  define J where "J i s \<longleftrightarrow> s = w\<lparr>w_ctxs := (w_ctxs w)(cb_buf_ctxs cb \<mapsto> take i ?W @ drop i cs)\<rparr>" for i s
  have step: "runs (J i) (wr_at cb i) (\<lambda>_. J (Suc i))" if "i < length cs" for i
  proof (rule runsI)
    fix s
    assume "J i s"
    moreover have "(take i ?W @ drop i cs) ! i = cs ! i"
      using that by (simp add: nth_append)
    moreover have "(take i ?W @ drop i cs)[i := wr_of cb pdv i (cs ! i)] = take (Suc i) ?W @ drop (Suc i) cs"
      using that by (simp add: take_wired_step take_Suc_conv_app_nth)
    ultimately show "\<exists>a s'. wr_at cb i s = Inr (a, s') \<and> J (Suc i) s'"
      using that p pd by (simp add: wr_at_def J_def run_simps)
  qed
  have "J 0 w" using cs by (simp add: J_def fun_upd_idem)
  from runsD[OF runs_forK[of "length cs" J, OF step] this]
  have "forK (wr_at cb) [0..<length cs] w = Inr ((), w\<lparr>w_ctxs := (w_ctxs w)(cb_buf_ctxs cb \<mapsto> ?W)\<rparr>)"
    by (auto simp: J_def)
  then show ?thesis using assms by (simp add: setup_wr_def run_simps)
qed

section \<open>Buffers that are set up\<close>

text \<open>
  Every context has two buffers of the right size and two DMA mappings of them, all distinct and
  live, and its work requests carry its index and describe exactly its own buffer.
\<close>

definition ctx_wired :: "rdma_ch_cb \<Rightarrow> ib_pd \<Rightarrow> nat \<Rightarrow> msgbuf_ctx \<Rightarrow> bool" where
  "ctx_wired cb pd i c \<longleftrightarrow>
     rq_wr c = \<lparr>rwr_wr_id = of_nat i, rwr_sg_list = RecvSgl (cb_buf_ctxs cb) i, rwr_num_sge = 1\<rparr>
     \<and> recv_sgl c = \<lparr>sge_addr = recv_mapping c, sge_length = cb_msgbuf_size cb, sge_lkey = local_dma_lkey pd\<rparr>
     \<and> sq_wr c = \<lparr>swr_wr_id = of_nat i, swr_opcode = IB_WR_SEND, swr_send_flags = IB_SEND_SIGNALED,
         swr_sg_list = SendSgl (cb_buf_ctxs cb) i, swr_num_sge = 1\<rparr>
     \<and> send_sgl c = \<lparr>sge_addr = send_mapping c, sge_length = cb_msgbuf_size cb, sge_lkey = local_dma_lkey pd\<rparr>"

definition buffers_ok :: "addr \<Rightarrow> rdma_ch_cb \<Rightarrow> msgbuf_ctx list \<Rightarrow> ib_pd \<Rightarrow> world \<Rightarrow> bool" where
  "buffers_ok cbp cb cs pdv w \<longleftrightarrow> buf_pre cbp cb cs pdv w
     \<and> distinct (bufs cs) \<and> NULL \<notin> set (bufs cs) \<and> distinct (maps cs) \<and> 0 \<notin> set (maps cs)
     \<and> (\<forall>q\<in>set (bufs cs). \<exists>m. w_msgs w q = Some m \<and> length (msg_data m) = data_len cb)
     \<and> (\<forall>kv\<in>set (dma_objs (buf_len cb) cs). w_dmas w (fst kv) = Some (snd kv))
     \<and> (\<forall>i<length cs. ctx_wired cb pdv i (cs ! i))"

lemma ctx_wired_of: "recv_mr c = recv_mapping c \<Longrightarrow> send_mr c = send_mapping c \<Longrightarrow> ctx_wired cb pd i (wr_of cb pd i c)"
  by (simp add: ctx_wired_def wr_of_def)

lemma filter_all_distinct: "distinct (filter (\<lambda>k. k \<noteq> 0) ks) \<Longrightarrow> 0 \<notin> set ks \<Longrightarrow> distinct ks"
  by (metis (mono_tags, lifting) filter_True)

lemma mr_mapped_maps: "mr_mapped cs \<Longrightarrow> 0 \<notin> set (maps cs)"
  by (auto simp: mr_mapped_def maps_def)

lemma mapped_buffers_ok:
  assumes pre: "buf_pre cbp cb cs0 pdv w" and kept: "ctxs_kept cs0 cs"
    and fb: "fresh_keys (bufs cs) (w_msgs w)" and fm: "fresh_keys (maps cs) (w_dmas w)"
    and mr: "mr_mapped cs" and full: "0 \<notin> set (bufs cs)"
  shows "buffers_ok cbp cb (wired cb pdv cs) pdv
     (buf_state w t (put_all (buf_objs (zero_msg (data_len cb)) cs) (w_msgs w))
        (put_all (dma_objs (buf_len cb) cs) (w_dmas w)) ((w_ctxs w)(cb_buf_ctxs cb \<mapsto> wired cb pdv cs)))"
    (is "buffers_ok _ _ ?W _ ?s")
proof -
  have pre': "buf_pre cbp cb ?W pdv ?s"
    using pre ctxs_kept_length[OF kept] by (simp add: buf_pre_def)
  have db: "distinct (filter (\<lambda>k. k \<noteq> 0) (map fst (buf_objs (zero_msg (data_len cb)) cs)))"
    and dm: "distinct (filter (\<lambda>k. k \<noteq> 0) (map fst (dma_objs (buf_len cb) cs)))"
    using fb fm by (simp_all add: fresh_keys_def)
  have live: "put_all (buf_objs (zero_msg (data_len cb)) cs) (w_msgs w) q = Some (zero_msg (data_len cb))"
    if "q \<in> set (bufs cs)" for q
    using that full by (intro put_all_in[OF db]) (auto simp: buf_objs_def)
  have mapped: "put_all (dma_objs (buf_len cb) cs) (w_dmas w) (fst kv) = Some (snd kv)"
    if "kv \<in> set (dma_objs (buf_len cb) cs)" for kv
  proof -
    have "fst kv \<in> set (maps cs)" using that by (metis buf_keys(2) image_eqI set_map)
    then have "fst kv \<noteq> 0" using mr_mapped_maps[OF mr] by metis
    then show ?thesis using put_all_in[OF dm, of "fst kv" "snd kv"] that by simp
  qed
  have wires: "ctx_wired cb pdv i (?W ! i)" if "i < length ?W" for i
    using that mr by (simp add: ctx_wired_of mr_mapped_def)
  show ?thesis
    unfolding buffers_ok_def
    using pre' filter_all_distinct[of "bufs cs"] filter_all_distinct[of "maps cs"] fb fm full
      mr_mapped_maps[OF mr] live mapped wires
    by (simp add: fresh_keys_def zero_msg_def)
qed

section \<open>Releasing the buffers\<close>

lemma bufs_at:
  "i < length cs \<Longrightarrow> bufs cs = bufs (take i cs) @ [recv_buf (cs ! i), send_buf (cs ! i)] @ bufs (drop (Suc i) cs)"
  unfolding bufs_def by (subst id_take_nth_drop[of i cs]) simp_all

lemma maps_at:
  "i < length cs \<Longrightarrow>
   maps cs = maps (take i cs) @ [recv_mapping (cs ! i), send_mapping (cs ! i)] @ maps (drop (Suc i) cs)"
  unfolding maps_def by (subst id_take_nth_drop[of i cs]) simp_all

lemma bufs_take_Suc:
  "i < length cs \<Longrightarrow> bufs (take (Suc i) cs) = bufs (take i cs) @ [recv_buf (cs ! i), send_buf (cs ! i)]"
  "i < length cs \<Longrightarrow> maps (take (Suc i) cs) = maps (take i cs) @ [recv_mapping (cs ! i), send_mapping (cs ! i)]"
  by (simp_all add: bufs_def maps_def take_Suc_conv_app_nth)

lemma kfree_msg_run [run_simps]:
  "p \<noteq> 0 \<Longrightarrow> w_msgs w p = Some m \<Longrightarrow> kfree_msg p w = Inr ((), w\<lparr>w_msgs := (w_msgs w)(p := None)\<rparr>)"
  "p \<noteq> 0 \<Longrightarrow> w_msgs w p = Some m \<Longrightarrow> thenK (kfree_msg p) k w = k (w\<lparr>w_msgs := (w_msgs w)(p := None)\<rparr>)"
  by (simp_all add: kfree_msg_def run_simps thenK_def bindK_def)

lemma dma_unmap_run [run_simps]:
  "w_dmas w d = Some v \<Longrightarrow> thenK (dma_unmap_single d) k w = k (w\<lparr>w_dmas := (w_dmas w)(d := None)\<rparr>)"
  by (simp add: dma_unmap_single_def run_simps)

lemma del_all_snoc2:
  "a \<noteq> 0 \<Longrightarrow> b \<noteq> 0 \<Longrightarrow> (del_all ks h)(a := None, b := None) = del_all (ks @ [a, b]) h"
  by (auto simp: del_all_def)

lemma kfree_buffers_run:
  assumes ok: "buffers_ok cbp cb cs pdv w"
  shows "kfree_buffers cbp w = Inr ((), buf_state w (w_trace w) (del_all (bufs cs) (w_msgs w))
     (del_all (maps cs) (w_dmas w)) (w_ctxs w))"
proof -
  have D: "cbp \<noteq> 0" "w_cbs w cbp = Some cb" "cb_buf_ctxs cb \<noteq> 0" "w_ctxs w (cb_buf_ctxs cb) = Some cs"
      "iters (cb_msgbuf_cnt cb) = length cs" "cb_pd cb \<noteq> 0" "w_pds w (cb_pd cb) = Some pdv"
    using ok buf_preD[of cbp cb cs pdv w] by (simp_all add: buffers_ok_def)
  define J where "J i s \<longleftrightarrow> s = buf_state w (w_trace w) (del_all (bufs (take i cs)) (w_msgs w))
      (del_all (maps (take i cs)) (w_dmas w)) (w_ctxs w)" for i s
  have step: "runs (J i) (kfree_bufs_at cb i) (\<lambda>_. J (Suc i))" if i: "i < length cs" for i
  proof (rule runsI)
    fix s
    assume "J i s"
    let ?c = "cs ! i"
    have c: "?c \<in> set cs" using i by simp
    have b: "recv_buf ?c \<noteq> 0" "send_buf ?c \<noteq> 0" "recv_buf ?c \<noteq> send_buf ?c"
        "recv_buf ?c \<notin> set (bufs (take i cs))" "send_buf ?c \<notin> set (bufs (take i cs))"
      using ok unfolding buffers_ok_def bufs_at[OF i] by auto
    have m: "recv_mapping ?c \<noteq> 0" "send_mapping ?c \<noteq> 0" "recv_mapping ?c \<noteq> send_mapping ?c"
        "recv_mapping ?c \<notin> set (maps (take i cs))" "send_mapping ?c \<notin> set (maps (take i cs))"
      using ok unfolding buffers_ok_def maps_at[OF i] by auto
    obtain mr ms where live: "w_msgs w (recv_buf ?c) = Some mr" "w_msgs w (send_buf ?c) = Some ms"
      using ok unfolding buffers_ok_def bufs_at[OF i] by auto
    have mapped: "w_dmas w (recv_mapping ?c) = Some (recv_buf ?c, buf_len cb)"
        "w_dmas w (send_mapping ?c) = Some (send_buf ?c, buf_len cb)"
      using ok c unfolding buffers_ok_def dma_objs_def by auto
    show "\<exists>a s'. kfree_bufs_at cb i s = Inr (a, s') \<and> J (Suc i) s'"
      using \<open>J i s\<close> D i b m live mapped unfolding kfree_bufs_at_def J_def
      by (simp add: run_simps del_all_other bufs_take_Suc)
  qed
  have "J 0 w" by (simp add: J_def bufs_def maps_def buf_state_id[symmetric])
  from runsD[OF runs_forK[of "length cs" J, OF step] this]
  have "forK (kfree_bufs_at cb) [0..<length cs] w = Inr ((), buf_state w (w_trace w)
      (del_all (bufs cs) (w_msgs w)) (del_all (maps cs) (w_dmas w)) (w_ctxs w))"
    by (auto simp: J_def)
  then show ?thesis using D by (simp add: kfree_buffers_def run_simps)
qed

text \<open>The error paths of \<open>setup_buffers\<close>: releasing regions that were never registered, then the buffers.\<close>

lemma dereg_when_tries:
  "tries BadFree (\<lambda>s'. \<exists>h. s' = s\<lparr>w_mrs := h\<rparr>) (whenK b (ib_dereg_mr x)) (\<lambda>_ s'. \<exists>h. s' = s\<lparr>w_mrs := h\<rparr>)"
  by (auto simp: tries_def whenK_def ib_dereg_mr_def release_def split: option.splits)

lemma dereg_tries:
  assumes "w_ctxs s (cb_buf_ctxs cb) = Some cs" and "cb_buf_ctxs cb \<noteq> 0" and "i < length cs"
  shows "tries BadFree (\<lambda>s'. \<exists>h. s' = s\<lparr>w_mrs := h\<rparr>) (dereg_at cb i) (\<lambda>_ s'. \<exists>h. s' = s\<lparr>w_mrs := h\<rparr>)"
  unfolding dereg_at_def thenK_def
proof (rule tries_bindK)
  show "tries BadFree (\<lambda>s'. \<exists>h. s' = s\<lparr>w_mrs := h\<rparr>) (get_ctx (cb_buf_ctxs cb) i) (\<lambda>_ s'. \<exists>h. s' = s\<lparr>w_mrs := h\<rparr>)"
    using assms by (auto simp: tries_def get_ctx_def run_simps)
qed (rule tries_bindK dereg_when_tries)+

lemma free_bufs_run:
  assumes p: "cb_buf_ctxs cb \<noteq> 0" and cs: "w_ctxs w (cb_buf_ctxs cb) = Some cs"
    and fb: "distinct (filter (\<lambda>k. k \<noteq> 0) (bufs cs))"
    and live: "\<And>q. q \<in> set (bufs cs) \<Longrightarrow> q \<noteq> 0 \<Longrightarrow> w_msgs w q \<noteq> None"
  shows "forK (free_bufs_at cb) [0..<length cs] w = Inr ((), w\<lparr>w_msgs := del_all (bufs cs) (w_msgs w)\<rparr>)"
proof -
  define J where "J i s \<longleftrightarrow> s = w\<lparr>w_msgs := del_all (bufs (take i cs)) (w_msgs w)\<rparr>" for i s
  have step: "runs (J i) (free_bufs_at cb i) (\<lambda>_. J (Suc i))" if i: "i < length cs" for i
  proof (rule runsI)
    fix s
    assume J: "J i s"
    let ?a = "recv_buf (cs ! i)" and ?b = "send_buf (cs ! i)"
    have d: "?a \<noteq> 0 \<Longrightarrow> ?a \<notin> set (bufs (take i cs))" "?b \<noteq> 0 \<Longrightarrow> ?b \<notin> set (bufs (take i cs))"
        "?a \<noteq> 0 \<Longrightarrow> ?b \<noteq> 0 \<Longrightarrow> ?a \<noteq> ?b"
      using fb unfolding bufs_at[OF i] by auto
    have l: "?a \<noteq> 0 \<Longrightarrow> \<exists>m. w_msgs w ?a = Some m" "?b \<noteq> 0 \<Longrightarrow> \<exists>m. w_msgs w ?b = Some m"
      using live[unfolded bufs_at[OF i]] by auto
    have z: "del_all (ks @ [0]) h = del_all ks h" "del_all (ks @ [0, x]) h = del_all (ks @ [x]) h"
        "del_all (ks @ [x, 0]) h = del_all (ks @ [x]) h" for ks x and h :: "addr \<Rightarrow> rdma_msg option"
      by (auto simp: del_all_def)
    show "\<exists>u s'. free_bufs_at cb i s = Inr (u, s') \<and> J (Suc i) s'"
      using J p cs i d l unfolding free_bufs_at_def J_def
      by (cases "?a = 0"; cases "?b = 0")
        (auto simp: run_simps del_all_other bufs_take_Suc z)
  qed
  have "J 0 w" by (simp add: J_def bufs_def)
  from runsD[OF runs_forK[of "length cs" J, OF step] this] show ?thesis by (auto simp: J_def)
qed

section \<open>Outcomes of setup\_buffers\<close>

lemma put_all_live: "k \<in> fst ` set kvs \<Longrightarrow> k \<noteq> 0 \<Longrightarrow> put_all kvs h k \<noteq> None"
  using put_all_None[of kvs h k] by blast

lemma err2_run:
  assumes pre: "buf_pre cbp cb cs pdv w" and kept: "ctxs_kept cs cs'"
    and fb: "fresh_keys (bufs cs') (w_msgs w)"
  shows "setup_buffers_err2 cb r (buf_state w t (put_all (buf_objs z cs') (w_msgs w)) D
       ((w_ctxs w)(cb_buf_ctxs cb \<mapsto> cs'))\<lparr>w_mrs := h\<rparr>)
     = Inr (r, buf_state w t (w_msgs w) D ((w_ctxs w)(cb_buf_ctxs cb \<mapsto> cs'))\<lparr>w_mrs := h\<rparr>)"
proof -
  let ?s = "buf_state w t (put_all (buf_objs z cs') (w_msgs w)) D ((w_ctxs w)(cb_buf_ctxs cb \<mapsto> cs'))\<lparr>w_mrs := h\<rparr>"
  note P = buf_preD[OF pre]
  have len: "length cs' = length cs" by (rule ctxs_kept_length[OF kept])
  have "put_all (buf_objs z cs') (w_msgs w) q \<noteq> None" if "q \<in> set (bufs cs')" "q \<noteq> 0" for q
    using that by (intro put_all_live) (auto simp: buf_objs_def image_image)
  then have "forK (free_bufs_at cb) [0..<length cs'] ?s =
      Inr ((), ?s\<lparr>w_msgs := del_all (bufs cs') (put_all (buf_objs z cs') (w_msgs w))\<rparr>)"
    using free_bufs_run[OF P(3), of ?s cs'] fb by (simp add: fresh_keys_def)
  moreover have "del_all (bufs cs') (put_all (buf_objs z cs') (w_msgs w)) = w_msgs w"
    using del_put_all[of "buf_objs z cs'"] fb by simp
  moreover have "buf_state w t M D C\<lparr>w_mrs := h, w_msgs := M'\<rparr> = buf_state w t M' D C\<lparr>w_mrs := h\<rparr>" for M M' C
    by (cases w) (simp add: buf_state_def)
  ultimately show ?thesis
    using P(5) len by (simp add: setup_buffers_err2_def thenK_Inr)
qed

lemma err1_outcome:
  assumes pre: "buf_pre cbp cb cs pdv w" and kept: "ctxs_kept cs cs'"
    and fb: "fresh_keys (bufs cs') (w_msgs w)"
    and s: "s = buf_state w t (put_all (buf_objs z cs') (w_msgs w)) D ((w_ctxs w)(cb_buf_ctxs cb \<mapsto> cs'))"
  shows "setup_buffers_err1 cb r s = Inl BadFree
     \<or> (\<exists>h. setup_buffers_err1 cb r s =
          Inr (r, buf_state w t (w_msgs w) D ((w_ctxs w)(cb_buf_ctxs cb \<mapsto> cs'))\<lparr>w_mrs := h\<rparr>))"
proof -
  note P = buf_preD[OF pre]
  have len: "length cs' = length cs" by (rule ctxs_kept_length[OF kept])
  have "tries BadFree (\<lambda>s'. \<exists>h. s' = s\<lparr>w_mrs := h\<rparr>) (forK (dereg_at cb) [0..<length cs'])
      (\<lambda>_ s'. \<exists>h. s' = s\<lparr>w_mrs := h\<rparr>)"
    using P(3) by (intro tries_forK dereg_tries[where cs = cs']) (simp_all add: s)
  moreover have "\<exists>h. s = s\<lparr>w_mrs := h\<rparr>" by (rule exI[of _ "w_mrs s"]) simp
  ultimately have "forK (dereg_at cb) [0..<length cs'] s = Inl BadFree
      \<or> (\<exists>h. forK (dereg_at cb) [0..<length cs'] s = Inr ((), s\<lparr>w_mrs := h\<rparr>))"
    unfolding tries_def by auto
  then show ?thesis
  proof (elim disjE exE)
    assume "forK (dereg_at cb) [0..<length cs'] s = Inl BadFree"
    then show ?thesis using P(5) len by (simp add: setup_buffers_err1_def thenK_Inl)
  next
    fix h
    assume "forK (dereg_at cb) [0..<length cs'] s = Inr ((), s\<lparr>w_mrs := h\<rparr>)"
    then show ?thesis
      using P(5) len err2_run[OF pre kept fb] by (auto simp: setup_buffers_err1_def thenK_Inr s)
  qed
qed

lemma setup_buffers_cases:
  assumes as: "alloc_sound api" and vs: "verbs_sound api" and pre: "buf_pre cbp cb cs pdv w"
  obtains (ready) cs' t where "setup_buffers api cbp w = Inr (0, buf_state w t
        (put_all (buf_objs (zero_msg (data_len cb)) cs') (w_msgs w))
        (put_all (dma_objs (buf_len cb) cs') (w_dmas w)) ((w_ctxs w)(cb_buf_ctxs cb \<mapsto> wired cb pdv cs')))"
      "ctxs_kept cs cs'" "fresh_keys (bufs cs') (w_msgs w)" "fresh_keys (maps cs') (w_dmas w)" "mr_mapped cs'"
  | (undone) cs' t D h where "setup_buffers api cbp w = Inr (0,
        buf_state w t (w_msgs w) D ((w_ctxs w)(cb_buf_ctxs cb \<mapsto> cs'))\<lparr>w_mrs := h\<rparr>)"
      "ctxs_kept cs cs'" "\<exists>c\<in>set cs'. recv_mr c = 0 \<or> send_mr c = 0"
  | (faulty) "setup_buffers api cbp w = Inl BadFree"
proof -
  note P = buf_preD[OF pre]
  let ?p = "cb_buf_ctxs cb" and ?z = "zero_msg (data_len cb)" and ?n = "buf_len cb"
  obtain s where s: "alloc_msg_buffers api cbp w = Inr (0, s)" "alloc_inv ?p ?z cs w (length cs) s"
    using alloc_msg_buffers_runs[OF as pre] by blast
  have cb: "w_cbs s cbp = Some cb" using s(2) P(2) by (auto simp: alloc_inv_def)
  have "runs (map_inv ?p ?z ?n cs w 0) (loopK (map_buffers_at api cb) [0..<length cs])
      (\<lambda>r s. case r of None \<Rightarrow> map_inv ?p ?z ?n cs w (length cs) s | Some x \<Rightarrow> map_failed ?p ?z cs w x s)"
    by (rule runs_loopK) (rule map_buffers_at_runs[OF vs pre _ refl])
  from runsD[OF this map_inv_start[OF s(2)]] obtain r s' where
    loop: "loopK (map_buffers_at api cb) [0..<length cs] s = Inr (r, s')"
    and post: "case r of None \<Rightarrow> map_inv ?p ?z ?n cs w (length cs) s' | Some x \<Rightarrow> map_failed ?p ?z cs w x s'"
    by blast
  have run: "setup_buffers api cbp w = (case r of Some ret \<Rightarrow> setup_buffers_err1 cb ret
      | None \<Rightarrow> thenK (setup_wr cbp) (returnK 0)) s'"
    using s(1) cb P(1,5) loop by (simp add: setup_buffers_def bindK_Inr bindK_load)
  show thesis
  proof (cases r)
    case (Some x)
    then obtain cs' t D where f: "x = 0" "ctxs_kept cs cs'" "fresh_keys (bufs cs') (w_msgs w)"
        "\<exists>c\<in>set cs'. recv_mr c = 0 \<or> send_mr c = 0"
        "s' = buf_state w t (put_all (buf_objs ?z cs') (w_msgs w)) D ((w_ctxs w)(?p \<mapsto> cs'))"
      using post by (auto simp: map_failed_def errno_def)
    have eq: "setup_buffers api cbp w = setup_buffers_err1 cb 0 s'" using run Some f(1) by simp
    show ?thesis
      using err1_outcome[OF pre f(2,3,5), of 0, folded eq] faulty undone[OF _ f(2,4)] by blast
  next
    case None
    then obtain cs' t where k: "ctxs_kept cs cs'" "fresh_keys (bufs cs') (w_msgs w)"
        "fresh_keys (maps (take (length cs) cs')) (w_dmas w)" "mr_mapped (take (length cs) cs')"
        "s' = buf_state w t (put_all (buf_objs ?z cs') (w_msgs w))
           (put_all (dma_objs ?n (take (length cs) cs')) (w_dmas w)) ((w_ctxs w)(?p \<mapsto> cs'))"
      using post by (auto simp: map_inv_def)
    have "take (length cs) cs' = cs'" using ctxs_kept_length[OF k(1)] by simp
    moreover have "setup_wr cbp s' = Inr ((), s'\<lparr>w_ctxs := (w_ctxs s')(?p \<mapsto> wired cb pdv cs')\<rparr>)"
      using P ctxs_kept_length[OF k(1)] by (intro setup_wr_run) (simp_all add: k(5))
    ultimately show ?thesis
      using ready[of t cs'] run None k by (simp add: thenK_Inr)
  qed
qed

lemma dereg_at_run:
  assumes "cb_buf_ctxs cb \<noteq> 0" and "w_ctxs w (cb_buf_ctxs cb) = Some cs" and "i < length cs"
    and "w_mrs w = Map.empty \<or> recv_mr (cs ! i) = 0 \<and> send_mr (cs ! i) = 0"
  shows "dereg_at cb i w =
     (if recv_mr (cs ! i) = 0 \<and> send_mr (cs ! i) = 0 then Inr ((), w) else Inl BadFree)"
  using assms(4) unfolding dereg_at_def bindK_get_ctx[OF assms(1-3)]
  by (auto simp: whenK_def ib_dereg_mr_def release_def thenK_def bindK_def)

lemma mrs_kept_zero:
  "mrs_kept cs cs' \<Longrightarrow> (\<And>c. c \<in> set cs \<Longrightarrow> recv_mr c = 0 \<and> send_mr c = 0) \<Longrightarrow> c \<in> set cs' \<Longrightarrow>
   recv_mr c = 0 \<and> send_mr c = 0"
  unfolding mrs_kept_def by (metis (no_types, lifting) image_iff list.set_map)

lemma buf_state_mrs: "buf_state w t M D C\<lparr>w_mrs := w_mrs w\<rparr> = buf_state w t M D C"
  by (simp add: buf_state_def)

section \<open>A concrete channel\<close>

text \<open>One message buffer of eight data bytes, its context array and protection domain.\<close>

definition sample_cb :: rdma_ch_cb where
  "sample_cb = zero_cb\<lparr>cb_state := ROUTE_RESOLVED, cb_cm_id := 0x6000, cb_pd := 0x3000, cb_cq := 0x4000,
     cb_qp := 0x5000, cb_msgbuf_cnt := 1, cb_msgheader_size := msgheader_size, cb_msgdata_size := 8,
     cb_msgbuf_size := msgbuf_size 8, cb_buf_ctxs := 0x1000,
     cb_rpc_msg_handler_cb := Fn_client_rpc_rdma_msg_handler, cb_user_msg_handler_cb := Fn_user 0\<rparr>"

definition sample_buf_world :: world where
  "sample_buf_world = empty_world\<lparr>w_cbs := [64 \<mapsto> sample_cb], w_ctxs := [0x1000 \<mapsto> [zero_ctx\<lparr>ctx_seqn := 1\<rparr>]],
     w_pds := [0x3000 \<mapsto> \<lparr>pd_device = 0x2000, local_dma_lkey = 7\<rparr>]\<rparr>"

lemma sample_buf_pre:
  "buf_pre 64 sample_cb [zero_ctx\<lparr>ctx_seqn := 1\<rparr>] \<lparr>pd_device = 0x2000, local_dma_lkey = 7\<rparr> sample_buf_world"
  by (simp add: buf_pre_def sample_buf_world_def sample_cb_def zero_cb_def iters_def)

lemma sample_sizes: "size_of_int (msgbuf_size 8) = (32 :: u64)" "iters 1 = 1" "HEADER_BYTES = 24"
  by (simp_all add: size_of_int_def msgbuf_size_def msgheader_size_def HEADER_BYTES_def iters_def)

lemma sample_setup:
  "\<exists>w' c. setup_buffers sample_api 64 sample_buf_world = Inr (0, w') \<and> w_ctxs w' 0x1000 = Some [c]
     \<and> recv_buf c \<noteq> 0 \<and> send_buf c \<noteq> 0 \<and> recv_mr c \<noteq> 0 \<and> send_mr c \<noteq> 0"
  by (simp add: setup_buffers_def alloc_msg_buffers_def alloc_body_def map_buffers_at_def setup_wr_def wr_at_def
      sample_buf_world_def sample_cb_def zero_cb_def empty_world_def run_simps Let_def sample_sizes
      sample_api_sel sample_alloc_def live_def put_new_def wr_of_def)

section \<open>Copying a control block\<close>

lemma copy_ctxs_run:
  assumes "src \<noteq> 0" and "dst \<noteq> 0" and "dst \<noteq> src" and "w_ctxs w src = Some cs"
    and "w_ctxs w dst = Some zs" and len: "length zs = length cs"
  shows "forK (copy_ctx_at src dst) [0..<length cs] w = Inr ((), w\<lparr>w_ctxs := (w_ctxs w)(dst \<mapsto> cs)\<rparr>)"
proof -
  define J where "J i s \<longleftrightarrow> s = w\<lparr>w_ctxs := (w_ctxs w)(dst \<mapsto> take i cs @ drop i zs)\<rparr>" for i s
  have step: "runs (J i) (copy_ctx_at src dst i) (\<lambda>_. J (Suc i))" if i: "i < length cs" for i
  proof (rule runsI)
    fix s
    assume "J i s"
    moreover have "(take i cs @ drop i zs)[i := cs ! i] = take (Suc i) cs @ drop (Suc i) zs"
      using i len by (simp add: take_wired_step take_Suc_conv_app_nth)
    ultimately show "\<exists>a s'. copy_ctx_at src dst i s = Inr (a, s') \<and> J (Suc i) s'"
      using i len assms(1-4) by (simp add: copy_ctx_at_def J_def run_simps)
  qed
  have "J 0 w" using assms(5) by (simp add: J_def fun_upd_idem)
  from runsD[OF runs_forK[of "length cs" J, OF step] this] show ?thesis using len by (auto simp: J_def)
qed

section \<open>Properties\<close>

text \<open>
  C24. Setting up the buffers of a channel keeps the id and the sequence number of every context.
  If every allocation and mapping succeeded, every context has two live buffers of the right size,
  no two shared, each mapped once, with work requests that carry its index and describe its own
  buffers, and \<open>kfree_buffers\<close> then releases exactly these buffers and mappings. If a mapping
  failed, the buffers are released again, unless that error path itself faults.
\<close>

theorem setup_buffers_then_kfree:
  assumes "alloc_sound api" and "verbs_sound api" and pre: "buf_pre cbp cb cs pdv w"
  shows "setup_buffers api cbp w = Inl BadFree
     \<or> (\<exists>w' cs'. setup_buffers api cbp w = Inr (0, w')
          \<and> w_ctxs w' = (w_ctxs w)(cb_buf_ctxs cb \<mapsto> cs') \<and> ctxs_kept cs cs'
          \<and> (if \<exists>c\<in>set cs'. recv_mr c = 0 \<or> send_mr c = 0 then w_msgs w' = w_msgs w
             else NULL \<notin> set (bufs cs') \<longrightarrow> buffers_ok cbp cb cs' pdv w'
               \<and> (\<exists>w''. kfree_buffers cbp w' = Inr ((), w'') \<and> w_msgs w'' = w_msgs w \<and> w_dmas w'' = w_dmas w)))"
  using assms
proof (cases rule: setup_buffers_cases)
  case (ready cs' t)
  let ?w' = "buf_state w t (put_all (buf_objs (zero_msg (data_len cb)) cs') (w_msgs w))
        (put_all (dma_objs (buf_len cb) cs') (w_dmas w)) ((w_ctxs w)(cb_buf_ctxs cb \<mapsto> wired cb pdv cs'))"
  have "\<not> (\<exists>c\<in>set (wired cb pdv cs'). recv_mr c = 0 \<or> send_mr c = 0)"
    using mr_mapped_wired[OF ready(5)] unfolding mr_mapped_def by metis
  moreover have "buffers_ok cbp cb (wired cb pdv cs') pdv ?w'
      \<and> (\<exists>w''. kfree_buffers cbp ?w' = Inr ((), w'') \<and> w_msgs w'' = w_msgs w \<and> w_dmas w'' = w_dmas w)"
    if "0 \<notin> set (bufs cs')"
  proof -
    note ok = mapped_buffers_ok[OF pre ready(2-5) that, of t]
    from kfree_buffers_run[OF ok] ok del_put_all[of "buf_objs (zero_msg (data_len cb)) cs'" "w_msgs w"]
      del_put_all[of "dma_objs (buf_len cb) cs'" "w_dmas w"] ready(3,4)
    show ?thesis by simp
  qed
  ultimately show ?thesis
    using ready(1) ctxs_kept_wired[OF ready(2)]
    by (intro disjI2 exI[of _ ?w'] exI[of _ "wired cb pdv cs'"]) simp
next
  case (undone cs' t D h)
  then show ?thesis by (intro disjI2 exI[of _ "_ :: world"] exI[of _ cs']) (auto simp: buf_state_def)
qed simp

theorem setup_buffers_then_kfree_witness:
  "\<exists>w' w''. setup_buffers sample_api 64 sample_buf_world = Inr (0, w')
     \<and> kfree_buffers 64 w' = Inr ((), w'') \<and> w_msgs w'' = w_msgs sample_buf_world"
proof -
  obtain w' c where run: "setup_buffers sample_api 64 sample_buf_world = Inr (0, w')"
      "w_ctxs w' 0x1000 = Some [c]" "recv_buf c \<noteq> 0" "send_buf c \<noteq> 0" "recv_mr c \<noteq> 0" "send_mr c \<noteq> 0"
    using sample_setup by blast
  have "cb_buf_ctxs sample_cb = 0x1000" by (simp add: sample_cb_def)
  with setup_buffers_then_kfree[OF sample_alloc_sound sample_verbs_sound sample_buf_pre] run
  show ?thesis by (auto simp: bufs_def)
qed

text \<open>
  The error path of \<open>setup_buffers\<close> cannot be survived once a buffer is mapped: it passes the
  DMA address to \<open>ib_dereg_mr\<close> as if it were a memory region. The module never registers a memory
  region, so the first context with a mapping makes it release a region that does not exist.
\<close>

theorem setup_buffers_error_path_faults:
  assumes "cb_buf_ctxs cb \<noteq> NULL" and "w_ctxs w (cb_buf_ctxs cb) = Some cs"
    and "iters (cb_msgbuf_cnt cb) = length cs" and "w_mrs w = Map.empty"
    and "c \<in> set cs" and "recv_mr c \<noteq> 0 \<or> send_mr c \<noteq> 0"
  shows "setup_buffers_err1 cb ret w = Inl BadFree"
proof -
  obtain j where j: "j < length cs" "cs ! j = c" using assms(5) by (auto simp: in_set_conv_nth)
  have "forK (dereg_at cb) [0..<length cs] w = Inl BadFree"
  proof (rule forK_first_fault)
    show "dereg_at cb i w = Inr ((), w) \<or> dereg_at cb i w = Inl BadFree" if "i \<in> set [0..<length cs]" for i
      using that assms(1,2,4) by (simp add: dereg_at_run)
    show "dereg_at cb j w = Inl BadFree" using j assms by (simp add: dereg_at_run)
  qed (use j in simp)
  then show ?thesis by (simp add: setup_buffers_err1_def assms(3) thenK_Inl)
qed

theorem setup_buffers_error_path_faults_witness:
  "setup_buffers_err1 sample_cb 0
     (sample_buf_world\<lparr>w_ctxs := [0x1000 \<mapsto> [zero_ctx\<lparr>recv_mr := 0x700\<rparr>]]\<rparr>) = Inl BadFree"
  by (rule setup_buffers_error_path_faults[where cs = "[zero_ctx\<lparr>recv_mr := 0x700\<rparr>]"
        and c = "zero_ctx\<lparr>recv_mr := 0x700\<rparr>"])
    (simp_all add: sample_cb_def sample_buf_world_def empty_world_def iters_def)

text \<open>
  A device that cannot map memory is not reported either: \<open>setup_buffers\<close> releases the
  message buffers and returns the value of \<open>errno\<close>, 0. Its caller goes on with a channel whose
  buffers are gone, and the \<open>kfree_buffers\<close> of a later error or of the destructor unmaps an address
  that was never mapped.
\<close>

theorem setup_buffers_hides_mapping_failure:
  assumes as: "alloc_sound api" and pre: "buf_pre cbp cb cs pdv w"
    and nomap: "\<And>w d b n. ib_dma_map_single_ret api w d b n = 0"
    and zeroed: "\<And>c. c \<in> set cs \<Longrightarrow> recv_mr c = 0 \<and> send_mr c = 0"
    and some: "0 < length cs" and "w_dmas w 0 = None"
  shows "\<exists>w'. setup_buffers api cbp w = Inr (0, w') \<and> w_msgs w' = w_msgs w \<and> kfree_buffers cbp w' = Inl BadFree"
proof -
  note P = buf_preD[OF pre]
  let ?p = "cb_buf_ctxs cb" and ?z = "zero_msg (data_len cb)"
  obtain s where s: "alloc_msg_buffers api cbp w = Inr (0, s)" "alloc_inv ?p ?z cs w (length cs) s"
    using alloc_msg_buffers_runs[OF as pre] by blast
  then obtain cs' t where kept: "ctxs_kept cs cs'" and mrs: "mrs_kept cs cs'"
    and fb: "fresh_keys (bufs (take (length cs) cs')) (w_msgs w)"
    and seq: "s = buf_state w t (put_all (buf_objs ?z (take (length cs) cs')) (w_msgs w)) (w_dmas w) ((w_ctxs w)(?p \<mapsto> cs'))"
    unfolding alloc_inv_def by blast
  have len: "length cs' = length cs" by (rule ctxs_kept_length[OF kept])
  let ?c = "(cs' ! 0)\<lparr>recv_mr := 0, recv_mapping := 0\<rparr>"
  let ?cs = "cs'[0 := ?c]"
  let ?s = "buf_state w t (put_all (buf_objs ?z ?cs) (w_msgs w)) (w_dmas w) ((w_ctxs w)(?p \<mapsto> ?cs))"
  have kept': "ctxs_kept cs ?cs" using kept by (rule ctxs_kept_update) simp_all
  have fb': "fresh_keys (bufs ?cs) (w_msgs w)" using fb len by (simp add: bufs_update)
  have "map_buffers_at api cb 0 s = Inr (Some errno, ?s)"
    using P some len by (simp add: map_buffers_at_def run_simps seq nomap put_new_def buf_objs_update)
  then have loop: "loopK (map_buffers_at api cb) [0..<length cs] s = Inr (Some errno, ?s)"
    using some by (simp add: upt_conv_Cons bindK_Inr)
  have old0: "recv_mr c = 0 \<and> send_mr c = 0" if "c \<in> set cs'" for c
    using mrs_kept_zero[OF mrs zeroed that] .
  have mr0: "recv_mr c = 0 \<and> send_mr c = 0" if "c \<in> set ?cs" for c
  proof -
    have "c = ?c \<or> c \<in> set cs'" using that set_update_subset_insert[of cs' 0 ?c] by blast
    moreover have "cs' ! 0 \<in> set cs'" using some len by (intro nth_mem) simp
    ultimately show ?thesis using old0 by fastforce
  qed
  have "forK (dereg_at cb) [0..<length cs] ?s = Inr ((), ?s)"
    using P len mr0 by (intro forK_idle) (simp add: dereg_at_run)
  then have err1: "setup_buffers_err1 cb 0 ?s = Inr (0, buf_state w t (w_msgs w) (w_dmas w) ((w_ctxs w)(?p \<mapsto> ?cs)))"
    using P(5) err2_run[OF pre kept' fb', where h = "w_mrs w" and D = "w_dmas w" and t = t]
    by (simp add: setup_buffers_err1_def thenK_Inr buf_state_mrs)
  have run: "setup_buffers api cbp w = Inr (0, buf_state w t (w_msgs w) (w_dmas w) ((w_ctxs w)(?p \<mapsto> ?cs)))"
    using s(1) P loop err1 by (simp add: setup_buffers_def bindK_Inr bindK_load seq errno_def)
  have "kfree_bufs_at cb 0 (buf_state w t (w_msgs w) (w_dmas w) ((w_ctxs w)(?p \<mapsto> ?cs))) = Inl BadFree"
    using P some len assms(6)
    by (simp add: kfree_bufs_at_def run_simps dma_unmap_single_def)
  then have "kfree_buffers cbp (buf_state w t (w_msgs w) (w_dmas w) ((w_ctxs w)(?p \<mapsto> ?cs))) = Inl BadFree"
    using P some by (simp add: kfree_buffers_def run_simps upt_conv_Cons bindK_Inl)
  with run show ?thesis by simp
qed

theorem setup_buffers_hides_mapping_failure_witness:
  "\<exists>w'. setup_buffers (sample_api\<lparr>ib_dma_map_single_ret := \<lambda>w d b n. 0\<rparr>) 64 sample_buf_world = Inr (0, w')
     \<and> kfree_buffers 64 w' = Inl BadFree"
proof -
  let ?api = "sample_api\<lparr>ib_dma_map_single_ret := \<lambda>w d b n. 0\<rparr>"
  have "alloc_sound ?api" using sample_alloc_sound by (simp add: alloc_sound_def)
  from setup_buffers_hides_mapping_failure[OF this sample_buf_pre] show ?thesis
    by (auto simp: sample_buf_world_def empty_world_def zero_ctx_def)
qed

text \<open>
  \<open>clone_cb\<close> leaves the listening control block and its contexts as they are. On success the
  new control block is a copy that owns a new array with the same contexts, and the child id
  refers to it. On failure no memory is left allocated, but when the second allocation fails the
  child id keeps referring to the control block that was just freed.
\<close>

theorem clone_cb_outcomes:
  assumes as: "alloc_sound api" and l: "l \<noteq> NULL" "w_cbs w l = Some lcb"
    and child: "cb_child_cm_id lcb \<noteq> NULL" "w_cmids w (cb_child_cm_id lcb) = Some idr"
    and cs: "cb_buf_ctxs lcb \<noteq> NULL" "w_ctxs w (cb_buf_ctxs lcb) = Some cs" "length cs = iters (cb_msgbuf_cnt lcb)"
  shows "\<exists>r w'. clone_cb api l w = Inr (r, w') \<and> w_cbs w' l = Some lcb \<and> w_ctxs w' (cb_buf_ctxs lcb) = Some cs
     \<and> (r \<noteq> NULL \<longrightarrow> r \<noteq> l \<and> (\<exists>p. p \<noteq> cb_buf_ctxs lcb \<and> w_cbs w' r = Some (lcb\<lparr>cb_buf_ctxs := p\<rparr>)
            \<and> w_ctxs w' p = Some cs \<and> w_cmids w' (cb_child_cm_id lcb) = Some (idr\<lparr>id_context := r\<rparr>)))
     \<and> (r = NULL \<longrightarrow> w_cbs w' = w_cbs w \<and> w_ctxs w' = w_ctxs w
          \<and> (w_cmids w' = w_cmids w
             \<or> (\<exists>p. w_cmids w' (cb_child_cm_id lcb) = Some (idr\<lparr>id_context := p\<rparr>) \<and> w_cbs w' p = None)))"
proof -
  define n where "n = sizeof_rdma_ch_cb api"
  define p where "p = kzalloc_ret api w n"
  let ?child = "cb_child_cm_id lcb" and ?src = "cb_buf_ctxs lcb"
  define m where "m = size_of_int (cb_msgbuf_cnt lcb) * sizeof_msgbuf_ctx api"
  define w1 where "w1 = w\<lparr>w_trace := EvAlloc p n # w_trace w, w_cbs := (w_cbs w)(p \<mapsto> lcb),
      w_cmids := (w_cmids w)(?child \<mapsto> idr\<lparr>id_context := p\<rparr>)\<rparr>"
  define q where "q = kzalloc_ret api w1 m"
  show ?thesis
  proof (cases "p = 0")
    case True
    then show ?thesis
      using l cs by (simp add: clone_cb_def run_simps Let_def p_def n_def)
  next
    case p: False
    have new: "w_cbs w p = None" using alloc_fresh(1)[OF as p_def[symmetric] p] .
    then have pl: "p \<noteq> l" using l by auto
    have run: "clone_cb api l w = (if q = 0
        then thenK (free_at w_cbs w_cbs_update p) (returnK 0)
          (w1\<lparr>w_trace := EvAlloc q m # w_trace w1, w_cbs := (w_cbs w)(p \<mapsto> lcb\<lparr>cb_buf_ctxs := q\<rparr>)\<rparr>)
        else thenK (forK (copy_ctx_at ?src q) [0..<length cs]) (returnK p)
          (w1\<lparr>w_trace := EvAlloc q m # w_trace w1,
             w_ctxs := (w_ctxs w)(q \<mapsto> replicate (length cs) zero_ctx),
             w_cbs := (w_cbs w)(p \<mapsto> lcb\<lparr>cb_buf_ctxs := q\<rparr>)\<rparr>))"
      using p pl l child cs
      by (simp add: clone_cb_def run_simps Let_def p_def[symmetric] n_def[symmetric] m_def[symmetric]
          w1_def q_def fun_upd_twist)
    show ?thesis
    proof (cases "q = 0")
      case True
      then show ?thesis
        using run p pl l cs new by (simp add: run_simps w1_def fun_upd_idem) (metis new)
    next
      case q: False
      have "w_ctxs w q = None" using alloc_fresh(2)[OF as q_def[symmetric] q] by (simp add: w1_def)
      then have qs: "q \<noteq> ?src" using cs by auto
      define w2 where "w2 = w1\<lparr>w_trace := EvAlloc q m # w_trace w1,
          w_ctxs := (w_ctxs w)(q \<mapsto> replicate (length cs) zero_ctx),
          w_cbs := (w_cbs w)(p \<mapsto> lcb\<lparr>cb_buf_ctxs := q\<rparr>)\<rparr>"
      have copied: "forK (copy_ctx_at ?src q) [0..<length cs] w2 = Inr ((), w2\<lparr>w_ctxs := (w_ctxs w2)(q \<mapsto> cs)\<rparr>)"
        using cs(1,2) q qs
        by (intro copy_ctxs_run[where zs = "replicate (length cs) zero_ctx"]) (simp_all add: w2_def)
      have "clone_cb api l w = Inr (p, w2\<lparr>w_ctxs := (w_ctxs w2)(q \<mapsto> cs)\<rparr>)"
        using run q copied by (simp add: thenK_Inr flip: w2_def)
      then show ?thesis using p pl qs l cs by (simp add: w2_def w1_def) (rule exI[of _ q], simp)
    qed
  qed
qed

theorem clone_cb_outcomes_witness:
  "\<exists>r w'. clone_cb sample_api 64 (sample_buf_world\<lparr>w_cbs := [64 \<mapsto> sample_cb\<lparr>cb_child_cm_id := 0x6000\<rparr>],
       w_cmids := [0x6000 \<mapsto> \<lparr>id_context = 64, id_qp = 0\<rparr>]\<rparr>) = Inr (r, w')
     \<and> w_ctxs w' 0x1000 = Some [zero_ctx\<lparr>ctx_seqn := 1\<rparr>]"
  using clone_cb_outcomes[OF sample_alloc_sound, where l = 64 and lcb = "sample_cb\<lparr>cb_child_cm_id := 0x6000\<rparr>"
      and cs = "[zero_ctx\<lparr>ctx_seqn := 1\<rparr>]" and idr = "\<lparr>id_context = 64, id_qp = 0\<rparr>"
      and w = "sample_buf_world\<lparr>w_cbs := [64 \<mapsto> sample_cb\<lparr>cb_child_cm_id := 0x6000\<rparr>],
       w_cmids := [0x6000 \<mapsto> \<lparr>id_context = 64, id_qp = 0\<rparr>]\<rparr>"]
  by (fastforce simp: sample_cb_def sample_buf_world_def iters_def)

end
