(* ===== verification/Kern_Fuel.thy ===== *)
theory Kern_Fuel
  imports Kern_World
begin

text \<open>
  Loops that poll a completion queue. Such a loop is bounded only by the device, so its model takes
  fuel; here is when the fuel is enough. The interface \<open>polling\<close> says what one iteration promises: it
  does not run out of fuel itself, and it goes on only after a poll that reported a completion.
\<close>

section \<open>Operations that do not poll\<close>

text \<open>
  The number of polls made so far, and operations that never run out of fuel and never lose a poll
  from the record of calls.
\<close>

definition is_poll :: "event \<Rightarrow> bool" where
  "is_poll e = (case e of EvPoll q r \<Rightarrow> True | _ \<Rightarrow> False)"

definition polls :: "world \<Rightarrow> nat" where
  "polls w = length (filter is_poll (w_trace w))"

definition fuel_safe :: "(world, 'a) kern \<Rightarrow> bool" where
  "fuel_safe m \<longleftrightarrow> (\<forall>w. m w \<noteq> Inl OutOfFuel \<and> (\<forall>a w'. m w = Inr (a, w') \<longrightarrow> polls w \<le> polls w'))"

named_theorems fuel_rules \<open>operations that are fuel safe\<close>

lemma fuel_safe_return [fuel_rules]: "fuel_safe (returnK a)" "e \<noteq> OutOfFuel \<Longrightarrow> fuel_safe (failK e)" "fuel_safe (getK g)"
  by (simp_all add: fuel_safe_def)

lemma fuel_safe_bindK [fuel_rules]: "fuel_safe m \<Longrightarrow> (\<And>a. fuel_safe (f a)) \<Longrightarrow> fuel_safe (bindK m f)"
  unfolding fuel_safe_def bindK_def by (fastforce split: sum.splits intro: order_trans)

lemma fuel_safe_thenK [fuel_rules]: "fuel_safe m \<Longrightarrow> fuel_safe n \<Longrightarrow> fuel_safe (thenK m n)"
  unfolding thenK_def by (intro fuel_safe_bindK)

lemma fuel_safe_if [fuel_rules]:
  "fuel_safe m \<Longrightarrow> fuel_safe n \<Longrightarrow> fuel_safe (if b then m else n)" "fuel_safe u \<Longrightarrow> fuel_safe (whenK b u)"
  by (simp_all add: whenK_def fuel_safe_return)

lemma fuel_safe_load [fuel_rules]: "fuel_safe (load get p)"
  by (auto simp: fuel_safe_def load_def split: option.splits)

lemma fuel_safe_heap [fuel_rules]:
  assumes "\<And>h w. w_trace (upd h w) = w_trace w"
  shows "fuel_safe (modify_at get upd p g)" "fuel_safe (create_at get upd p v)"
    "fuel_safe (release get upd p)" "fuel_safe (free_at get upd p)"
  using assms
  by (auto simp: fuel_safe_def modify_at_def create_at_def release_def free_at_def polls_def split: option.splits)

lemma fuel_safe_log [fuel_rules]: "fuel_safe (log_ev e)"
  by (simp add: fuel_safe_def log_ev_def polls_def)

lemma fuel_safe_ctx [fuel_rules]: "fuel_safe (get_ctx p i)" "fuel_safe (upd_ctx p i f)"
  unfolding get_ctx_def upd_ctx_def by (intro fuel_rules; simp)+

lemma fuel_safe_post_recv [fuel_rules]: "fuel_safe (ib_post_recv api qp wr)"
  unfolding ib_post_recv_def by (intro fuel_rules)

section \<open>Polling loops\<close>

text \<open>An iteration returns \<open>Inl\<close> to leave the loop with a result, \<open>Inr\<close> to go on.\<close>

primrec fuel_loop :: "nat \<Rightarrow> ('c \<Rightarrow> (world, 'r + 'c) kern) \<Rightarrow> 'c \<Rightarrow> (world, 'r) kern" where
  "fuel_loop 0 once c = failK OutOfFuel"
| "fuel_loop (Suc n) once c =
     bindK (once c) (\<lambda>x. case x of Inl ret \<Rightarrow> returnK ret | Inr c \<Rightarrow> fuel_loop n once c)"

lemma more_fuel: "fuel_loop n once c w \<noteq> Inl OutOfFuel \<Longrightarrow> n \<le> m \<Longrightarrow> fuel_loop m once c w = fuel_loop n once c w"
proof (induction n arbitrary: m w c)
  case (Suc n)
  then obtain m' where m: "m = Suc m'" "n \<le> m'" by (cases m) auto
  show ?case
    using Suc.prems(1) Suc.IH[OF _ m(2)] unfolding m(1) by (auto simp: bindK_def split: sum.splits)
qed simp

locale polling =
  fixes once :: "'c \<Rightarrow> (world, 'r + 'c) kern" and ready :: "world \<Rightarrow> bool"
  assumes once_fuel: "once c w \<noteq> Inl OutOfFuel"
    and once_polls: "once c w = Inr (Inr c', w') \<Longrightarrow> polls w < polls w' \<and> ready w"
begin

lemma loop_ends:
  assumes drain: "\<And>w. K \<le> polls w \<Longrightarrow> \<not> ready w"
  shows "K - polls w < n \<Longrightarrow> fuel_loop n once c w \<noteq> Inl OutOfFuel"
proof (induction n arbitrary: w c)
  case (Suc n)
  show ?case
  proof (cases "once c w")
    case (Inl e)
    then show ?thesis using once_fuel[of c w] by (simp add: bindK_Inl)
  next
    case (Inr y)
    obtain x w' where y: "y = (x, w')" by fastforce
    show ?thesis
    proof (cases x)
      case (Inl ret)
      then show ?thesis using Inr y by (simp add: bindK_Inr)
    next
      case (Inr c')
      have go: "once c w = Inr (Inr c', w')" using \<open>once c w = Inr y\<close> y Inr by simp
      from once_polls[OF this] drain[of w] have "polls w < polls w'" "polls w < K" by force+
      then have "K - polls w' < n" using Suc.prems by linarith
      then show ?thesis using Suc.IH[of w' c'] go by (simp add: bindK_Inr)
    qed
  qed
qed simp

end

end
