(* ===== verification/Rdma_Msg.thy ===== *)
theory Rdma_Msg
  imports Rdma_Buffers Kern_Fuel
begin

text \<open>
  Messages of a channel (\<^verbatim>\<open>rdma.c\<close>): sending through a message buffer, delivery of a received message
  to the upper layer, and the completion handler that polls the completion queue. The callback the
  upper layer registered is a parameter \<open>callf\<close>, applied to the function pointer and its argument.
  Completion polling is a loop that runs as long as the device reports completions, so it has fuel.
\<close>

section \<open>Helpers\<close>

text \<open>\<open>cb->buf_ctxs[id]\<close> with a signed index: a negative one is before the array.\<close>

definition ctx_at :: "rdma_ch_cb \<Rightarrow> c_int \<Rightarrow> (world, nat) kern" where
  "ctx_at cb k =
     (if sint k < 0 then failK OutOfBounds
      else thenK (get_ctx (cb_buf_ctxs cb) (nat (sint k))) (returnK (nat (sint k))))"

text \<open>\<open>memcpy\<close> of \<open>n\<close> bytes into the start of an array.\<close>

definition memcpy_bytes :: "byte list \<Rightarrow> byte list \<Rightarrow> u64 \<Rightarrow> (world, byte list) kern" where
  "memcpy_bytes dst src n =
     (if unat n \<le> length dst \<and> unat n \<le> length src then returnK (take (unat n) src @ drop (unat n) dst)
      else failK OutOfBounds)"

abbreviation (input) upd_msg :: "addr \<Rightarrow> (rdma_msg \<Rightarrow> rdma_msg) \<Rightarrow> (world, unit) kern" where
  "upd_msg \<equiv> modify_at w_msgs w_msgs_update"

abbreviation (input) upd_rmsg :: "addr \<Rightarrow> (rpc_msg \<Rightarrow> rpc_msg) \<Rightarrow> (world, unit) kern" where
  "upd_rmsg \<equiv> modify_at w_rmsgs w_rmsgs_update"

definition htonll :: "kapi \<Rightarrow> u64 \<Rightarrow> u64" where
  "htonll api x = cpu_to_be64 api x"

definition ntohll :: "kapi \<Rightarrow> u64 \<Rightarrow> u64" where
  "ntohll api x = cpu_to_be64 api x"

definition call_fn :: "(fnptr \<Rightarrow> addr \<Rightarrow> (world, unit) kern) \<Rightarrow> fnptr \<Rightarrow> addr \<Rightarrow> (world, unit) kern" where
  "call_fn callf f arg = (if f = FnNull then failK NullDeref else callf f arg)"

section \<open>Sending\<close>

definition alloc_seqn :: "addr \<Rightarrow> nat \<Rightarrow> (world, u64) kern" where
  "alloc_seqn cxs i =
     thenK (upd_ctx cxs i (\<lambda>c. c\<lparr>ctx_seqn := ctx_seqn c + 1\<rparr>))
     (bindK (get_ctx cxs i) (\<lambda>c. returnK (ctx_seqn c)))"

definition send_rdma_msg ::
    "kapi \<Rightarrow> addr \<Rightarrow> addr \<Rightarrow> addr \<Rightarrow> addr \<Rightarrow> c_int \<Rightarrow> u64 \<Rightarrow> (world, c_int) kern" where
  "send_rdma_msg api cbp rpc_ch data sem msgbuf_id seqn =
     bindK (get_cb cbp) (\<lambda>cb.
     if sint (cb_msgbuf_cnt cb) \<le> sint msgbuf_id then returnK 0
     else
       bindK (ctx_at cb msgbuf_id) (\<lambda>i.
       bindK (get_ctx (cb_buf_ctxs cb) i) (\<lambda>c. let msg = send_buf c in
       thenK (if seqn = 0
              then bindK (alloc_seqn (cb_buf_ctxs cb) i) (\<lambda>new_seqn.
                   upd_msg msg (\<lambda>m. m\<lparr>seq_num := htonll api new_seqn\<rparr>))
              else upd_msg msg (\<lambda>m. m\<lparr>seq_num := htonll api seqn\<rparr>))
       (thenK (upd_msg msg (\<lambda>m. m\<lparr>sem_addr := htonll api sem\<rparr>))
       (thenK (upd_msg msg (\<lambda>m. m\<lparr>rpc_ch_addr := htonll api rpc_ch\<rparr>))
       (bindK (load w_msgs msg) (\<lambda>m.
        bindK (load w_bytes data) (\<lambda>src.
        bindK (memcpy_bytes (msg_data m) src (size_of_int (cb_msgdata_size cb))) (\<lambda>bs.
        thenK (upd_msg msg (\<lambda>m. m\<lparr>msg_data := bs\<rparr>))
        (bindK (get_ctx (cb_buf_ctxs cb) i) (\<lambda>c.
         bindK (ib_post_send api (cb_qp cb) (sq_wr c)) (\<lambda>ret.
         if ret \<noteq> 0 then returnK 0 else returnK (cb_msgbuf_size cb)))))))))))))"

section \<open>Receiving\<close>

definition receive_msg ::
    "kapi \<Rightarrow> (fnptr \<Rightarrow> addr \<Rightarrow> (world, unit) kern) \<Rightarrow> addr \<Rightarrow> ib_wc \<Rightarrow> (world, c_int) kern" where
  "receive_msg api callf cbp wc =
     bindK (get_cb cbp) (\<lambda>cb.
     if wc_byte_len wc \<noteq> cb_msgbuf_size cb then returnK (- 1)
     else
       bindK (kzalloc_obj api w_rhs w_rhs_update (sizeof_rpc_msg_handler_param api) zero_rh_param) (\<lambda>rpc_param.
       if rpc_param = NULL then returnK (- ENOMEM)
       else
         bindK (kzalloc_obj api w_mhs w_mhs_update (sizeof_msg_handler_param api) zero_mh_param) (\<lambda>param.
         if param = NULL then
           thenK (free_at w_rhs w_rhs_update rpc_param) (returnK (- ENOMEM))
         else
           bindK (kzalloc_rpc_msg api (size_of_int (cb_msgbuf_size cb))) (\<lambda>msg.
           if msg = NULL then
             thenK (free_at w_mhs w_mhs_update param)
             (thenK (free_at w_rhs w_rhs_update rpc_param) (returnK (- ENOMEM)))
           else let msgbuf_id = ucast (wc_wr_id wc) in
             bindK (ctx_at cb msgbuf_id) (\<lambda>i.
             bindK (get_ctx (cb_buf_ctxs cb) i) (\<lambda>c.
             bindK (load w_msgs (recv_buf c)) (\<lambda>rb.
             thenK (upd_rmsg msg (\<lambda>m. m\<lparr>rpc_header := (rpc_header m)\<lparr>hdr_seqn := ntohll api (seq_num rb)\<rparr>\<rparr>))
             (thenK (upd_rmsg msg (\<lambda>m. m\<lparr>rpc_header := (rpc_header m)\<lparr>hdr_sem := ntohll api (sem_addr rb)\<rparr>\<rparr>))
             (thenK (upd_rmsg msg (\<lambda>m. m\<lparr>rpc_header := (rpc_header m)\<lparr>hdr_client_rpc_ch := ntohll api (rpc_ch_addr rb)\<rparr>\<rparr>))
             (bindK (load w_rmsgs msg) (\<lambda>m.
              bindK (memcpy_bytes (rpc_data m) (msg_data rb) (size_of_int (cb_msgdata_size cb))) (\<lambda>bs.
              thenK (upd_rmsg msg (\<lambda>m. m\<lparr>rpc_data := bs\<rparr>))
              (thenK (modify_at w_mhs w_mhs_update param
                  (\<lambda>p. p\<lparr>mh_msgbuf_id := msgbuf_id, mh_ch_cb := cbp, mh_msg := msg\<rparr>))
              (thenK (modify_at w_rhs w_rhs_update rpc_param
                  (\<lambda>p. p\<lparr>rh_msgbuf_id := msgbuf_id, rh_client_rpc_ch := ntohll api (rpc_ch_addr rb),
                        rh_param := param, rh_user_msg_handler_cb := cb_user_msg_handler_cb cb\<rparr>))
              (thenK (call_fn callf (cb_rpc_msg_handler_cb cb) rpc_param)
              (bindK (get_cb cbp) (\<lambda>cb.
               thenK (whenK (cb_state cb \<le> CONNECTED) (upd_cb cbp (\<lambda>c. c\<lparr>cb_state := WORKING\<rparr>)))
               (returnK 0))))))))))))))))))"

section \<open>Completions\<close>

definition cq_error :: "addr \<Rightarrow> c_int \<Rightarrow> (world, c_int) kern" where
  "cq_error cbp ret =
     thenK (upd_cb cbp (\<lambda>c. c\<lparr>cb_state := ERROR\<rparr>))
     (thenK (wake_up_interruptible_cb cbp) (returnK ret))"

text \<open>The handling of one successful receive completion, and the receive posted again.\<close>

definition cq_recv ::
    "kapi \<Rightarrow> (fnptr \<Rightarrow> addr \<Rightarrow> (world, unit) kern) \<Rightarrow> addr \<Rightarrow> ib_wc \<Rightarrow> (world, c_int) kern" where
  "cq_recv api callf cbp wc =
     bindK (receive_msg api callf cbp wc) (\<lambda>ret.
     if ret \<noteq> 0 then returnK ret
     else
       bindK (get_cb cbp) (\<lambda>cb.
       bindK (get_ctx (cb_buf_ctxs cb) (unat (wc_wr_id wc))) (\<lambda>c.
       ib_post_recv api (cb_qp cb) (rq_wr c))))"

text \<open>One completion: \<open>None\<close> to go on polling, \<open>Some ret\<close> for the jump to the error label.\<close>

definition handle_wc ::
    "kapi \<Rightarrow> (fnptr \<Rightarrow> addr \<Rightarrow> (world, unit) kern) \<Rightarrow> addr \<Rightarrow> ib_wc \<Rightarrow> (world, c_int option) kern" where
  "handle_wc api callf cbp wc =
     (case wc_opcode wc of
        IB_WC_SEND \<Rightarrow> returnK None
      | IB_WC_RDMA_WRITE \<Rightarrow> returnK None
      | IB_WC_RDMA_READ \<Rightarrow> returnK None
      | IB_WC_RECV \<Rightarrow>
          bindK (cq_recv api callf cbp wc) (\<lambda>ret. returnK (if ret \<noteq> 0 then Some ret else None))
      | IB_WC_OTHER _ \<Rightarrow> returnK (Some (- 1)))"

text \<open>
  One iteration of the polling loop: \<open>Inl ret\<close> when the function returns \<open>ret\<close>, \<open>Inr flushed\<close> to poll
  again with that value of the local variable.
\<close>

definition cq_once ::
    "kapi \<Rightarrow> (fnptr \<Rightarrow> addr \<Rightarrow> (world, unit) kern) \<Rightarrow> addr \<Rightarrow> c_int \<Rightarrow> (world, c_int + c_int) kern" where
  "cq_once api callf cbp flushed =
     bindK (get_cb cbp) (\<lambda>cb.
     bindK (ib_poll_cq api (cb_cq cb)) (\<lambda>(r, wc).
     if r \<noteq> 1 then
       (if r \<noteq> 0 then bindK (cq_error cbp r) (\<lambda>r. returnK (Inl r)) else returnK (Inl flushed))
     else case wc_status wc of
       IB_WC_WR_FLUSH_ERR \<Rightarrow> returnK (Inr 1)
     | IB_WC_OTHER_ERR _ \<Rightarrow> bindK (cq_error cbp (- 1)) (\<lambda>r. returnK (Inl r))
     | IB_WC_SUCCESS \<Rightarrow>
         bindK (handle_wc api callf cbp wc) (\<lambda>e.
         case e of
           Some ret \<Rightarrow> bindK (cq_error cbp ret) (\<lambda>r. returnK (Inl r))
         | None \<Rightarrow> returnK (Inr flushed))))"

primrec cq_loop ::
    "nat \<Rightarrow> kapi \<Rightarrow> (fnptr \<Rightarrow> addr \<Rightarrow> (world, unit) kern) \<Rightarrow> addr \<Rightarrow> c_int \<Rightarrow> (world, c_int) kern" where
  "cq_loop 0 api callf cbp flushed = failK OutOfFuel"
| "cq_loop (Suc n) api callf cbp flushed =
     bindK (cq_once api callf cbp flushed) (\<lambda>x.
     case x of Inl ret \<Rightarrow> returnK ret | Inr f \<Rightarrow> cq_loop n api callf cbp f)"

definition cq_event_handler ::
    "nat \<Rightarrow> kapi \<Rightarrow> (fnptr \<Rightarrow> addr \<Rightarrow> (world, unit) kern) \<Rightarrow> addr \<Rightarrow> (world, c_int) kern" where
  "cq_event_handler fuel api callf cbp = cq_loop fuel api callf cbp 0"

text \<open>
  The result of \<open>ib_req_notify_cq\<close> is not assigned, so the test that follows reads the uninitialised
  local variable: its value is the parameter \<open>garbage\<close>.
\<close>

definition cq_thread ::
    "nat \<Rightarrow> kapi \<Rightarrow> (fnptr \<Rightarrow> addr \<Rightarrow> (world, unit) kern) \<Rightarrow> c_int \<Rightarrow> addr \<Rightarrow> addr \<Rightarrow> (world, unit) kern" where
  "cq_thread fuel api callf garbage cq ctx =
     bindK (get_cb ctx) (\<lambda>cb.
     if cb_cq cb \<noteq> cq then failK BugOn
     else if cb_state cb = ERROR then returnK ()
     else
       thenK (ib_req_notify_cq api (cb_cq cb))
       (if garbage \<noteq> 0 then returnK ()
        else thenK (cq_event_handler fuel api callf ctx) (returnK ())))"

text \<open>What the environment runs while a thread of the module sleeps or spins.\<close>

definition module_intr ::
    "nat \<Rightarrow> kapi \<Rightarrow> (fnptr \<Rightarrow> addr \<Rightarrow> (world, unit) kern) \<Rightarrow> c_int \<Rightarrow> env_event \<Rightarrow> (world, unit) kern" where
  "module_intr fuel api callf garbage e =
     (case e of
        CmEvent cid ev \<Rightarrow> cm_deliver api cid ev
      | CqEvent cq \<Rightarrow> bindK (load w_cqs cq) (\<lambda>c. cq_thread fuel api callf garbage cq (cq_context c))
      | SignalEvent \<Rightarrow> returnK ())"

section \<open>What a send does\<close>

lemma memcpy_run [run_simps]:
  "unat n \<le> length dst \<Longrightarrow> unat n \<le> length src \<Longrightarrow>
   bindK (memcpy_bytes dst src n) f = f (take (unat n) src @ drop (unat n) dst)"
  "length dst < unat n \<or> length src < unat n \<Longrightarrow> bindK (memcpy_bytes dst src n) f = failK OutOfBounds"
  by (auto simp: memcpy_bytes_def)

lemma ctx_at_run [run_simps]:
  "0 \<le> sint k \<Longrightarrow> cb_buf_ctxs cb \<noteq> 0 \<Longrightarrow> w_ctxs w (cb_buf_ctxs cb) = Some cs \<Longrightarrow> nat (sint k) < length cs \<Longrightarrow>
   bindK (ctx_at cb k) f w = f (nat (sint k)) w"
  "sint k < 0 \<Longrightarrow> bindK (ctx_at cb k) f = failK OutOfBounds"
  by (simp_all add: ctx_at_def run_simps)

lemma alloc_seqn_run [run_simps]:
  "p \<noteq> 0 \<Longrightarrow> w_ctxs w p = Some cs \<Longrightarrow> i < length cs \<Longrightarrow>
   bindK (alloc_seqn p i) f w = f (ctx_seqn (cs ! i) + 1)
     (w\<lparr>w_ctxs := (w_ctxs w)(p \<mapsto> cs[i := (cs ! i)\<lparr>ctx_seqn := ctx_seqn (cs ! i) + 1\<rparr>])\<rparr>)"
  by (simp add: alloc_seqn_def run_simps)

lemma ib_post_send_run [run_simps]:
  "qp \<noteq> 0 \<Longrightarrow> w_qps w qp = Some v \<Longrightarrow> bindK (ib_post_send api qp wr) f w =
     (let r = ib_post_send_ret api w qp wr
      in f r (if r = 0 then w\<lparr>w_trace := EvPostSend qp wr # w_trace w\<rparr> else w))"
  by (simp add: ib_post_send_def run_simps Let_def whenK_def)

text \<open>
  The sequence number, the contexts and the message a send leaves behind, for the index \<open>i\<close> of the
  message buffer.
\<close>

definition sent_seqn :: "msgbuf_ctx list \<Rightarrow> nat \<Rightarrow> u64 \<Rightarrow> u64" where
  "sent_seqn cs i seqn = (if seqn = 0 then ctx_seqn (cs ! i) + 1 else seqn)"

definition sent_ctxs :: "msgbuf_ctx list \<Rightarrow> nat \<Rightarrow> u64 \<Rightarrow> msgbuf_ctx list" where
  "sent_ctxs cs i seqn = (if seqn = 0 then cs[i := (cs ! i)\<lparr>ctx_seqn := ctx_seqn (cs ! i) + 1\<rparr>] else cs)"

definition wire_msg :: "kapi \<Rightarrow> u64 \<Rightarrow> addr \<Rightarrow> addr \<Rightarrow> byte list \<Rightarrow> rdma_msg" where
  "wire_msg api seqn rpc_ch sem bs = \<lparr>seq_num = htonll api seqn, rpc_ch_addr = htonll api rpc_ch,
     sem_addr = htonll api sem, msg_data = bs\<rparr>"

definition sent_state ::
    "kapi \<Rightarrow> rdma_ch_cb \<Rightarrow> msgbuf_ctx list \<Rightarrow> nat \<Rightarrow> u64 \<Rightarrow> addr \<Rightarrow> addr \<Rightarrow> byte list \<Rightarrow> world \<Rightarrow> world" where
  "sent_state api cb cs i seqn rpc_ch sem src w =
     buf_state w (w_trace w)
       ((w_msgs w)(send_buf (cs ! i) \<mapsto> wire_msg api (sent_seqn cs i seqn) rpc_ch sem (take (data_len cb) src)))
       (w_dmas w) ((w_ctxs w)(cb_buf_ctxs cb \<mapsto> sent_ctxs cs i seqn))"

lemma buffers_okD:
  assumes "buffers_ok cbp cb cs pdv w" and "i < length cs"
  shows "send_buf (cs ! i) \<noteq> 0" "recv_buf (cs ! i) \<noteq> 0"
    "\<exists>m. w_msgs w (send_buf (cs ! i)) = Some m \<and> length (msg_data m) = data_len cb"
    "\<exists>m. w_msgs w (recv_buf (cs ! i)) = Some m \<and> length (msg_data m) = data_len cb"
    "ctx_wired cb pdv i (cs ! i)"
  using assms unfolding buffers_ok_def bufs_at[OF assms(2)] by auto

lemma wire_msg_eq:
  "m\<lparr>seq_num := htonll api s, sem_addr := htonll api q, rpc_ch_addr := htonll api r, msg_data := bs\<rparr>
     = wire_msg api s r q bs"
  by (cases m) (simp add: wire_msg_def)

lemma send_run:
  assumes ok: "buffers_ok cbp cb cs pdv w" and qp: "cb_qp cb \<noteq> 0" "w_qps w (cb_qp cb) = Some q"
    and k: "0 \<le> sint k" "sint k < sint (cb_msgbuf_cnt cb)"
    and data: "data \<noteq> 0" "w_bytes w data = Some src" "data_len cb \<le> length src"
  shows "send_rdma_msg api cbp rpc_ch data sem k seqn w =
     (let i = nat (sint k); w' = sent_state api cb cs i seqn rpc_ch sem src w;
          r = ib_post_send_ret api w' (cb_qp cb) (sq_wr (cs ! i))
      in Inr (if r = 0 then (cb_msgbuf_size cb, w'\<lparr>w_trace := EvPostSend (cb_qp cb) (sq_wr (cs ! i)) # w_trace w\<rparr>)
              else (0, w')))"
proof -
  let ?i = "nat (sint k)" and ?p = "cb_buf_ctxs cb"
  have P: "cbp \<noteq> 0" "w_cbs w cbp = Some cb" "?p \<noteq> 0" "w_ctxs w ?p = Some cs"
      "iters (cb_msgbuf_cnt cb) = length cs"
    using ok buf_preD[of cbp cb cs pdv w] by (simp_all add: buffers_ok_def)
  have i: "?i < length cs" using k P(5) by (simp add: iters_def)
  obtain m where m: "send_buf (cs ! ?i) \<noteq> 0" "w_msgs w (send_buf (cs ! ?i)) = Some m"
      "length (msg_data m) = data_len cb"
    using buffers_okD[OF ok i] by blast
  let ?w = "buf_state w (w_trace w) (w_msgs w) (w_dmas w) (w_ctxs w)"
  have "send_rdma_msg api cbp rpc_ch data sem k seqn ?w =
     (let w' = sent_state api cb cs ?i seqn rpc_ch sem src w;
          r = ib_post_send_ret api w' (cb_qp cb) (sq_wr (cs ! ?i))
      in Inr (if r = 0 then (cb_msgbuf_size cb, w'\<lparr>w_trace := EvPostSend (cb_qp cb) (sq_wr (cs ! ?i)) # w_trace w\<rparr>)
              else (0, w')))"
    using P i m qp k data
    by (cases "seqn = 0")
      (simp_all add: send_rdma_msg_def run_simps Let_def sent_state_def sent_seqn_def sent_ctxs_def
        data_len_def[symmetric] wire_msg_eq fun_upd_idem)
  then show ?thesis by (simp only: buf_state_id[symmetric] Let_def)
qed

lemma send_short_run:
  assumes ok: "buffers_ok cbp cb cs pdv w" and k: "0 \<le> sint k" "sint k < sint (cb_msgbuf_cnt cb)"
    and d: "data \<noteq> 0" "w_bytes w data = Some src" "length src < data_len cb"
  shows "send_rdma_msg api cbp rpc_ch data sem k seqn w = Inl OutOfBounds"
proof -
  have P: "cbp \<noteq> 0" "w_cbs w cbp = Some cb" "cb_buf_ctxs cb \<noteq> 0" "w_ctxs w (cb_buf_ctxs cb) = Some cs"
      "iters (cb_msgbuf_cnt cb) = length cs"
    using ok buf_preD[of cbp cb cs pdv w] by (simp_all add: buffers_ok_def)
  have i: "nat (sint k) < length cs" using k P(5) by (simp add: iters_def)
  obtain m where m: "send_buf (cs ! nat (sint k)) \<noteq> 0" "w_msgs w (send_buf (cs ! nat (sint k))) = Some m"
    using buffers_okD[OF ok i] by blast
  show ?thesis
    using P k d i m
    by (cases "seqn = 0") (simp_all add: send_rdma_msg_def run_simps Let_def data_len_def)
qed

section \<open>What a receive does\<close>

definition rx_state ::
    "world \<Rightarrow> event list \<Rightarrow> (addr \<Rightarrow> rpc_msg option) \<Rightarrow> (addr \<Rightarrow> msg_handler_param option)
     \<Rightarrow> (addr \<Rightarrow> rpc_msg_handler_param option) \<Rightarrow> world" where
  "rx_state w t R H P = w\<lparr>w_trace := t, w_rmsgs := R, w_mhs := H, w_rhs := P\<rparr>"

lemma rx_state_id: "w = rx_state w (w_trace w) (w_rmsgs w) (w_mhs w) (w_rhs w)"
  by (simp add: rx_state_def)

lemma rx_state_upd [simp]:
  "rx_state w t R H P\<lparr>w_trace := t'\<rparr> = rx_state w t' R H P"
  "rx_state w t R H P\<lparr>w_rmsgs := R'\<rparr> = rx_state w t R' H P"
  "rx_state w t R H P\<lparr>w_mhs := H'\<rparr> = rx_state w t R H' P"
  "rx_state w t R H P\<lparr>w_rhs := P'\<rparr> = rx_state w t R H P'"
  by (cases w; simp add: rx_state_def)+

lemma rx_state_sel [simp]:
  "w_trace (rx_state w t R H P) = t" "w_rmsgs (rx_state w t R H P) = R"
  "w_mhs (rx_state w t R H P) = H" "w_rhs (rx_state w t R H P) = P"
  "w_cbs (rx_state w t R H P) = w_cbs w" "w_ctxs (rx_state w t R H P) = w_ctxs w"
  "w_msgs (rx_state w t R H P) = w_msgs w" "w_qps (rx_state w t R H P) = w_qps w"
  "w_rpcs (rx_state w t R H P) = w_rpcs w" "w_bytes (rx_state w t R H P) = w_bytes w"
  "w_waitqs (rx_state w t R H P) = w_waitqs w" "w_pending (rx_state w t R H P) = w_pending w"
  "w_pds (rx_state w t R H P) = w_pds w" "w_cqs (rx_state w t R H P) = w_cqs w"
  "w_dmas (rx_state w t R H P) = w_dmas w" "w_cmids (rx_state w t R H P) = w_cmids w"
  "w_mrs (rx_state w t R H P) = w_mrs w"
  by (simp_all add: rx_state_def)

text \<open>The three objects handed to the upper layer for a received message \<open>m\<close> in buffer \<open>k\<close>.\<close>

definition rx_msg :: "kapi \<Rightarrow> rdma_msg \<Rightarrow> rpc_msg" where
  "rx_msg api m = \<lparr>rpc_header = \<lparr>hdr_seqn = ntohll api (seq_num m),
     hdr_client_rpc_ch = ntohll api (rpc_ch_addr m), hdr_sem = ntohll api (sem_addr m)\<rparr>, rpc_data = msg_data m\<rparr>"

definition rx_param :: "addr \<Rightarrow> c_int \<Rightarrow> addr \<Rightarrow> msg_handler_param" where
  "rx_param cbp k msg = \<lparr>mh_client_id = 0, mh_msgbuf_id = k, mh_ch_cb = cbp, mh_msg = msg\<rparr>"

definition rx_rpc_param :: "kapi \<Rightarrow> rdma_ch_cb \<Rightarrow> rdma_msg \<Rightarrow> c_int \<Rightarrow> addr \<Rightarrow> rpc_msg_handler_param" where
  "rx_rpc_param api cb m k param = \<lparr>rh_msgbuf_id = k, rh_client_rpc_ch = ntohll api (rpc_ch_addr m),
     rh_param = param, rh_user_msg_handler_cb = cb_user_msg_handler_cb cb\<rparr>"

lemma rx_eqs:
  "zero_mh_param\<lparr>mh_msgbuf_id := k, mh_ch_cb := cbp, mh_msg := msg\<rparr> = rx_param cbp k msg"
  "zero_rh_param\<lparr>rh_msgbuf_id := k, rh_client_rpc_ch := ntohll api (rpc_ch_addr m), rh_param := pa,
     rh_user_msg_handler_cb := cb_user_msg_handler_cb cb\<rparr> = rx_rpc_param api cb m k pa"
  "(zero_rpc_msg n)\<lparr>rpc_header := (rpc_header (zero_rpc_msg n))\<lparr>hdr_seqn := ntohll api (seq_num m),
     hdr_sem := ntohll api (sem_addr m), hdr_client_rpc_ch := ntohll api (rpc_ch_addr m)\<rparr>,
     rpc_data := msg_data m\<rparr> = rx_msg api m"
  "length (rpc_data (zero_rpc_msg n)) = n"
  by (simp_all add: rx_param_def rx_rpc_param_def rx_msg_def zero_defs)

text \<open>After the callback: a channel that is connected is now working.\<close>

definition rx_finish :: "addr \<Rightarrow> (world, c_int) kern" where
  "rx_finish cbp =
     bindK (get_cb cbp) (\<lambda>cb.
     thenK (whenK (cb_state cb \<le> CONNECTED) (upd_cb cbp (\<lambda>c. c\<lparr>cb_state := WORKING\<rparr>))) (returnK 0))"

lemma receive_cases:
  assumes as: "alloc_sound api" and ok: "buffers_ok cbp cb cs pdv w"
    and len: "wc_byte_len wc = cb_msgbuf_size cb"
    and k: "k = ucast (wc_wr_id wc)" "0 \<le> sint k" "sint k < sint (cb_msgbuf_cnt cb)"
    and m: "w_msgs w (recv_buf (cs ! nat (sint k))) = Some m"
  obtains (nomem) t where "receive_msg api callf cbp wc w = Inr (- 12, w\<lparr>w_trace := t\<rparr>)"
  | (called) rp pa msg t where "rp \<noteq> 0" "pa \<noteq> 0" "msg \<noteq> 0"
      "w_rhs w rp = None" "w_mhs w pa = None" "w_rmsgs w msg = None"
      "receive_msg api callf cbp wc w =
         thenK (call_fn callf (cb_rpc_msg_handler_cb cb) rp) (rx_finish cbp)
           (rx_state w t ((w_rmsgs w)(msg \<mapsto> rx_msg api m)) ((w_mhs w)(pa \<mapsto> rx_param cbp k msg))
              ((w_rhs w)(rp \<mapsto> rx_rpc_param api cb m k pa)))"
proof -
  let ?i = "nat (sint k)" and ?p = "cb_buf_ctxs cb"
  have P: "cbp \<noteq> 0" "w_cbs w cbp = Some cb" "?p \<noteq> 0" "w_ctxs w ?p = Some cs"
      "iters (cb_msgbuf_cnt cb) = length cs" "unat (buf_len cb) = HEADER_BYTES + data_len cb"
    using ok buf_preD[of cbp cb cs pdv w] by (simp_all add: buffers_ok_def)
  have i: "?i < length cs" using k P(5) by (simp add: iters_def)
  have b: "recv_buf (cs ! ?i) \<noteq> 0" "length (msg_data m) = data_len cb"
    using buffers_okD[OF ok i] m by auto
  define n1 where "n1 = sizeof_rpc_msg_handler_param api"
  define n2 where "n2 = sizeof_msg_handler_param api"
  define rp where "rp = kzalloc_ret api w n1"
  define w1 where "w1 = rx_state w (EvAlloc rp n1 # w_trace w) (w_rmsgs w) (w_mhs w) ((w_rhs w)(rp \<mapsto> zero_rh_param))"
  define pa where "pa = kzalloc_ret api w1 n2"
  define w2 where "w2 = rx_state w (EvAlloc pa n2 # EvAlloc rp n1 # w_trace w) (w_rmsgs w)
      ((w_mhs w)(pa \<mapsto> zero_mh_param)) ((w_rhs w)(rp \<mapsto> zero_rh_param))"
  define msg where "msg = kzalloc_ret api w2 (buf_len cb)"
  let ?t = "EvAlloc msg (buf_len cb) # EvAlloc pa n2 # EvAlloc rp n1 # w_trace w"
  let ?w3 = "rx_state w ?t ((w_rmsgs w)(msg \<mapsto> rx_msg api m)) ((w_mhs w)(pa \<mapsto> rx_param cbp k msg))
      ((w_rhs w)(rp \<mapsto> rx_rpc_param api cb m k pa))"
  have f1: "rp \<noteq> 0 \<Longrightarrow> w_rhs w rp = None" using alloc_fresh(8)[OF as rp_def[symmetric]] .
  have f2: "pa \<noteq> 0 \<Longrightarrow> w_mhs w pa = None" using alloc_fresh(7)[OF as pa_def[symmetric]] by (simp add: w1_def)
  have f3: "msg \<noteq> 0 \<Longrightarrow> w_rmsgs w msg = None" using alloc_fresh(4)[OF as msg_def[symmetric]] by (simp add: w2_def)
  have undo: "rx_state w t (w_rmsgs w) (w_mhs w) (w_rhs w) = w\<lparr>w_trace := t\<rparr>" for t
    by (cases w) (simp add: rx_state_def)
  let ?w = "rx_state w (w_trace w) (w_rmsgs w) (w_mhs w) (w_rhs w)"
  have allocs: "kzalloc_ret api ?w n1 = rp"
      "kzalloc_ret api (rx_state w (EvAlloc rp n1 # w_trace w) (w_rmsgs w) (w_mhs w) ((w_rhs w)(rp \<mapsto> zero_rh_param))) n2 = pa"
      "kzalloc_ret api (rx_state w (EvAlloc pa n2 # EvAlloc rp n1 # w_trace w) (w_rmsgs w)
        ((w_mhs w)(pa \<mapsto> zero_mh_param)) ((w_rhs w)(rp \<mapsto> zero_rh_param))) (buf_len cb) = msg"
    by (simp_all add: rp_def pa_def msg_def w1_def w2_def rx_state_id[symmetric])
  have "receive_msg api callf cbp wc ?w =
     (if rp = 0 then Inr (- 12, rx_state w (EvAlloc rp n1 # w_trace w) (w_rmsgs w) (w_mhs w) (w_rhs w))
      else if pa = 0 then Inr (- 12, rx_state w (EvAlloc pa n2 # EvAlloc rp n1 # w_trace w) (w_rmsgs w) (w_mhs w) (w_rhs w))
      else if msg = 0 then Inr (- 12, rx_state w ?t (w_rmsgs w) (w_mhs w) (w_rhs w))
      else thenK (call_fn callf (cb_rpc_msg_handler_cb cb) rp) (rx_finish cbp) ?w3)"
    using P i b len k(2,3) m f1 f2 f3
    by (simp add: receive_msg_def run_simps Let_def n1_def[symmetric] n2_def[symmetric] allocs k(1)[symmetric]
        fun_upd_idem put_new_def data_len_def[symmetric] rx_finish_def[symmetric]
        rx_eqs)
  then have run: "receive_msg api callf cbp wc w =
     (if rp = 0 then Inr (- 12, w\<lparr>w_trace := EvAlloc rp n1 # w_trace w\<rparr>)
      else if pa = 0 then Inr (- 12, w\<lparr>w_trace := EvAlloc pa n2 # EvAlloc rp n1 # w_trace w\<rparr>)
      else if msg = 0 then Inr (- 12, w\<lparr>w_trace := ?t\<rparr>)
      else thenK (call_fn callf (cb_rpc_msg_handler_cb cb) rp) (rx_finish cbp) ?w3)"
    by (simp only: rx_state_id[symmetric] undo)
  show thesis
  proof (cases "rp = 0 \<or> pa = 0 \<or> msg = 0")
    case True
    then have "\<exists>t. receive_msg api callf cbp wc w = Inr (- 12, w\<lparr>w_trace := t\<rparr>)"
      using run by (simp only: if_True if_False split: if_split) blast
    then show ?thesis using nomem by blast
  next
    case False
    then show ?thesis using called[of rp pa msg ?t] f1 f2 f3 run by simp
  qed
qed

section \<open>Sequence numbers\<close>

text \<open>The numbers \<open>n\<close> consecutive allocations return.\<close>

primrec alloc_seqns :: "nat \<Rightarrow> addr \<Rightarrow> nat \<Rightarrow> (world, u64 list) kern" where
  "alloc_seqns 0 cxs i = returnK []"
| "alloc_seqns (Suc n) cxs i =
     bindK (alloc_seqns n cxs i) (\<lambda>ss. bindK (alloc_seqn cxs i) (\<lambda>s. returnK (ss @ [s])))"

lemma alloc_seqns_run:
  assumes "p \<noteq> 0" and "w_ctxs w p = Some cs" and "i < length cs"
  shows "alloc_seqns n p i w = Inr (map (\<lambda>j. ctx_seqn (cs ! i) + of_nat (Suc j)) [0..<n],
     w\<lparr>w_ctxs := (w_ctxs w)(p \<mapsto> cs[i := (cs ! i)\<lparr>ctx_seqn := ctx_seqn (cs ! i) + of_nat n\<rparr>])\<rparr>)"
proof (induction n)
  case 0
  then show ?case using assms by (simp add: fun_upd_idem)
next
  case (Suc n)
  show ?case
    unfolding alloc_seqns.simps bindK_Inr[where m = "alloc_seqns n p i", OF Suc.IH]
    using assms by (simp add: alloc_seqn_run algebra_simps) (simp add: fun_upd_def)
qed

lemma of_nat_seq_inj: "i < 2 ^ 64 \<Longrightarrow> j < 2 ^ 64 \<Longrightarrow> (of_nat i :: u64) = of_nat j \<Longrightarrow> i = j"
  by (simp add: word_of_nat_eq_iff take_bit_nat_eq_self)

section \<open>Polling ends\<close>

lemma fuel_safe_calls [fuel_rules]:
  "fuel_safe (kzalloc_rpc_msg api n)" "fuel_safe (ctx_at cb k)" "fuel_safe (memcpy_bytes dst src len)"
  "fuel_safe (ib_post_recv api qp wr)" "fuel_safe (wake_up_interruptible_cb cbp)"
  "fuel_safe (kzalloc_obj api w_rhs w_rhs_update n zr)" "fuel_safe (kzalloc_obj api w_mhs w_mhs_update n zm)"
  unfolding kzalloc_rpc_msg_def kzalloc_obj_def ctx_at_def memcpy_bytes_def ib_post_recv_def
    wake_up_interruptible_cb_def
  by (intro fuel_rules; simp)+

definition calls_safe :: "(fnptr \<Rightarrow> addr \<Rightarrow> (world, unit) kern) \<Rightarrow> bool" where
  "calls_safe callf \<longleftrightarrow> (\<forall>f a. fuel_safe (callf f a))"

lemma fuel_safe_call_fn: "calls_safe callf \<Longrightarrow> fuel_safe (call_fn callf f a)"
  by (simp add: call_fn_def fuel_safe_return calls_safe_def)

lemma fuel_safe_receive:
  assumes "calls_safe callf"
  shows "fuel_safe (receive_msg api callf cbp wc)"
  unfolding receive_msg_def Let_def by (intro fuel_rules fuel_safe_call_fn assms; simp)

lemma fuel_safe_handle_wc:
  assumes "calls_safe callf"
  shows "fuel_safe (handle_wc api callf cbp wc)"
  unfolding handle_wc_def cq_recv_def
  by (cases "wc_opcode wc"; simp) (intro fuel_rules fuel_safe_receive assms)+

lemma fuel_safe_cq_error: "fuel_safe (cq_error cbp r)"
  unfolding cq_error_def by (intro fuel_rules; simp)

text \<open>Each poll is recorded.\<close>

lemma poll_counts:
  assumes "ib_poll_cq api q w = Inr ((r, wc), w')"
  shows "r = fst (ib_poll_cq_ret api w q) \<and> polls w' = Suc (polls w)"
  using assms
  by (auto simp: ib_poll_cq_def thenK_eq_Inr bindK_eq_Inr cqs.load_Inr log_ev_def polls_def is_poll_def
      split: prod.splits)

lemma poll_fuel: "ib_poll_cq api q w \<noteq> Inl OutOfFuel"
  by (auto simp: ib_poll_cq_def thenK_def bindK_def load_def log_ev_def split: option.splits sum.splits prod.splits)

text \<open>The outcomes of one iteration that returned.\<close>

lemma cq_once_outcome:
  assumes "cq_once api callf cbp fl w = Inr (x, w')"
  shows "\<exists>q r wc w1. ib_poll_cq api q w = Inr ((r, wc), w1) \<and>
     (r = 0 \<and> x = Inl fl \<and> w' = w1
      \<or> r = 1 \<and> x = Inr 1 \<and> w' = w1
      \<or> r = 1 \<and> x = Inr fl \<and> handle_wc api callf cbp wc w1 = Inr (None, w')
      \<or> (\<exists>e w2. e \<noteq> 0 \<and> cq_error cbp e w2 = Inr (e, w') \<and> x = Inl e))"
proof -
  have err: "cq_error cbp e s = Inr (r', s') \<Longrightarrow> r' = e" for e s r' s'
    by (auto simp: cq_error_def thenK_eq_Inr)
  have nz: "handle_wc api callf cbp wc s = Inr (Some e, s') \<Longrightarrow> e \<noteq> 0" for wc s e s'
    by (auto simp: handle_wc_def bindK_eq_Inr split: ib_wc_opcode.splits if_splits)
  from assms obtain cb :: rdma_ch_cb and r wc w1 where poll: "ib_poll_cq api (cb_cq cb) w = Inr ((r, wc), w1)"
    and rest: "(if r \<noteq> 1 then
       (if r \<noteq> 0 then bindK (cq_error cbp r) (\<lambda>r. returnK (Inl r)) else returnK (Inl fl))
     else case wc_status wc of
       IB_WC_WR_FLUSH_ERR \<Rightarrow> returnK (Inr 1)
     | IB_WC_OTHER_ERR _ \<Rightarrow> bindK (cq_error cbp (- 1)) (\<lambda>r. returnK (Inl r))
     | IB_WC_SUCCESS \<Rightarrow>
         bindK (handle_wc api callf cbp wc) (\<lambda>e.
         case e of
           Some ret \<Rightarrow> bindK (cq_error cbp ret) (\<lambda>r. returnK (Inl r))
         | None \<Rightarrow> returnK (Inr fl))) w1 = Inr (x, w')"
    unfolding cq_once_def by (auto simp: bindK_eq_Inr cbs.load_Inr)
  show ?thesis
  proof (cases "r = 1")
    case False
    then show ?thesis using poll rest err by (auto simp: bindK_eq_Inr split: if_splits) blast+
  next
    case True
    show ?thesis
    proof (cases "wc_status wc")
      case IB_WC_SUCCESS
      then obtain e w2 where h: "handle_wc api callf cbp wc w1 = Inr (e, w2)"
        and e: "(case e of Some ret \<Rightarrow> bindK (cq_error cbp ret) (\<lambda>r. returnK (Inl r))
          | None \<Rightarrow> returnK (Inr fl)) w2 = Inr (x, w')"
        using rest True by (auto simp: bindK_eq_Inr)
      then show ?thesis
        using poll True nz[of wc w1] err by (cases e) (auto simp: bindK_eq_Inr, blast+)
    next
      case IB_WC_WR_FLUSH_ERR
      then show ?thesis using poll rest True by auto
    next
      case (IB_WC_OTHER_ERR n)
      then obtain e where e: "cq_error cbp (- 1) w1 = Inr (e, w')" "x = Inl e"
        using rest True by (auto simp: bindK_eq_Inr)
      with err[OF e(1)] have "\<exists>e w2. e \<noteq> 0 \<and> cq_error cbp e w2 = Inr (e, w') \<and> x = Inl e" by fastforce
      then show ?thesis using poll by blast
    qed
  qed
qed

lemma cq_once_fuel:
  assumes "calls_safe callf"
  shows "cq_once api callf cbp fl w \<noteq> Inl OutOfFuel"
    and "cq_once api callf cbp fl w = Inr (Inr fl', w') \<Longrightarrow>
       polls w < polls w' \<and> (\<exists>q. fst (ib_poll_cq_ret api w q) = 1)"
proof -
  note safe = fuel_safe_handle_wc[OF assms, unfolded fuel_safe_def]
    fuel_safe_cq_error[unfolded fuel_safe_def]
  show "cq_once api callf cbp fl w \<noteq> Inl OutOfFuel"
    using safe poll_fuel
    by (auto simp: cq_once_def bindK_def load_def
        split: option.splits sum.splits prod.splits ib_wc_status.splits)
  assume "cq_once api callf cbp fl w = Inr (Inr fl', w')"
  from cq_once_outcome[OF this] obtain q wc w1 where p: "ib_poll_cq api q w = Inr ((1, wc), w1)"
    and rest: "w' = w1 \<or> handle_wc api callf cbp wc w1 = Inr (None, w')" by auto
  have "polls w1 \<le> polls w'" using rest safe(1) by auto
  then show "polls w < polls w' \<and> (\<exists>q. fst (ib_poll_cq_ret api w q) = 1)"
    using poll_counts[OF p] by (metis Suc_le_lessD)
qed

lemma cq_polling: "calls_safe callf \<Longrightarrow> polling (cq_once api callf cbp) (\<lambda>w. \<exists>q. fst (ib_poll_cq_ret api w q) = 1)"
  using cq_once_fuel by unfold_locales blast+

lemma cq_loop_fuel_loop: "cq_loop n api callf cbp fl = fuel_loop n (cq_once api callf cbp) fl"
  by (induction n arbitrary: fl) (simp_all cong: sum.case_cong)

lemma cq_loop_fuel:
  assumes callf: "calls_safe callf"
    and drain: "\<And>w q. K \<le> polls w \<Longrightarrow> fst (ib_poll_cq_ret api w q) \<noteq> 1"
  shows "K - polls w < n \<Longrightarrow> cq_loop n api callf cbp fl w \<noteq> Inl OutOfFuel"
  unfolding cq_loop_fuel_loop using polling.loop_ends[OF cq_polling[OF callf]] drain by blast

lemma cq_loop_more_fuel:
  "cq_loop n api callf cbp fl w \<noteq> Inl OutOfFuel \<Longrightarrow> n \<le> m \<Longrightarrow>
   cq_loop m api callf cbp fl w = cq_loop n api callf cbp fl w"
  unfolding cq_loop_fuel_loop by (rule more_fuel)

lemma cq_loop_outcome:
  assumes "cq_loop n api callf cbp fl w = Inr (r, w')" and "fl \<in> {0, 1}"
  shows "(\<exists>cb. w_cbs w' cbp = Some cb \<and> cb_state cb = ERROR) \<and> (\<exists>t. w_trace w' = EvWake cbp # t) \<and> r \<noteq> 0
     \<or> r \<in> {0, 1} \<and> (\<exists>q t. w_trace w' = EvPoll q 0 # t)"
  using assms
proof (induction n arbitrary: w fl)
  case (Suc n)
  have err: "cq_error cbp e s = Inr (r', s') \<Longrightarrow>
      r' = e \<and> (\<exists>cb. w_cbs s' cbp = Some cb \<and> cb_state cb = ERROR) \<and> (\<exists>t. w_trace s' = EvWake cbp # t)" for e s r' s'
    by (auto simp: cq_error_def thenK_eq_Inr cbs.modify_Inr wake_up_interruptible_cb_def cbs.load_Inr log_ev_def)
  have empty: "ib_poll_cq api q s = Inr ((0, wc), s') \<Longrightarrow> \<exists>q t. w_trace s' = EvPoll q 0 # t" for q s wc s'
    by (auto simp: ib_poll_cq_def thenK_eq_Inr bindK_eq_Inr cqs.load_Inr log_ev_def split: prod.splits)
  obtain x w1 where once: "cq_once api callf cbp fl w = Inr (x, w1)"
    and cont: "(case x of Inl ret \<Rightarrow> returnK ret | Inr f \<Rightarrow> cq_loop n api callf cbp f) w1 = Inr (r, w')"
    using Suc.prems(1) by (auto simp: bindK_eq_Inr)
  show ?case
  proof (cases x)
    case (Inl ret)
    then have "r = ret" "w' = w1" using cont by simp_all
    then show ?thesis using cq_once_outcome[OF once] Inl Suc.prems(2) empty err by (auto, (blast+)?)
  next
    case (Inr f)
    then have "f \<in> {0, 1}" using cq_once_outcome[OF once] Suc.prems(2) by auto
    then show ?thesis using Suc.IH[of f w1] cont Inr by simp
  qed
qed simp

section \<open>A concrete channel\<close>

definition sample_ctx :: msgbuf_ctx where
  "sample_ctx = wr_of sample_cb \<lparr>pd_device = 0x2000, local_dma_lkey = 7\<rparr> 0
     (zero_ctx\<lparr>ctx_seqn := 1, recv_buf := 16, send_buf := 32, recv_mr := 16, recv_mapping := 16,
        send_mr := 32, send_mapping := 32\<rparr>)"

definition sample_chan :: "rdma_msg \<Rightarrow> byte list \<Rightarrow> world" where
  "sample_chan m bs = sample_buf_world\<lparr>w_ctxs := [0x1000 \<mapsto> [sample_ctx]],
     w_msgs := [16 \<mapsto> m, 32 \<mapsto> zero_msg 8], w_dmas := [16 \<mapsto> (16, 32), 32 \<mapsto> (32, 32)],
     w_cqs := [0x4000 \<mapsto> \<lparr>cq_context = 64\<rparr>], w_qps := [0x5000 \<mapsto> \<lparr>qp_attr = qp_init_attr sample_cb\<rparr>],
     w_bytes := [0x7000 \<mapsto> bs]\<rparr>"

lemma sample_cb_sel:
  "cb_buf_ctxs sample_cb = 0x1000" "cb_msgbuf_cnt sample_cb = 1" "cb_msgdata_size sample_cb = 8"
  "cb_msgbuf_size sample_cb = msgbuf_size 8" "cb_qp sample_cb = 0x5000" "cb_cq sample_cb = 0x4000"
  "cb_pd sample_cb = 0x3000" "cb_state sample_cb = ROUTE_RESOLVED" "data_len sample_cb = 8"
  "cb_rpc_msg_handler_cb sample_cb = Fn_client_rpc_rdma_msg_handler"
  by (simp_all add: sample_cb_def data_len_def size_of_int_def)

lemma sample_ctx_sel:
  "send_buf sample_ctx = 32" "recv_buf sample_ctx = 16" "recv_mapping sample_ctx = 16"
  "send_mapping sample_ctx = 32" "ctx_seqn sample_ctx = 1"
  by (simp_all add: sample_ctx_def wr_of_def)

lemma sample_buffers_ok:
  assumes "length (msg_data m) = 8"
  shows "buffers_ok 64 sample_cb [sample_ctx] \<lparr>pd_device = 0x2000, local_dma_lkey = 7\<rparr> (sample_chan m bs)"
proof -
  have "ctx_wired sample_cb \<lparr>pd_device = 0x2000, local_dma_lkey = 7\<rparr> 0 sample_ctx"
    unfolding sample_ctx_def by (rule ctx_wired_of) simp_all
  moreover have "buf_pre 64 sample_cb [sample_ctx] \<lparr>pd_device = 0x2000, local_dma_lkey = 7\<rparr> (sample_chan m bs)"
    by (simp add: buf_pre_def sample_chan_def sample_buf_world_def sample_cb_sel iters_def)
  ultimately show ?thesis
    using assms
    by (simp add: buffers_ok_def bufs_def maps_def dma_objs_def sample_ctx_sel sample_chan_def sample_cb_sel
        zero_msg_def sample_sizes)
qed

lemma sample_chan_sel:
  "w_bytes (sample_chan m bs) 0x7000 = Some bs" "w_msgs (sample_chan m bs) 16 = Some m"
  "w_qps (sample_chan m bs) 0x5000 = Some \<lparr>qp_attr = qp_init_attr sample_cb\<rparr>"
  "w_ctxs (sample_chan m bs) 0x1000 = Some [sample_ctx]" "w_cbs (sample_chan m bs) 64 = Some sample_cb"
  "w_cqs (sample_chan m bs) 0x4000 = Some \<lparr>cq_context = 64\<rparr>"
  by (simp_all add: sample_chan_def sample_buf_world_def)

definition sample_wire :: rdma_msg where
  "sample_wire = wire_msg sample_api 2 0x80 0x90 [1, 2, 3, 4, 5, 6, 7, 8]"

lemma sample_send:
  "\<exists>w1. send_rdma_msg sample_api 64 0x80 0x7000 0x90 0 0 (sample_chan (zero_msg 8) [1, 2, 3, 4, 5, 6, 7, 8])
     = Inr (msgbuf_size 8, w1) \<and> w_msgs w1 32 = Some sample_wire"
  using send_run[OF sample_buffers_ok[of "zero_msg 8" "[1, 2, 3, 4, 5, 6, 7, 8]"], where k = 0 and data = "0x7000"
      and api = sample_api and rpc_ch = "0x80" and sem = "0x90" and seqn = 0]
  by (simp add: sample_cb_sel sample_chan_sel sample_ctx_sel sample_api_sel zero_msg_def Let_def sent_state_def
      sent_seqn_def sample_wire_def)

section \<open>Properties\<close>

text \<open>
  C13. A send through a message buffer of a channel that is set up writes into the send buffer of
  that context, in network byte order, the sequence number, the channel and the wait queue given,
  and the fixed number of data bytes; it takes the next sequence number of the context exactly when
  0 was passed, posts the context's own send request once, and changes nothing else. It returns the
  size of a message buffer, or 0 when posting failed.
\<close>

theorem send_rdma_msg_correct:
  assumes "buffers_ok cbp cb cs pdv w" and "cb_qp cb \<noteq> NULL" and "w_qps w (cb_qp cb) = Some q"
    and "0 \<le> sint k" and "sint k < sint (cb_msgbuf_cnt cb)"
    and "data \<noteq> NULL" and "w_bytes w data = Some src" and "data_len cb \<le> length src"
    and "i = nat (sint k)" and "s = (if seqn = 0 then ctx_seqn (cs ! i) + 1 else seqn)"
    and "cs' = (if seqn = 0 then cs[i := (cs ! i)\<lparr>ctx_seqn := s\<rparr>] else cs)"
    and "m = \<lparr>seq_num = htonll api s, rpc_ch_addr = htonll api rpc_ch, sem_addr = htonll api sem,
               msg_data = take (data_len cb) src\<rparr>"
    and "w' = w\<lparr>w_msgs := (w_msgs w)(send_buf (cs ! i) \<mapsto> m), w_ctxs := (w_ctxs w)(cb_buf_ctxs cb \<mapsto> cs')\<rparr>"
  shows "send_rdma_msg api cbp rpc_ch data sem k seqn w =
     (if ib_post_send_ret api w' (cb_qp cb) (sq_wr (cs ! i)) = 0
      then Inr (cb_msgbuf_size cb, w'\<lparr>w_trace := EvPostSend (cb_qp cb) (sq_wr (cs ! i)) # w_trace w\<rparr>)
      else Inr (0, w'))"
proof -
  have "sent_state api cb cs i seqn rpc_ch sem src w = w'"
    unfolding assms(10-13)
    by (simp add: sent_state_def sent_seqn_def sent_ctxs_def wire_msg_def buf_state_def)
  then show ?thesis
    using send_run[OF assms(1-8), of api rpc_ch sem seqn] assms(9) by (simp add: Let_def)
qed

theorem send_rdma_msg_correct_witness:
  "\<exists>w'. send_rdma_msg sample_api 64 0x80 0x7000 0x90 0 0 (sample_chan (zero_msg 8) [1, 2, 3, 4, 5, 6, 7, 8])
     = Inr (msgbuf_size 8, w') \<and> w_msgs w' 32 =
       Some \<lparr>seq_num = bswap64 2, rpc_ch_addr = bswap64 0x80, sem_addr = bswap64 0x90, msg_data = [1, 2, 3, 4, 5, 6, 7, 8]\<rparr>"
  using send_rdma_msg_correct[OF sample_buffers_ok[of "zero_msg 8" "[1, 2, 3, 4, 5, 6, 7, 8]"],
      where k = 0 and data = "0x7000" and api = sample_api and rpc_ch = "0x80" and sem = "0x90" and seqn = 0,
      OF _ _ _ _ _ _ _ _ refl refl refl refl refl]
  by (simp add: sample_cb_sel sample_chan_sel sample_ctx_sel sample_api_sel zero_msg_def htonll_def)

text \<open>
  What a send does outside its contract. An id past the last buffer is refused: nothing is
  written and 0 is returned. A negative id passes the same test and indexes memory before the array of
  contexts. Data shorter than the fixed data size of the channel is read past its end.
\<close>

theorem send_rdma_msg_guards:
  assumes ok: "buffers_ok cbp cb cs pdv w"
  shows "(sint (cb_msgbuf_cnt cb) \<le> sint k \<longrightarrow> send_rdma_msg api cbp rpc_ch data sem k seqn w = Inr (0, w))
     \<and> (sint k < 0 \<and> sint k < sint (cb_msgbuf_cnt cb) \<longrightarrow>
          send_rdma_msg api cbp rpc_ch data sem k seqn w = Inl OutOfBounds)
     \<and> (0 \<le> sint k \<and> sint k < sint (cb_msgbuf_cnt cb) \<and> data \<noteq> NULL
          \<and> w_bytes w data = Some src \<and> length src < data_len cb \<longrightarrow>
          send_rdma_msg api cbp rpc_ch data sem k seqn w = Inl OutOfBounds)"
proof (intro conjI impI; (elim conjE)?)
  have P: "cbp \<noteq> 0" "w_cbs w cbp = Some cb" "cb_buf_ctxs cb \<noteq> 0" "w_ctxs w (cb_buf_ctxs cb) = Some cs"
      "iters (cb_msgbuf_cnt cb) = length cs"
    using ok buf_preD[of cbp cb cs pdv w] by (simp_all add: buffers_ok_def)
  show "send_rdma_msg api cbp rpc_ch data sem k seqn w = Inr (0, w)" if "sint (cb_msgbuf_cnt cb) \<le> sint k"
    using P that by (simp add: send_rdma_msg_def run_simps)
  show "send_rdma_msg api cbp rpc_ch data sem k seqn w = Inl OutOfBounds"
    if "sint k < 0" "sint k < sint (cb_msgbuf_cnt cb)"
    using P that by (simp add: send_rdma_msg_def run_simps)
  assume k: "0 \<le> sint k" "sint k < sint (cb_msgbuf_cnt cb)"
    and d: "data \<noteq> 0" "w_bytes w data = Some src" "length src < data_len cb"
  show "send_rdma_msg api cbp rpc_ch data sem k seqn w = Inl OutOfBounds"
    using ok k d by (rule send_short_run)
qed

theorem send_rdma_msg_guards_witness:
  "send_rdma_msg sample_api 64 0x80 0x7000 0x90 1 0 (sample_chan (zero_msg 8) [1, 2]) =
       Inr (0, sample_chan (zero_msg 8) [1, 2])
   \<and> send_rdma_msg sample_api 64 0x80 0x7000 0x90 (- 1) 0 (sample_chan (zero_msg 8) [1, 2]) = Inl OutOfBounds
   \<and> send_rdma_msg sample_api 64 0x80 0x7000 0x90 0 0 (sample_chan (zero_msg 8) [1, 2]) = Inl OutOfBounds"
proof -
  note g = send_rdma_msg_guards[OF sample_buffers_ok[of "zero_msg 8" "[1, 2]"], where api = sample_api
      and rpc_ch = "0x80" and data = "0x7000" and sem = "0x90" and seqn = 0]
  show ?thesis
    using g[of 1] g[of "- 1"] g[of 0 "[1, 2]"] by (simp add: zero_msg_def sample_cb_sel sample_chan_sel)
qed

text \<open>
  The sequence numbers a message buffer hands out are consecutive modulo \<open>2^64\<close>, starting one
  above the stored number, and no number repeats within \<open>2^64\<close> of them. A context initialised with 1
  therefore starts at 2; only a context whose counter wrapped hands out 0, the value that asks
  \<open>send_rdma_msg\<close> for a new number.
\<close>

theorem sequence_numbers_consecutive:
  assumes "p \<noteq> NULL" and "w_ctxs w p = Some cs" and "i < length cs"
  shows "\<exists>w'. alloc_seqns n p i w = Inr (map (\<lambda>j. ctx_seqn (cs ! i) + of_nat (Suc j)) [0..<n], w')
     \<and> (n \<le> 2 ^ 64 \<longrightarrow> distinct (map (\<lambda>j. ctx_seqn (cs ! i) + of_nat (Suc j)) [0..<n]))"
proof -
  have "inj_on (\<lambda>j. ctx_seqn (cs ! i) + of_nat (Suc j)) {0..<n}" if "n \<le> 2 ^ 64"
    using that by (intro inj_onI) (auto intro!: of_nat_seq_inj)
  then show ?thesis using alloc_seqns_run[OF assms] by (auto simp: distinct_map)
qed

theorem sequence_numbers_consecutive_witness:
  "\<exists>w'. alloc_seqns 3 0x1000 0 (sample_chan (zero_msg 8) []) = Inr ([2, 3, 4], w')"
  using sequence_numbers_consecutive[where p = "0x1000" and i = 0 and cs = "[sample_ctx]" and n = 3
      and w = "sample_chan (zero_msg 8) []"]
  by (simp add: sample_chan_sel sample_ctx_sel upt_rec)

text \<open>
  C16. A completion with the wrong byte count is refused without touching memory. Otherwise a receive
  either runs out of memory, returns \<open>-ENOMEM\<close> and leaves no allocation behind, or calls the upper
  layer exactly once with new parameter objects that carry the buffer id, the control block, the
  user's handler and a copy of the received message in host byte order, and then moves a channel
  that was at most connected to \<open>WORKING\<close>.
\<close>

theorem receive_msg_outcomes:
  assumes as: "alloc_sound api" and ok: "buffers_ok cbp cb cs pdv w"
    and k: "k = ucast (wc_wr_id wc)" "0 \<le> sint k" "sint k < sint (cb_msgbuf_cnt cb)"
    and m: "w_msgs w (recv_buf (cs ! nat (sint k))) = Some m" and fn: "cb_rpc_msg_handler_cb cb \<noteq> FnNull"
  shows "if wc_byte_len wc \<noteq> cb_msgbuf_size cb then receive_msg api callf cbp wc w = Inr (- 1, w)
     else (\<exists>t. receive_msg api callf cbp wc w = Inr (- ENOMEM, w\<lparr>w_trace := t\<rparr>))
       \<or> (\<exists>rp pa msg w1. w_rhs w rp = None \<and> w_mhs w pa = None \<and> w_rmsgs w msg = None
            \<and> w_rhs w1 = (w_rhs w)(rp \<mapsto> \<lparr>rh_msgbuf_id = k, rh_client_rpc_ch = ntohll api (rpc_ch_addr m),
                  rh_param = pa, rh_user_msg_handler_cb = cb_user_msg_handler_cb cb\<rparr>)
            \<and> w_mhs w1 = (w_mhs w)(pa \<mapsto> \<lparr>mh_client_id = 0, mh_msgbuf_id = k, mh_ch_cb = cbp, mh_msg = msg\<rparr>)
            \<and> w_rmsgs w1 = (w_rmsgs w)(msg \<mapsto> \<lparr>rpc_header = \<lparr>hdr_seqn = ntohll api (seq_num m),
                  hdr_client_rpc_ch = ntohll api (rpc_ch_addr m), hdr_sem = ntohll api (sem_addr m)\<rparr>,
                  rpc_data = msg_data m\<rparr>)
            \<and> w_cbs w1 = w_cbs w \<and> w_ctxs w1 = w_ctxs w \<and> w_msgs w1 = w_msgs w
            \<and> (\<forall>w2 cb2. callf (cb_rpc_msg_handler_cb cb) rp w1 = Inr ((), w2) \<and> w_cbs w2 cbp = Some cb2 \<longrightarrow>
                 receive_msg api callf cbp wc w = Inr (0, w2\<lparr>w_cbs := (w_cbs w2)(cbp \<mapsto>
                   (if cb_state cb2 \<le> CONNECTED then cb2\<lparr>cb_state := WORKING\<rparr> else cb2))\<rparr>)))"
proof (cases "wc_byte_len wc = cb_msgbuf_size cb")
  case False
  have "cbp \<noteq> 0" "w_cbs w cbp = Some cb" using ok by (simp_all add: buffers_ok_def buf_pre_def)
  then show ?thesis using False by (simp add: receive_msg_def run_simps)
next
  case True
  have cbp: "cbp \<noteq> 0" using ok by (simp add: buffers_ok_def buf_pre_def)
  have fin: "rx_finish cbp w2 = Inr (0, w2\<lparr>w_cbs := (w_cbs w2)(cbp \<mapsto>
      (if cb_state cb2 \<le> CONNECTED then cb2\<lparr>cb_state := WORKING\<rparr> else cb2))\<rparr>)" if "w_cbs w2 cbp = Some cb2" for w2 cb2
    using that cbp by (simp add: rx_finish_def run_simps fun_upd_idem)
  from as ok True k m show ?thesis
  proof (cases rule: receive_cases[where callf = callf])
    case (nomem t)
    then show ?thesis using True by auto
  next
    case (called rp pa msg t)
    let ?w1 = "rx_state w t ((w_rmsgs w)(msg \<mapsto> rx_msg api m)) ((w_mhs w)(pa \<mapsto> rx_param cbp k msg))
              ((w_rhs w)(rp \<mapsto> rx_rpc_param api cb m k pa))"
    have post: "receive_msg api callf cbp wc w = Inr (0, w2\<lparr>w_cbs := (w_cbs w2)(cbp \<mapsto>
        (if cb_state cb2 \<le> CONNECTED then cb2\<lparr>cb_state := WORKING\<rparr> else cb2))\<rparr>)"
      if "callf (cb_rpc_msg_handler_cb cb) rp ?w1 = Inr ((), w2) \<and> w_cbs w2 cbp = Some cb2" for w2 cb2
      using called(7) that fn by (simp add: call_fn_def thenK_Inr fin)
    have shape: "w_rhs ?w1 = (w_rhs w)(rp \<mapsto> \<lparr>rh_msgbuf_id = k, rh_client_rpc_ch = ntohll api (rpc_ch_addr m),
          rh_param = pa, rh_user_msg_handler_cb = cb_user_msg_handler_cb cb\<rparr>)"
        "w_mhs ?w1 = (w_mhs w)(pa \<mapsto> \<lparr>mh_client_id = 0, mh_msgbuf_id = k, mh_ch_cb = cbp, mh_msg = msg\<rparr>)"
        "w_rmsgs ?w1 = (w_rmsgs w)(msg \<mapsto> \<lparr>rpc_header = \<lparr>hdr_seqn = ntohll api (seq_num m),
          hdr_client_rpc_ch = ntohll api (rpc_ch_addr m), hdr_sem = ntohll api (sem_addr m)\<rparr>, rpc_data = msg_data m\<rparr>)"
        "w_cbs ?w1 = w_cbs w" "w_ctxs ?w1 = w_ctxs w" "w_msgs ?w1 = w_msgs w"
      by (simp_all add: rx_msg_def rx_param_def rx_rpc_param_def)
    have sized: "\<not> wc_byte_len wc \<noteq> cb_msgbuf_size cb" using True by simp
    show ?thesis
      unfolding if_not_P[OF sized]
      by (intro disjI2 exI[of _ rp] exI[of _ pa] exI[of _ msg] exI[of _ ?w1] conjI allI impI)
        (rule called(4-6) shape post, assumption?)+
  qed
qed

definition sample_recv_wc :: ib_wc where
  "sample_recv_wc = \<lparr>wc_wr_id = 0, wc_status = IB_WC_SUCCESS, wc_opcode = IB_WC_RECV, wc_byte_len = msgbuf_size 8\<rparr>"

theorem receive_msg_outcomes_witness:
  "receive_msg sample_api (\<lambda>f a. returnK ()) 64 (sample_recv_wc\<lparr>wc_byte_len := 3\<rparr>) (sample_chan (zero_msg 8) [])
     = Inr (- 1, sample_chan (zero_msg 8) [])"
  using receive_msg_outcomes[OF sample_alloc_sound sample_buffers_ok[of "zero_msg 8" "[]"],
      where wc = "sample_recv_wc\<lparr>wc_byte_len := 3\<rparr>" and callf = "\<lambda>f a. returnK ()" and k = 0 and m = "zero_msg 8"]
  by (simp add: zero_msg_def sample_recv_wc_def sample_cb_sel sample_chan_sel sample_ctx_sel msgbuf_size_def
      msgheader_size_def HEADER_BYTES_def)



text \<open>
  C23. Polling ends: if the device reports no more completions after \<open>K\<close> polls and the upper layer's
  callback itself ends, the completion handler has the same outcome for every fuel above the polls
  still possible, and that outcome is not the exhaustion of fuel.
\<close>

theorem cq_event_handler_terminates:
  assumes "calls_safe callf"
    and "\<And>w q. K \<le> polls w \<Longrightarrow> fst (ib_poll_cq_ret api w q) \<noteq> 1"
  shows "\<exists>out. out \<noteq> Inl OutOfFuel \<and> (\<forall>fuel > K - polls w. cq_event_handler fuel api callf cbp w = out)"
proof (intro exI conjI allI impI)
  let ?n = "Suc (K - polls w)"
  show enough: "cq_event_handler ?n api callf cbp w \<noteq> Inl OutOfFuel"
    unfolding cq_event_handler_def using cq_loop_fuel[OF assms, where n = ?n and w = w] by simp
  fix fuel
  assume "K - polls w < fuel"
  then show "cq_event_handler fuel api callf cbp w = cq_event_handler ?n api callf cbp w"
    using enough unfolding cq_event_handler_def by (intro cq_loop_more_fuel) simp_all
qed

theorem cq_event_handler_terminates_witness:
  "\<exists>out. out \<noteq> Inl OutOfFuel
     \<and> (\<forall>fuel > 0. cq_event_handler fuel sample_api (\<lambda>f a. returnK ()) 64 (sample_chan (zero_msg 8) []) = out)"
  using cq_event_handler_terminates[where K = 0 and api = sample_api and callf = "\<lambda>f a. returnK ()"
      and cbp = 64 and w = "sample_chan (zero_msg 8) []"]
  by (simp add: calls_safe_def fuel_safe_return sample_api_sel)

text \<open>
  Whenever the completion handler returns, either the last poll found the queue empty and the
  result says only whether a flushed request was seen, or an error occurred, the result is not 0,
  the channel is in state \<open>ERROR\<close> and the last call was the wake-up of the waiting thread.
\<close>

theorem cq_event_handler_outcomes:
  assumes "cq_event_handler fuel api callf cbp w = Inr (r, w')"
  shows "(\<exists>cb. w_cbs w' cbp = Some cb \<and> cb_state cb = ERROR) \<and> (\<exists>t. w_trace w' = EvWake cbp # t) \<and> r \<noteq> 0
     \<or> r \<in> {0, 1} \<and> (\<exists>q t. w_trace w' = EvPoll q 0 # t)"
  using assms cq_loop_outcome[of fuel api callf cbp 0 w r w'] by (simp add: cq_event_handler_def)

lemma sample_cq_empty:
  "cq_event_handler 1 sample_api (\<lambda>f a. returnK ()) 64 (sample_chan (zero_msg 8) [])
     = Inr (0, (sample_chan (zero_msg 8) [])\<lparr>w_trace := [EvPoll 0x4000 0]\<rparr>)"
proof -
  have "w_trace (sample_chan (zero_msg 8) []) = []" by (simp add: sample_chan_def sample_buf_world_def empty_world_def)
  then show ?thesis
    by (simp add: cq_event_handler_def cq_once_def ib_poll_cq_def run_simps sample_chan_sel sample_cb_sel
        sample_api_sel)
qed

theorem cq_event_handler_outcomes_witness:
  "\<exists>r w'. cq_event_handler 1 sample_api (\<lambda>f a. returnK ()) 64 (sample_chan (zero_msg 8) []) = Inr (r, w') \<and> r \<in> {0, 1}"
  using sample_cq_empty cq_event_handler_outcomes[OF sample_cq_empty] by auto

text \<open>
  The completion callback re-arms notification but does not keep the result: whether it goes
  on to poll depends on an uninitialised variable. If that holds a non-zero value the completions
  are left in the queue and the waiting sender is never served; in state \<open>ERROR\<close> nothing is done at
  all, and with a foreign completion queue the module stops the kernel.
\<close>

theorem cq_thread_uninitialised_result:
  assumes "cbp \<noteq> NULL" and "w_cbs w cbp = Some cb" and "cb_cq cb \<noteq> NULL" and "w_cqs w (cb_cq cb) = Some c"
  shows "(cb_state cb \<noteq> ERROR \<and> garbage \<noteq> 0 \<longrightarrow> cq_thread fuel api callf garbage (cb_cq cb) cbp w
            = Inr ((), w\<lparr>w_trace := EvNotify (cb_cq cb) # w_trace w\<rparr>))
     \<and> (cb_state cb \<noteq> ERROR \<and> garbage = 0 \<longrightarrow> cq_thread fuel api callf garbage (cb_cq cb) cbp w
            = thenK (cq_event_handler fuel api callf cbp) (returnK ()) (w\<lparr>w_trace := EvNotify (cb_cq cb) # w_trace w\<rparr>))
     \<and> (cb_state cb = ERROR \<longrightarrow> cq_thread fuel api callf garbage (cb_cq cb) cbp w = Inr ((), w))
     \<and> (q \<noteq> cb_cq cb \<longrightarrow> cq_thread fuel api callf garbage q cbp w = Inl BugOn)"
  using assms by (simp add: cq_thread_def run_simps ib_req_notify_cq_def)

theorem cq_thread_uninitialised_result_witness:
  "cq_thread 1 sample_api (\<lambda>f a. returnK ()) 5 0x4000 64 (sample_chan (zero_msg 8) [])
     = Inr ((), (sample_chan (zero_msg 8) [])\<lparr>w_trace := EvNotify 0x4000 # w_trace (sample_chan (zero_msg 8) [])\<rparr>)"
  using cq_thread_uninitialised_result[where cbp = 64 and cb = sample_cb and c = "\<lparr>cq_context = 64\<rparr>"
      and w = "sample_chan (zero_msg 8) []" and fuel = 1 and api = sample_api and garbage = 5
      and callf = "\<lambda>f a. returnK ()"]
  by (simp add: sample_chan_sel sample_cb_sel)

end
