(* ===== verification/Rdma_Channel.thy ===== *)
theory Rdma_Channel
  imports Rdma_Msg
begin

text \<open>
  The life of a channel (\<^verbatim>\<open>rdma.c\<close>): \<open>init_rdma_ch\<close> allocates the control block and its contexts and
  runs the client set-up, \<open>run_client\<close> puts the steps of the other theories together, and
  \<open>destroy_rdma_client\<close> takes everything down again.
\<close>

section \<open>Set-up of a client\<close>

definition post_recv_at :: "kapi \<Rightarrow> rdma_ch_cb \<Rightarrow> nat \<Rightarrow> (world, c_int option) kern" where
  "post_recv_at api cb i =
     bindK (get_ctx (cb_buf_ctxs cb) i) (\<lambda>c.
     bindK (ib_post_recv api (cb_qp cb) (rq_wr c)) (\<lambda>ret.
     returnK (if ret \<noteq> 0 then Some ret else None)))"

text \<open>The error labels \<open>err2\<close> and \<open>err1\<close> of \<open>run_client\<close>.\<close>

definition run_client_err1 :: "addr \<Rightarrow> c_int \<Rightarrow> (world, c_int) kern" where
  "run_client_err1 cbp ret = thenK (kfree_qp cbp) (returnK ret)"

definition run_client_err2 :: "addr \<Rightarrow> c_int \<Rightarrow> (world, c_int) kern" where
  "run_client_err2 cbp ret = thenK (kfree_buffers cbp) (run_client_err1 cbp ret)"

text \<open>The last step: the connection is requested.\<close>

definition finish_client :: "kapi \<Rightarrow> (env_event \<Rightarrow> (world, unit) kern) \<Rightarrow> addr \<Rightarrow> (world, c_int) kern" where
  "finish_client api intr cbp =
     bindK (connect_client api intr cbp) (\<lambda>ret. if ret \<noteq> 0 then run_client_err2 cbp ret else returnK 0)"

definition run_client ::
    "kapi \<Rightarrow> (env_event \<Rightarrow> (world, unit) kern) \<Rightarrow> addr \<Rightarrow> (world, c_int) kern" where
  "run_client api intr cbp =
     bindK (bind_client api intr cbp) (\<lambda>ret.
     if ret \<noteq> 0 then returnK ret
     else
       bindK (get_cb cbp) (\<lambda>cb.
       bindK (setup_qp api cbp (cb_cm_id cb)) (\<lambda>ret.
       if ret \<noteq> 0 then returnK ret
       else
         bindK (setup_buffers api cbp) (\<lambda>ret.
         if ret \<noteq> 0 then run_client_err1 cbp ret
         else
           bindK (get_cb cbp) (\<lambda>cb.
           bindK (loopK (post_recv_at api cb) [0..<iters (cb_msgbuf_cnt cb)]) (\<lambda>r.
           case r of
             Some ret \<Rightarrow> run_client_err2 cbp ret
           | None \<Rightarrow> finish_client api intr cbp))))))"

section \<open>Creation and destruction\<close>

definition fill_sockaddr :: "byte list \<Rightarrow> c_int \<Rightarrow> sockaddr" where
  "fill_sockaddr ip port = \<lparr>sa_family = AF_INET, sa_port = ucast port, sa_addr = take 4 ip, sa_scope_id = 0\<rparr>"

definition init_ctx_at :: "addr \<Rightarrow> nat \<Rightarrow> (world, unit) kern" where
  "init_ctx_at cxs i = upd_ctx cxs i (\<lambda>c. c\<lparr>ctx_id := of_nat i, ctx_seqn := 1\<rparr>)"

definition attr_cb :: "rdma_ch_attr \<Rightarrow> rdma_ch_cb \<Rightarrow> rdma_ch_cb" where
  "attr_cb attr c = c\<lparr>cb_msgbuf_cnt := attr_msgbuf_cnt attr, cb_msgheader_size := msgheader_size,
     cb_msgdata_size := attr_msgdata_size attr, cb_msgbuf_size := msgbuf_size (attr_msgdata_size attr),
     cb_rpc_msg_handler_cb := attr_rpc_msg_handler_cb attr,
     cb_user_msg_handler_cb := attr_user_msg_handler_cb attr\<rparr>"

definition conn_cb :: "kapi \<Rightarrow> rdma_ch_attr \<Rightarrow> rdma_ch_cb \<Rightarrow> rdma_ch_cb" where
  "conn_cb api attr c =
     (let c = c\<lparr>cb_server := attr_server attr, cb_state := IDLE, cb_size := cb_msgbuf_size c,
            cb_sin := (cb_sin c)\<lparr>sa_family := AF_INET\<rparr>, cb_port := htons api (ucast (attr_port attr))\<rparr>;
          c = (if cb_server c = 0 then c\<lparr>cb_sin := fill_sockaddr (attr_ip_addr attr) (attr_port attr)\<rparr> else c)
      in c\<lparr>cb_cm_channel := NULL\<rparr>)"

text \<open>The labels \<open>out3\<close> (with \<open>out4\<close>) of \<open>init_rdma_ch\<close>.\<close>

definition init_rdma_ch_out3 :: "addr \<Rightarrow> (world, addr) kern" where
  "init_rdma_ch_out3 cbp =
     bindK (get_cb cbp) (\<lambda>cb.
     thenK (free_at w_ctxs w_ctxs_update (cb_buf_ctxs cb))
     (thenK (free_at w_cbs w_cbs_update cbp) (returnK NULL)))"

definition init_rdma_ch ::
    "kapi \<Rightarrow> (env_event \<Rightarrow> (world, unit) kern) \<Rightarrow> rdma_ch_attr \<Rightarrow> (world, addr) kern" where
  "init_rdma_ch api intr attr =
     bindK (kzalloc_obj api w_cbs w_cbs_update (sizeof_rdma_ch_cb api) zero_cb) (\<lambda>cbp.
     if cbp = NULL then returnK NULL
     else
       thenK (upd_cb cbp (attr_cb attr))
       (bindK (kzalloc_obj api w_ctxs w_ctxs_update
            (size_of_int (attr_msgbuf_cnt attr) * sizeof_msgbuf_ctx api)
            (replicate (iters (attr_msgbuf_cnt attr)) zero_ctx)) (\<lambda>cxs.
        thenK (upd_cb cbp (\<lambda>c. c\<lparr>cb_buf_ctxs := cxs\<rparr>))
        (if cxs = NULL then thenK (free_at w_cbs w_cbs_update cbp) (returnK NULL)
         else
           thenK (forK (init_ctx_at cxs) [0..<iters (attr_msgbuf_cnt attr)])
           (thenK (upd_cb cbp (conn_cb api attr))
           (bindK (rdma_create_id api cbp) (\<lambda>cm.
            thenK (upd_cb cbp (\<lambda>c. c\<lparr>cb_cm_id := cm\<rparr>))
            (if is_err api cm then init_rdma_ch_out3 cbp
             else
               bindK (get_cb cbp) (\<lambda>cb.
               if cb_server cb \<noteq> 0 then
                 thenK (rdma_destroy_id (cb_cm_id cb)) (init_rdma_ch_out3 cbp)
               else thenK (run_client api intr cbp) (returnK cbp))))))))))"

definition destroy_rdma_client :: "addr \<Rightarrow> (world, unit) kern" where
  "destroy_rdma_client cbp =
     bindK (get_cb cbp) (\<lambda>cb.
     if cb_server cb \<noteq> 0 then returnK ()
     else
       thenK (rdma_disconnect (cb_cm_id cb))
       (thenK (kfree_buffers cbp)
       (thenK (kfree_qp cbp)
       (thenK (rdma_destroy_id (cb_cm_id cb))
       (thenK (free_at w_ctxs w_ctxs_update (cb_buf_ctxs cb))
       (free_at w_cbs w_cbs_update cbp))))))"

section \<open>Taking a channel down\<close>

text \<open>A client channel in working order: buffers, queue pair and connection id are all there.\<close>

definition channel_ready :: "addr \<Rightarrow> rdma_ch_cb \<Rightarrow> msgbuf_ctx list \<Rightarrow> ib_pd \<Rightarrow> world \<Rightarrow> bool" where
  "channel_ready cbp cb cs pdv w \<longleftrightarrow> buffers_ok cbp cb cs pdv w \<and> qp_ready cbp cb w
     \<and> cb_server cb = 0 \<and> cb_cm_id cb \<noteq> NULL \<and> w_cmids w (cb_cm_id cb) \<noteq> None"

lemma buffers_ok_frame:
  "buffers_ok cbp cb cs pdv w \<Longrightarrow> w_cbs w' cbp = w_cbs w cbp \<Longrightarrow> w_ctxs w' = w_ctxs w \<Longrightarrow> w_pds w' = w_pds w \<Longrightarrow>
   w_msgs w' = w_msgs w \<Longrightarrow> w_dmas w' = w_dmas w \<Longrightarrow> buffers_ok cbp cb cs pdv w'"
  by (simp add: buffers_ok_def buf_pre_def)

lemma qp_ready_frame:
  "qp_ready cbp cb w \<Longrightarrow> w_pds w' = w_pds w \<Longrightarrow> w_cqs w' = w_cqs w \<Longrightarrow> w_qps w' = w_qps w \<Longrightarrow> qp_ready cbp cb w'"
  by (simp add: qp_ready_def)

text \<open>Both releases in a row, as the error path and the destructor do them.\<close>

lemma kfree_both_run:
  assumes ok: "buffers_ok cbp cb cs pdv w" and qp: "qp_ready cbp cb w"
  shows "thenK (kfree_buffers cbp) (thenK (kfree_qp cbp) k) w =
     k (buf_state w (w_trace w) (del_all (bufs cs) (w_msgs w)) (del_all (maps cs) (w_dmas w)) (w_ctxs w)
       \<lparr>w_pds := (w_pds w)(cb_pd cb := None), w_cqs := (w_cqs w)(cb_cq cb := None),
        w_qps := (w_qps w)(cb_qp cb := None)\<rparr>)"
proof -
  let ?w1 = "buf_state w (w_trace w) (del_all (bufs cs) (w_msgs w)) (del_all (maps cs) (w_dmas w)) (w_ctxs w)"
  have cb: "cbp \<noteq> 0" "w_cbs ?w1 cbp = Some cb" using ok by (simp_all add: buffers_ok_def buf_pre_def)
  have "qp_ready cbp cb ?w1" using qp by (rule qp_ready_frame) simp_all
  from kfree_qp_run[OF cb this] kfree_buffers_run[OF ok] show ?thesis by (simp add: thenK_Inr)
qed

definition torn_down :: "rdma_ch_cb \<Rightarrow> addr \<Rightarrow> msgbuf_ctx list \<Rightarrow> world \<Rightarrow> world \<Rightarrow> bool" where
  "torn_down cb cbp cs w w' \<longleftrightarrow>
     w_cbs w' = (w_cbs w)(cbp := None) \<and> w_ctxs w' = (w_ctxs w)(cb_buf_ctxs cb := None)
     \<and> w_msgs w' = del_all (bufs cs) (w_msgs w) \<and> w_dmas w' = del_all (maps cs) (w_dmas w)
     \<and> w_pds w' = (w_pds w)(cb_pd cb := None) \<and> w_cqs w' = (w_cqs w)(cb_cq cb := None)
     \<and> w_qps w' = (w_qps w)(cb_qp cb := None) \<and> w_cmids w' = (w_cmids w)(cb_cm_id cb := None)
     \<and> w_rmsgs w' = w_rmsgs w \<and> w_rpcs w' = w_rpcs w \<and> w_bytes w' = w_bytes w \<and> w_mhs w' = w_mhs w
     \<and> w_rhs w' = w_rhs w \<and> w_waitqs w' = w_waitqs w \<and> w_mrs w' = w_mrs w \<and> w_pending w' = w_pending w
     \<and> w_trace w' = EvDisconnect (cb_cm_id cb) # w_trace w"

lemma destroy_run:
  assumes ready: "channel_ready cbp cb cs pdv w"
  shows "\<exists>w'. destroy_rdma_client cbp w = Inr ((), w') \<and> torn_down cb cbp cs w w'"
proof -
  let ?w0 = "w\<lparr>w_trace := EvDisconnect (cb_cm_id cb) # w_trace w\<rparr>"
  have P: "cbp \<noteq> 0" "w_cbs w cbp = Some cb" "cb_buf_ctxs cb \<noteq> 0" "w_ctxs w (cb_buf_ctxs cb) = Some cs"
    using ready by (auto simp: channel_ready_def buffers_ok_def buf_pre_def)
  obtain idr where c: "cb_server cb = 0" "cb_cm_id cb \<noteq> 0" "w_cmids w (cb_cm_id cb) = Some idr"
    using ready by (auto simp: channel_ready_def)
  have "buffers_ok cbp cb cs pdv ?w0" "qp_ready cbp cb ?w0"
    using ready buffers_ok_frame[of cbp cb cs pdv w ?w0] qp_ready_frame[of cbp cb w ?w0]
    by (simp_all add: channel_ready_def)
  note rel = kfree_both_run[OF this]
  show ?thesis
    using P c by (simp add: destroy_rdma_client_def run_simps rdma_disconnect_def rdma_destroy_id_def rel torn_down_def)
qed

section \<open>Bringing a channel up\<close>

definition posted :: "rdma_ch_cb \<Rightarrow> msgbuf_ctx list \<Rightarrow> event list" where
  "posted cb cs = rev (map (\<lambda>c. EvPostRecv (cb_qp cb) (rq_wr c)) cs)"

lemma post_loop_run:
  assumes p: "cb_buf_ctxs cb \<noteq> 0" "w_ctxs w (cb_buf_ctxs cb) = Some cs"
    and qp: "cb_qp cb \<noteq> 0" "w_qps w (cb_qp cb) = Some v"
    and api: "\<And>w wr. ib_post_recv_ret api w (cb_qp cb) wr = 0"
  shows "loopK (post_recv_at api cb) [0..<length cs] w = Inr (None, w\<lparr>w_trace := posted cb cs @ w_trace w\<rparr>)"
proof -
  define J where "J i s \<longleftrightarrow> s = w\<lparr>w_trace := posted cb (take i cs) @ w_trace w\<rparr>" for i s
  have step: "runs (J i) (post_recv_at api cb i) (\<lambda>r s. case r of None \<Rightarrow> J (Suc i) s | Some x \<Rightarrow> False)"
    if "i < length cs" for i
    using that p qp
    by (auto simp: runs_def J_def post_recv_at_def run_simps Let_def api posted_def take_Suc_conv_app_nth)
  have "J 0 w" by (simp add: J_def posted_def)
  from runsD[OF runs_loopK[of "length cs" J _ "\<lambda>_ _. False", OF step] this]
  obtain r s where "loopK (post_recv_at api cb) [0..<length cs] w = Inr (r, s)"
    "case r of None \<Rightarrow> J (length cs) s | Some x \<Rightarrow> False" by blast
  then show ?thesis by (cases r) (simp_all add: J_def)
qed

text \<open>
  What the environment does on a good day: connection-manager events reach the event handler,
  addresses and routes resolve, notification and receives can be posted. The allocations and the
  creation of verbs objects may still fail.
\<close>

definition good_env :: "kapi \<Rightarrow> (env_event \<Rightarrow> (world, unit) kern) \<Rightarrow> addr \<Rightarrow> bool" where
  "good_env api intr cid \<longleftrightarrow>
     alloc_sound api \<and> verbs_sound api \<and> err_ptr_sound api
     \<and> (\<forall>c ev. intr (CmEvent c ev) = cm_deliver api c ev)
     \<and> (\<forall>w sa. rdma_resolve_addr_ret api w cid sa = 0) \<and> (\<forall>w. rdma_resolve_route_ret api w cid = 0)
     \<and> (\<forall>w q. ib_req_notify_cq_ret api w q = 0) \<and> (\<forall>w q wr. ib_post_recv_ret api w q wr = 0)"

text \<open>A control block as \<open>init_rdma_ch\<close> hands it to \<open>run_client\<close>.\<close>

definition client_pre :: "addr \<Rightarrow> addr \<Rightarrow> rdma_cm_id \<Rightarrow> rdma_ch_cb \<Rightarrow> msgbuf_ctx list \<Rightarrow> world \<Rightarrow> bool" where
  "client_pre cid cbp idr cb cs w \<longleftrightarrow> conn_ok cid cbp idr cb w \<and> cb_cm_id cb = cid \<and> cb_server cb = 0
     \<and> cb_state cb < ROUTE_RESOLVED
     \<and> cb_buf_ctxs cb \<noteq> NULL \<and> w_ctxs w (cb_buf_ctxs cb) = Some cs \<and> length cs = iters (cb_msgbuf_cnt cb)
     \<and> cb_msgbuf_size cb = msgbuf_size (cb_msgdata_size cb)
     \<and> 0 \<le> sint (cb_msgdata_size cb) \<and> sint (cb_msgdata_size cb) < 2 ^ 31 - 24"

text \<open>The control block once its route is resolved and its queue pair exists.\<close>

definition up_cb :: "rdma_ch_cb \<Rightarrow> addr \<Rightarrow> addr \<Rightarrow> addr \<Rightarrow> rdma_ch_cb" where
  "up_cb cb pd cq q =
     qp_cb (cb\<lparr>cb_sin := (cb_sin cb)\<lparr>sa_port := cb_port cb\<rparr>, cb_state := ROUTE_RESOLVED\<rparr>) pd cq q"

lemma up_cb_sel [simp]:
  "cb_pd (up_cb cb pd cq q) = pd" "cb_cq (up_cb cb pd cq q) = cq" "cb_qp (up_cb cb pd cq q) = q"
  "cb_buf_ctxs (up_cb cb pd cq q) = cb_buf_ctxs cb" "cb_msgbuf_cnt (up_cb cb pd cq q) = cb_msgbuf_cnt cb"
  "cb_msgbuf_size (up_cb cb pd cq q) = cb_msgbuf_size cb" "cb_msgdata_size (up_cb cb pd cq q) = cb_msgdata_size cb"
  "cb_state (up_cb cb pd cq q) = ROUTE_RESOLVED" "cb_server (up_cb cb pd cq q) = cb_server cb"
  "cb_cm_id (up_cb cb pd cq q) = cb_cm_id cb" "data_len (up_cb cb pd cq q) = data_len cb"
  "cb_user_msg_handler_cb (up_cb cb pd cq q) = cb_user_msg_handler_cb cb"
  "cb_rpc_msg_handler_cb (up_cb cb pd cq q) = cb_rpc_msg_handler_cb cb"
  by (simp_all add: up_cb_def qp_cb_def data_len_def)

text \<open>The state just before the connection is requested, relative to the state \<open>w\<close> at the start.\<close>

definition built ::
    "addr \<Rightarrow> addr \<Rightarrow> rdma_cm_id \<Rightarrow> rdma_ch_cb \<Rightarrow> msgbuf_ctx list \<Rightarrow> world \<Rightarrow> env_event list
     \<Rightarrow> addr \<Rightarrow> ib_pd \<Rightarrow> addr \<Rightarrow> addr \<Rightarrow> msgbuf_ctx list \<Rightarrow> world \<Rightarrow> bool" where
  "built cid cbp idr cb cs w es pd pdv cq q cs' W \<longleftrightarrow>
     (\<exists>t. W = buf_state (qp_done cid cbp idr
           (cb\<lparr>cb_sin := (cb_sin cb)\<lparr>sa_port := cb_port cb\<rparr>, cb_state := ROUTE_RESOLVED\<rparr>) pd pdv cq q w)
         (posted (up_cb cb pd cq q) (wired (up_cb cb pd cq q) pdv cs') @ t)
         (put_all (buf_objs (zero_msg (data_len cb)) cs') (w_msgs w))
         (put_all (dma_objs (buf_len cb) cs') (w_dmas w))
         ((w_ctxs w)(cb_buf_ctxs cb \<mapsto> wired (up_cb cb pd cq q) pdv cs'))\<lparr>w_pending := es\<rparr>)
     \<and> pd \<noteq> NULL \<and> cq \<noteq> NULL \<and> q \<noteq> NULL \<and> w_pds w pd = None \<and> w_cqs w cq = None \<and> w_qps w q = None
     \<and> ctxs_kept cs cs' \<and> fresh_keys (bufs cs') (w_msgs w) \<and> fresh_keys (maps cs') (w_dmas w) \<and> mr_mapped cs'"

lemma qp_done_frame:
  "qp_done cid cbp idr cb pd pdv cq q (w\<lparr>w_cbs := (w_cbs w)(cbp \<mapsto> x), w_trace := t, w_pending := es\<rparr>) =
   qp_done cid cbp idr cb pd pdv cq q w\<lparr>w_trace := EvNotify cq # t, w_pending := es\<rparr>"
  by (cases w) (simp add: qp_done_def)

lemma client_preD:
  assumes "client_pre cid cbp idr cb cs w"
  shows "conn_ok cid cbp idr cb w" "cb_cm_id cb = cid" "cb_server cb = 0" "cb_state cb < ROUTE_RESOLVED"
    "cbp \<noteq> 0" "cid \<noteq> 0"
  using assms by (auto simp: client_pre_def conn_ok_def)

lemma good_envD:
  assumes "good_env api intr cid"
  shows "alloc_sound api" "verbs_sound api" "err_ptr_sound api"
    "\<And>c ev. intr (CmEvent c ev) = cm_deliver api c ev"
    "\<And>w sa. rdma_resolve_addr_ret api w cid sa = 0" "\<And>w. rdma_resolve_route_ret api w cid = 0"
    "\<And>w q. ib_req_notify_cq_ret api w q = 0" "\<And>w q wr. ib_post_recv_ret api w q wr = 0"
  using assms by (simp_all add: good_env_def)

lemma buf_state_pending:
  "buf_state (w\<lparr>w_trace := x, w_pending := es\<rparr>) t M D C = buf_state w t M D C\<lparr>w_pending := es\<rparr>"
  by (cases w) (simp add: buf_state_def)

lemma buf_state_trace_pending:
  "buf_state w t M D C\<lparr>w_pending := es, w_trace := t'\<rparr> = buf_state w t' M D C\<lparr>w_pending := es\<rparr>"
  by (cases w) (simp add: buf_state_def)

lemma run_client_cases:
  assumes env: "good_env api intr cid" and pre: "client_pre cid cbp idr cb cs w"
    and evs: "w_pending w = CmEvent cid RDMA_CM_EVENT_ADDR_RESOLVED # CmEvent cid RDMA_CM_EVENT_ROUTE_RESOLVED # es"
  obtains (failed) r w' cb' where "run_client api intr cbp w = Inr (r, w')" "r \<noteq> 0"
      "w_cbs w' cbp = Some cb'" "cb_state cb' = ROUTE_RESOLVED"
  | (faulty) "run_client api intr cbp w = Inl BadFree"
  | (up) pd pdv cq q cs' W where "built cid cbp idr cb cs w es pd pdv cq q cs' W"
      "run_client api intr cbp w = finish_client api intr cbp W"
  | (undone) pd cq q cs' W where "conn_ok cid cbp (idr\<lparr>id_qp := q\<rparr>) (up_cb cb pd cq q) W" "w_pending W = es"
      "w_ctxs W (cb_buf_ctxs cb) = Some cs'" "\<exists>c\<in>set cs'. recv_mr c = 0 \<or> send_mr c = 0"
      "run_client api intr cbp w = finish_client api intr cbp W"
proof -
  note E = good_envD[OF env] and P = client_preD[OF pre]
  note no_map = undone and no_mr = faulty
  let ?cb1 = "cb\<lparr>cb_sin := (cb_sin cb)\<lparr>sa_port := cb_port cb\<rparr>, cb_state := ROUTE_RESOLVED\<rparr>"
  obtain t where bind: "bind_client api intr cbp w =
      Inr (0, w\<lparr>w_cbs := (w_cbs w)(cbp \<mapsto> ?cb1), w_trace := t, w_pending := es\<rparr>)"
    using bind_client_run[where intr = intr, OF E(4) P(1,2) E(5,6) P(4) evs] by blast
  let ?w1 = "w\<lparr>w_cbs := (w_cbs w)(cbp \<mapsto> ?cb1), w_trace := t, w_pending := es\<rparr>"
  have ok1: "conn_ok cid cbp idr ?cb1 ?w1" using P(1) by (simp add: conn_ok_def)
  have run1: "run_client api intr cbp w = bindK (setup_qp api cbp cid) (\<lambda>ret.
       if ret \<noteq> 0 then returnK ret
       else
         bindK (setup_buffers api cbp) (\<lambda>ret.
         if ret \<noteq> 0 then run_client_err1 cbp ret
         else
           bindK (get_cb cbp) (\<lambda>cb.
           bindK (loopK (post_recv_at api cb) [0..<iters (cb_msgbuf_cnt cb)]) (\<lambda>r.
           case r of
             Some ret \<Rightarrow> run_client_err2 cbp ret
           | None \<Rightarrow> finish_client api intr cbp)))) ?w1"
    using P by (simp add: run_client_def bindK_Inr[where m = "bind_client api intr cbp", OF bind] run_simps)
  have "cb_cm_id ?cb1 = cid" "cb_server ?cb1 = 0" using P by simp_all
  from setup_qp_outcome[OF ok1 this E(2,3,7)] show thesis
  proof (elim disjE exE conjE)
    fix r w' pd cq t'
    assume "setup_qp api cbp cid ?w1 = Inr (r, w')" "r \<noteq> 0"
      and "w' = ?w1\<lparr>w_cbs := (w_cbs ?w1)(cbp \<mapsto> ?cb1\<lparr>cb_pd := pd, cb_cq := cq\<rparr>), w_trace := t'\<rparr>"
    then show thesis using run1 failed[of r w'] by (simp add: bindK_Inr)
  next
    fix pd pdv cq q
    let ?w2 = "qp_done cid cbp idr ?cb1 pd pdv cq q ?w1" and ?cb = "up_cb cb pd cq q"
    assume qp: "setup_qp api cbp cid ?w1 = Inr (0, ?w2)" and nz: "pd \<noteq> 0" "cq \<noteq> 0" "q \<noteq> 0"
      and new: "w_pds ?w1 pd = None" "w_cqs ?w1 cq = None" "w_qps ?w1 q = None"
    have bp: "buf_pre cbp ?cb cs pdv ?w2"
      using pre nz P by (simp add: buf_pre_def client_pre_def up_cb_def qp_cb_def)
    have run2: "run_client api intr cbp w = finish_client api intr cbp (s\<lparr>w_trace := posted ?cb cs' @ w_trace s\<rparr>)"
      if sb: "setup_buffers api cbp ?w2 = Inr (0, s)" and s: "w_cbs s = w_cbs ?w2" "w_qps s = w_qps ?w2"
        "w_ctxs s (cb_buf_ctxs cb) = Some cs'" "length cs' = length cs" for s cs'
    proof -
      have "loopK (post_recv_at api ?cb) [0..<length cs'] s = Inr (None, s\<lparr>w_trace := posted ?cb cs' @ w_trace s\<rparr>)"
        using s nz pre E(8) by (intro post_loop_run) (simp_all add: client_pre_def)
      then show ?thesis
        using run1 qp sb s P pre
        by (simp add: bindK_Inr run_simps client_pre_def up_cb_def[symmetric])
    qed
    from E(1,2) bp show thesis
    proof (cases rule: setup_buffers_cases)
      case (ready cs' t')
      let ?s = "buf_state ?w2 t' (put_all (buf_objs (zero_msg (data_len ?cb)) cs') (w_msgs ?w2))
         (put_all (dma_objs (buf_len ?cb) cs') (w_dmas ?w2)) ((w_ctxs ?w2)(cb_buf_ctxs ?cb \<mapsto> wired ?cb pdv cs'))"
      let ?W = "?s\<lparr>w_trace := posted ?cb (wired ?cb pdv cs') @ w_trace ?s\<rparr>"
      have "built cid cbp idr cb cs w es pd pdv cq q cs' ?W"
        unfolding built_def qp_done_frame
        using ready(2-5) nz new
        by (intro conjI exI[of _ t']) (simp_all add: buf_state_pending buf_state_trace_pending)
      then show thesis
        using up run2[OF ready(1)] ctxs_kept_length[OF ready(2)] by simp
    next
      case (undone cs' t' D h)
      let ?s = "buf_state ?w2 t' (w_msgs ?w2) D ((w_ctxs ?w2)(cb_buf_ctxs ?cb \<mapsto> cs'))\<lparr>w_mrs := h\<rparr>"
      let ?W = "?s\<lparr>w_trace := posted ?cb cs' @ w_trace ?s\<rparr>"
      have "conn_ok cid cbp (idr\<lparr>id_qp := q\<rparr>) ?cb ?W"
        using P(1) by (simp add: conn_ok_def up_cb_def)
      then show thesis
        using no_map[OF _ _ _ undone(3) run2[OF undone(1)]] P(5) ctxs_kept_length[OF undone(2)] by simp
    next
      case faulty
      then show thesis using run1 qp no_mr
        by (simp add: bindK_Inr bindK_Inl)
    qed
  qed
qed

lemma buffers_ok_state:
  "buffers_ok cbp cb cs pdv w \<Longrightarrow> w_cbs w' cbp = Some (cb\<lparr>cb_state := st\<rparr>) \<Longrightarrow> w_ctxs w' = w_ctxs w \<Longrightarrow>
   w_pds w' = w_pds w \<Longrightarrow> w_msgs w' = w_msgs w \<Longrightarrow> w_dmas w' = w_dmas w \<Longrightarrow>
   buffers_ok cbp (cb\<lparr>cb_state := st\<rparr>) cs pdv w'"
  by (simp add: buffers_ok_def buf_pre_def data_len_def ctx_wired_def)

lemma qp_ready_state:
  "qp_ready cbp cb w \<Longrightarrow> w_pds w' = w_pds w \<Longrightarrow> w_cqs w' = w_cqs w \<Longrightarrow> w_qps w' = w_qps w \<Longrightarrow>
   qp_ready cbp (cb\<lparr>cb_state := st\<rparr>) w'"
  by (simp add: qp_ready_def qp_init_attr_def)

lemma channel_ready_state:
  assumes "channel_ready cbp cb cs pdv w" and "w_cbs w' cbp = Some (cb\<lparr>cb_state := st\<rparr>)"
    and "w_ctxs w' = w_ctxs w" "w_pds w' = w_pds w" "w_msgs w' = w_msgs w" "w_dmas w' = w_dmas w"
      "w_cqs w' = w_cqs w" "w_qps w' = w_qps w" "w_cmids w' = w_cmids w"
  shows "channel_ready cbp (cb\<lparr>cb_state := st\<rparr>) cs pdv w'"
  using assms buffers_ok_state[of cbp cb cs pdv w w' st] qp_ready_state[of cbp cb w w' st]
  by (simp add: channel_ready_def)

lemma built_sel:
  assumes "built cid cbp idr cb cs w es pd pdv cq q cs' W"
  shows "w_cbs W = (w_cbs w)(cbp \<mapsto> up_cb cb pd cq q)"
    "w_ctxs W = (w_ctxs w)(cb_buf_ctxs cb \<mapsto> wired (up_cb cb pd cq q) pdv cs')"
    "w_msgs W = put_all (buf_objs (zero_msg (data_len cb)) cs') (w_msgs w)"
    "w_dmas W = put_all (dma_objs (buf_len cb) cs') (w_dmas w)"
    "w_pds W = (w_pds w)(pd \<mapsto> pdv)" "w_cqs W = (w_cqs w)(cq \<mapsto> \<lparr>cq_context = cbp\<rparr>)"
    "w_qps W = (w_qps w)(q \<mapsto> \<lparr>qp_attr = qp_init_attr (up_cb cb pd cq q)\<rparr>)"
    "w_cmids W = (w_cmids w)(cid \<mapsto> idr\<lparr>id_qp := q\<rparr>)" "w_pending W = es"
    "set (posted (up_cb cb pd cq q) (wired (up_cb cb pd cq q) pdv cs')) \<subseteq> set (w_trace W)"
    "w_rmsgs W = w_rmsgs w" "w_rpcs W = w_rpcs w" "w_bytes W = w_bytes w" "w_mhs W = w_mhs w"
    "w_rhs W = w_rhs w" "w_waitqs W = w_waitqs w" "w_mrs W = w_mrs w"
  using assms by (auto simp: built_def up_cb_def)

lemma built_ready:
  assumes b: "built cid cbp idr cb cs w es pd pdv cq q cs' W" and pre: "client_pre cid cbp idr cb cs w"
    and full: "0 \<notin> set (bufs cs')"
  shows "channel_ready cbp (up_cb cb pd cq q) (wired (up_cb cb pd cq q) pdv cs') pdv W"
proof -
  note sel = built_sel[OF b]
  have nz: "pd \<noteq> 0" "cq \<noteq> 0" "q \<noteq> 0"
    and k: "ctxs_kept cs cs'" "fresh_keys (bufs cs') (w_msgs w)" "fresh_keys (maps cs') (w_dmas w)" "mr_mapped cs'"
    using b by (auto simp: built_def)
  let ?w = "w\<lparr>w_cbs := (w_cbs w)(cbp \<mapsto> up_cb cb pd cq q), w_pds := (w_pds w)(pd \<mapsto> pdv)\<rparr>"
  have "buf_pre cbp (up_cb cb pd cq q) cs pdv ?w"
    using pre nz by (simp add: buf_pre_def client_pre_def conn_ok_def)
  note mapped = mapped_buffers_ok[OF this k(1) _ _ k(4) full, simplified, OF k(2,3)]
  have "buffers_ok cbp (up_cb cb pd cq q) (wired (up_cb cb pd cq q) pdv cs') pdv W"
    by (rule buffers_ok_frame[OF mapped]) (simp_all add: sel)
  moreover have "qp_ready cbp (up_cb cb pd cq q) W" using nz by (simp add: qp_ready_def sel)
  ultimately show ?thesis using pre by (simp add: channel_ready_def client_pre_def conn_ok_def sel)
qed

text \<open>After the connection is established, and after the destructor, relative to the start.\<close>

lemma connected_run:
  assumes env: "good_env api intr cid" and conn: "\<And>w p. rdma_connect_ret api w cid p = 0"
    and ok: "conn_ok cid cbp idr cb W" and id: "cb_cm_id cb = cid" "cb_server cb = 0" "cb_state cb < CONNECTED"
    and evs: "w_pending W = CmEvent cid RDMA_CM_EVENT_ESTABLISHED # es"
  shows "\<exists>t. finish_client api intr cbp W = Inr (0, W\<lparr>w_cbs := (w_cbs W)(cbp \<mapsto> cb\<lparr>cb_state := CONNECTED\<rparr>),
     w_trace := t @ w_trace W, w_pending := es\<rparr>)"
  using connect_client_run[where intr = intr, OF good_envD(4)[OF env] ok id(1) conn id(3,2) evs]
  by (auto simp: finish_client_def bindK_Inr)

definition ctxs_complete :: "msgbuf_ctx list \<Rightarrow> bool" where
  "ctxs_complete cs \<longleftrightarrow> (\<forall>c\<in>set cs. recv_buf c \<noteq> NULL \<and> send_buf c \<noteq> NULL \<and> recv_mr c \<noteq> 0 \<and> send_mr c \<noteq> 0)"

lemma complete_bufs: "ctxs_complete cs \<Longrightarrow> 0 \<notin> set (bufs cs)"
  by (auto simp: ctxs_complete_def bufs_def)

lemma run_client_success:
  assumes env: "good_env api intr cid" and conn: "\<And>w p. rdma_connect_ret api w cid p = 0"
    and pre: "client_pre cid cbp idr cb cs w"
    and evs: "w_pending w = CmEvent cid RDMA_CM_EVENT_ADDR_RESOLVED # CmEvent cid RDMA_CM_EVENT_ROUTE_RESOLVED
       # CmEvent cid RDMA_CM_EVENT_ESTABLISHED # es"
    and run: "run_client api intr cbp w = Inr (r, w')"
    and st: "w_cbs w' cbp = Some cb'" "cb_state cb' = CONNECTED"
    and full: "w_ctxs w' (cb_buf_ctxs cb') = Some cs'" "ctxs_complete cs'"
  obtains pd pdv cq q cs0 W t where
    "built cid cbp idr cb cs w (CmEvent cid RDMA_CM_EVENT_ESTABLISHED # es) pd pdv cq q cs0 W"
    "cb' = (up_cb cb pd cq q)\<lparr>cb_state := CONNECTED\<rparr>" "cs' = wired (up_cb cb pd cq q) pdv cs0" "r = 0"
    "w' = W\<lparr>w_cbs := (w_cbs W)(cbp \<mapsto> cb'), w_trace := t @ w_trace W, w_pending := es\<rparr>"
proof -
  note P = client_preD[OF pre]
  let ?es = "CmEvent cid RDMA_CM_EVENT_ESTABLISHED # es"
  have conn_run: "\<exists>t. finish_client api intr cbp W = Inr (0, W\<lparr>w_cbs := (w_cbs W)(cbp \<mapsto>
      (up_cb cb pd cq q)\<lparr>cb_state := CONNECTED\<rparr>), w_trace := t @ w_trace W, w_pending := es\<rparr>)"
    if "conn_ok cid cbp (idr\<lparr>id_qp := q\<rparr>) (up_cb cb pd cq q) W" "w_pending W = ?es" for pd cq q W
    using connected_run[OF env conn that(1) _ _ _ that(2)] P by (simp add: state_less_num)
  from env pre evs show thesis
  proof (cases rule: run_client_cases)
    case (failed r w'')
    then show thesis using run st by simp
  next
    case faulty
    then show thesis using run by simp
  next
    case (up pd pdv cq q cs0 W)
    note sel = built_sel[OF up(1)]
    have "conn_ok cid cbp (idr\<lparr>id_qp := q\<rparr>) (up_cb cb pd cq q) W" using P(1) by (simp add: conn_ok_def sel)
    from conn_run[OF this sel(9)] obtain t where w': "r = 0" "w' = W\<lparr>w_cbs := (w_cbs W)(cbp \<mapsto>
      (up_cb cb pd cq q)\<lparr>cb_state := CONNECTED\<rparr>), w_trace := t @ w_trace W, w_pending := es\<rparr>"
      using run up(2) by auto
    have cb': "cb' = (up_cb cb pd cq q)\<lparr>cb_state := CONNECTED\<rparr>" using w' st(1) by simp
    have cs': "cs' = wired (up_cb cb pd cq q) pdv cs0" using w' full(1) by (simp add: sel cb')
    show thesis using that[OF up(1) cb' cs' w'(1) w'(2)[folded cb']] .
  next
    case (undone pd cq q cs0 W)
    from conn_run[OF undone(1,2)] obtain t where w': "w' = W\<lparr>w_cbs := (w_cbs W)(cbp \<mapsto>
      (up_cb cb pd cq q)\<lparr>cb_state := CONNECTED\<rparr>), w_trace := t @ w_trace W, w_pending := es\<rparr>"
      using run undone(5) by auto
    have cb': "cb' = (up_cb cb pd cq q)\<lparr>cb_state := CONNECTED\<rparr>" using w' st(1) by simp
    have "cs' = cs0" using w' full(1) undone(3) by (simp add: cb')
    then show thesis using full(2) undone(4) by (auto simp: ctxs_complete_def)
  qed
qed

section \<open>Creation\<close>

lemma upd_ctx_all_run:
  assumes "p \<noteq> 0" and "w_ctxs w p = Some cs"
  shows "forK (\<lambda>i. upd_ctx p i (f i)) [0..<length cs] w =
     Inr ((), w\<lparr>w_ctxs := (w_ctxs w)(p \<mapsto> map (\<lambda>i. f i (cs ! i)) [0..<length cs])\<rparr>)"
proof -
  let ?W = "map (\<lambda>i. f i (cs ! i)) [0..<length cs]"
  define J where "J i s \<longleftrightarrow> s = w\<lparr>w_ctxs := (w_ctxs w)(p \<mapsto> take i ?W @ drop i cs)\<rparr>" for i s
  have step: "runs (J i) (upd_ctx p i (f i)) (\<lambda>_. J (Suc i))" if "i < length cs" for i
  proof (rule runsI)
    fix s
    assume "J i s"
    moreover have "(take i ?W @ drop i cs) ! i = cs ! i" using that by (simp add: nth_append)
    moreover have "(take i ?W @ drop i cs)[i := f i (cs ! i)] = take (Suc i) ?W @ drop (Suc i) cs"
      using that by (simp add: take_wired_step take_Suc_conv_app_nth)
    ultimately show "\<exists>a s'. upd_ctx p i (f i) s = Inr (a, s') \<and> J (Suc i) s'"
      using that assms(1) by (simp add: J_def run_simps)
  qed
  have "J 0 w" using assms(2) by (simp add: J_def fun_upd_idem)
  from runsD[OF runs_forK[of "length cs" J, OF step] this] show ?thesis by (auto simp: J_def)
qed

definition init_ctxs :: "nat \<Rightarrow> msgbuf_ctx list" where
  "init_ctxs n = map (\<lambda>i. zero_ctx\<lparr>ctx_id := of_nat i, ctx_seqn := 1\<rparr>) [0..<n]"

lemma init_loop_run:
  "p \<noteq> 0 \<Longrightarrow> w_ctxs w p = Some (replicate n zero_ctx) \<Longrightarrow>
   forK (init_ctx_at p) [0..<n] w = Inr ((), w\<lparr>w_ctxs := (w_ctxs w)(p \<mapsto> init_ctxs n)\<rparr>)"
proof -
  assume "p \<noteq> 0" "w_ctxs w p = Some (replicate n zero_ctx)"
  moreover have "map (\<lambda>i. (replicate n zero_ctx ! i)\<lparr>ctx_id := of_nat i, ctx_seqn := 1\<rparr>) [0..<n] = init_ctxs n"
    by (rule nth_equalityI) (simp_all add: init_ctxs_def)
  ultimately show ?thesis
    using upd_ctx_all_run[of p w "replicate n zero_ctx" "\<lambda>i c. c\<lparr>ctx_id := of_nat i, ctx_seqn := 1\<rparr>"]
    by (simp add: init_ctx_at_def[abs_def])
qed

lemma init_loop_then [run_simps]:
  "p \<noteq> 0 \<Longrightarrow> w_ctxs w p = Some (replicate n zero_ctx) \<Longrightarrow>
   thenK (forK (init_ctx_at p) [0..<n]) k w = k (w\<lparr>w_ctxs := (w_ctxs w)(p \<mapsto> init_ctxs n)\<rparr>)"
  by (simp add: thenK_def bindK_def init_loop_run)

text \<open>The control block \<open>init_rdma_ch\<close> prepares for the given attributes.\<close>

definition fresh_cb :: "kapi \<Rightarrow> rdma_ch_attr \<Rightarrow> addr \<Rightarrow> addr \<Rightarrow> rdma_ch_cb" where
  "fresh_cb api attr cxs cm = (conn_cb api attr ((attr_cb attr zero_cb)\<lparr>cb_buf_ctxs := cxs\<rparr>))\<lparr>cb_cm_id := cm\<rparr>"

lemma conn_cb_server: "cb_server (conn_cb api attr c) = attr_server attr"
  by (simp add: conn_cb_def Let_def)

lemma fresh_cb_sel [simp]:
  "cb_buf_ctxs (fresh_cb api attr cxs cm) = cxs" "cb_cm_id (fresh_cb api attr cxs cm) = cm"
  "cb_server (fresh_cb api attr cxs cm) = attr_server attr" "cb_state (fresh_cb api attr cxs cm) = IDLE"
  "cb_msgbuf_cnt (fresh_cb api attr cxs cm) = attr_msgbuf_cnt attr"
  "cb_msgdata_size (fresh_cb api attr cxs cm) = attr_msgdata_size attr"
  "cb_msgbuf_size (fresh_cb api attr cxs cm) = msgbuf_size (attr_msgdata_size attr)"
  "cb_pd (fresh_cb api attr cxs cm) = 0" "cb_cq (fresh_cb api attr cxs cm) = 0" "cb_qp (fresh_cb api attr cxs cm) = 0"
  by (simp_all add: fresh_cb_def conn_cb_def attr_cb_def zero_cb_def Let_def)

text \<open>The state in which \<open>run_client\<close> is entered, relative to the state \<open>w\<close> at the start.\<close>

definition init_state :: "kapi \<Rightarrow> rdma_ch_attr \<Rightarrow> addr \<Rightarrow> addr \<Rightarrow> addr \<Rightarrow> event list \<Rightarrow> world \<Rightarrow> world" where
  "init_state api attr cbp cxs cm t w = w\<lparr>w_trace := t,
     w_ctxs := (w_ctxs w)(cxs \<mapsto> init_ctxs (iters (attr_msgbuf_cnt attr))),
     w_cmids := (w_cmids w)(cm \<mapsto> \<lparr>id_context = cbp, id_qp = NULL\<rparr>),
     w_cbs := (w_cbs w)(cbp \<mapsto> fresh_cb api attr cxs cm)\<rparr>"

lemma rdma_create_id_run [run_simps]:
  "bindK (rdma_create_id api ctx) f w =
     (let p = rdma_create_id_ret api w in
      f p (if is_err api p then w else w\<lparr>w_cmids := (w_cmids w)(p \<mapsto> \<lparr>id_context = ctx, id_qp = NULL\<rparr>)\<rparr>))"
  by (simp add: rdma_create_id_def create_at_def thenK_def bindK_def whenK_def Let_def)

lemma init_cases:
  assumes as: "alloc_sound api" and vs: "verbs_sound api"
  obtains (none) t where "init_rdma_ch api intr attr w = Inr (0, w\<lparr>w_trace := t\<rparr>)"
  | (client) cbp cxs cm t where "attr_server attr = 0" "cbp \<noteq> 0" "cxs \<noteq> 0" "cm \<noteq> 0"
      "w_cbs w cbp = None" "w_ctxs w cxs = None" "w_cmids w cm = None"
      "\<not> is_err api cm" "\<exists>w2. cm = rdma_create_id_ret api w2"
      "init_rdma_ch api intr attr w =
         thenK (run_client api intr cbp) (returnK cbp) (init_state api attr cbp cxs cm t w)"
proof -
  define n1 where "n1 = sizeof_rdma_ch_cb api"
  define n2 where "n2 = size_of_int (attr_msgbuf_cnt attr) * sizeof_msgbuf_ctx api"
  let ?n = "iters (attr_msgbuf_cnt attr)"
  define p where "p = kzalloc_ret api w n1"
  define w1 where "w1 = w\<lparr>w_trace := EvAlloc p n1 # w_trace w, w_cbs := (w_cbs w)(p \<mapsto> attr_cb attr zero_cb)\<rparr>"
  define q where "q = kzalloc_ret api w1 n2"
  let ?t = "EvAlloc q n2 # EvAlloc p n1 # w_trace w"
  define w2 where "w2 = w\<lparr>w_trace := ?t, w_ctxs := (w_ctxs w)(q \<mapsto> init_ctxs ?n),
      w_cbs := (w_cbs w)(p \<mapsto> conn_cb api attr ((attr_cb attr zero_cb)\<lparr>cb_buf_ctxs := q\<rparr>))\<rparr>"
  define cm where "cm = rdma_create_id_ret api w2"
  have fp: "p \<noteq> 0 \<Longrightarrow> w_cbs w p = None" using alloc_fresh(1)[OF as p_def[symmetric]] .
  have fq: "q \<noteq> 0 \<Longrightarrow> w_ctxs w q = None" using alloc_fresh(2)[OF as q_def[symmetric]] by (simp add: w1_def)
  have fc: "\<not> is_err api cm \<Longrightarrow> cm \<noteq> 0 \<and> w_cmids w cm = None"
    using verbs_id[OF vs cm_def[symmetric]] by (simp add: w2_def)
  have created: "init_rdma_ch api intr attr w = (if is_err api cm then init_rdma_ch_out3 p
        (w2\<lparr>w_cbs := (w_cbs w)(p \<mapsto> fresh_cb api attr q cm)\<rparr>)
      else if attr_server attr \<noteq> 0 then thenK (rdma_destroy_id cm) (init_rdma_ch_out3 p) (init_state api attr p q cm ?t w)
      else thenK (run_client api intr p) (returnK p) (init_state api attr p q cm ?t w))" if nz: "p \<noteq> 0" "q \<noteq> 0"
  proof -
    have "init_rdma_ch api intr attr w = bindK (rdma_create_id api p) (\<lambda>cm.
            thenK (upd_cb p (\<lambda>c. c\<lparr>cb_cm_id := cm\<rparr>))
            (if is_err api cm then init_rdma_ch_out3 p
             else
               bindK (get_cb p) (\<lambda>cb.
               if cb_server cb \<noteq> 0 then thenK (rdma_destroy_id (cb_cm_id cb)) (init_rdma_ch_out3 p)
               else thenK (run_client api intr p) (returnK p)))) w2"
      using nz unfolding init_rdma_ch_def
      by (simp add: run_simps Let_def n1_def[symmetric] p_def[symmetric] n2_def[symmetric]
          q_def[unfolded w1_def, symmetric] w2_def)
    then show ?thesis
      using nz conn_cb_server
      by (cases "is_err api cm")
        (simp_all add: run_simps Let_def cm_def[unfolded w2_def, symmetric] w2_def fresh_cb_def init_state_def)
  qed
  consider "p = 0" | "p \<noteq> 0" "q = 0" | "p \<noteq> 0" "q \<noteq> 0" "is_err api cm \<or> attr_server attr \<noteq> 0"
    | "p \<noteq> 0" "q \<noteq> 0" "\<not> is_err api cm" "attr_server attr = 0" by blast
  then show thesis
  proof cases
    case 1
    then have "init_rdma_ch api intr attr w = Inr (0, w\<lparr>w_trace := EvAlloc p n1 # w_trace w\<rparr>)"
      by (simp add: init_rdma_ch_def run_simps Let_def n1_def[symmetric] p_def[symmetric])
    then show thesis by (rule none)
  next
    case 2
    then have "init_rdma_ch api intr attr w = Inr (0, w\<lparr>w_trace := ?t\<rparr>)"
      using fp
      by (simp add: init_rdma_ch_def run_simps Let_def n1_def[symmetric] p_def[symmetric] n2_def[symmetric]
          q_def[unfolded w1_def, symmetric] fun_upd_idem)
    then show thesis by (rule none)
  next
    case 3
    then have "init_rdma_ch api intr attr w = Inr (0, w\<lparr>w_trace := ?t\<rparr>)"
      using created fp fq fc
      by (cases "is_err api cm")
        (simp_all add: init_rdma_ch_out3_def rdma_destroy_id_def run_simps w2_def init_state_def fun_upd_idem)
    then show thesis by (rule none)
  next
    case 4
    have "init_rdma_ch api intr attr w = thenK (run_client api intr p) (returnK p) (init_state api attr p q cm ?t w)"
      using created 4 by simp
    with 4 fp fq fc cm_def show thesis by (intro client[of p q cm ?t]) auto
  qed
qed

lemma init_state_pre:
  assumes "cbp \<noteq> 0" "cxs \<noteq> 0" "cm \<noteq> 0" "attr_server attr = 0"
    and "0 \<le> sint (attr_msgdata_size attr)" "sint (attr_msgdata_size attr) < 2 ^ 31 - 24"
  shows "client_pre cm cbp \<lparr>id_context = cbp, id_qp = 0\<rparr> (fresh_cb api attr cxs cm)
     (init_ctxs (iters (attr_msgbuf_cnt attr))) (init_state api attr cbp cxs cm t w)"
  using assms by (simp add: client_pre_def conn_ok_def init_state_def init_ctxs_def state_less_num)

text \<open>A channel that \<open>init_rdma_ch\<close> connected, with every buffer allocated and mapped.\<close>

lemma init_client_built:
  assumes env: "\<And>cid. good_env api intr cid" and conn: "\<And>w cid p. rdma_connect_ret api w cid p = 0"
    and attr: "0 \<le> sint (attr_msgdata_size attr)" "sint (attr_msgdata_size attr) < 2 ^ 31 - 24"
    and id: "\<And>w. is_err api (rdma_create_id_ret api w) \<or> rdma_create_id_ret api w = cm"
    and evs: "w_pending w = CmEvent cm RDMA_CM_EVENT_ADDR_RESOLVED
       # CmEvent cm RDMA_CM_EVENT_ROUTE_RESOLVED # CmEvent cm RDMA_CM_EVENT_ESTABLISHED # es"
    and init: "init_rdma_ch api intr attr w = Inr (cbp, w')" "cbp \<noteq> NULL"
    and up: "w_cbs w' cbp = Some cb" "cb_state cb = CONNECTED"
    and full: "w_ctxs w' (cb_buf_ctxs cb) = Some cs" "ctxs_complete cs"
  obtains cxs t pd pdv cq q cs0 W t' where "cbp \<noteq> 0" "w_cbs w cbp = None" "w_ctxs w cxs = None" "w_cmids w cm = None"
    "client_pre cm cbp \<lparr>id_context = cbp, id_qp = 0\<rparr> (fresh_cb api attr cxs cm)
       (init_ctxs (iters (attr_msgbuf_cnt attr))) (init_state api attr cbp cxs cm t w)"
    "built cm cbp \<lparr>id_context = cbp, id_qp = 0\<rparr> (fresh_cb api attr cxs cm)
       (init_ctxs (iters (attr_msgbuf_cnt attr))) (init_state api attr cbp cxs cm t w)
       (CmEvent cm RDMA_CM_EVENT_ESTABLISHED # es) pd pdv cq q cs0 W"
    "cb = (up_cb (fresh_cb api attr cxs cm) pd cq q)\<lparr>cb_state := CONNECTED\<rparr>"
    "cs = wired (up_cb (fresh_cb api attr cxs cm) pd cq q) pdv cs0"
    "w' = W\<lparr>w_cbs := (w_cbs W)(cbp \<mapsto> cb), w_trace := t' @ w_trace W, w_pending := es\<rparr>"
  using good_envD(1,2)[OF env]
proof (cases rule: init_cases[of api intr attr w])
  case (none t)
  then show ?thesis using init by simp
next
  case (client cbp' cxs cm' t)
  have [simp]: "cm' = cm" using client(8,9) id by auto
  have "thenK (run_client api intr cbp') (returnK cbp') (init_state api attr cbp' cxs cm t w) = Inr (cbp, w')"
    using init(1) client(10) by simp
  then obtain r where [simp]: "cbp' = cbp" and run: "run_client api intr cbp (init_state api attr cbp cxs cm t w) = Inr (r, w')"
    by (auto simp: thenK_eq_Inr)
  let ?w = "init_state api attr cbp cxs cm t w" and ?cb = "fresh_cb api attr cxs cm"
  have pre: "client_pre cm cbp \<lparr>id_context = cbp, id_qp = 0\<rparr> ?cb (init_ctxs (iters (attr_msgbuf_cnt attr))) ?w"
    using init_state_pre[of cbp cxs cm attr] client attr by simp
  have ev: "w_pending ?w = CmEvent cm RDMA_CM_EVENT_ADDR_RESOLVED
       # CmEvent cm RDMA_CM_EVENT_ROUTE_RESOLVED # CmEvent cm RDMA_CM_EVENT_ESTABLISHED # es"
    using evs by (simp add: init_state_def)
  from env conn pre ev run up full show thesis
  proof (cases rule: run_client_success)
    case (1 pd pdv cq q cs0 W t')
    then show thesis using that[OF init(2) _ _ _ pre] client by simp
  qed
qed

text \<open>
  Such a channel is in working order, a receive is posted for each of its buffers, memory that is
  not the channel's is as before, and removing what the channel owns gives the heaps of the start.
\<close>

definition owns_new :: "addr \<Rightarrow> rdma_ch_cb \<Rightarrow> msgbuf_ctx list \<Rightarrow> world \<Rightarrow> world \<Rightarrow> bool" where
  "owns_new cbp cb cs w w' \<longleftrightarrow>
     (w_cbs w')(cbp := None) = w_cbs w \<and> (w_ctxs w')(cb_buf_ctxs cb := None) = w_ctxs w
     \<and> del_all (bufs cs) (w_msgs w') = w_msgs w \<and> del_all (maps cs) (w_dmas w') = w_dmas w
     \<and> (w_pds w')(cb_pd cb := None) = w_pds w \<and> (w_cqs w')(cb_cq cb := None) = w_cqs w
     \<and> (w_qps w')(cb_qp cb := None) = w_qps w \<and> (w_cmids w')(cb_cm_id cb := None) = w_cmids w
     \<and> w_rmsgs w' = w_rmsgs w \<and> w_rpcs w' = w_rpcs w \<and> w_bytes w' = w_bytes w \<and> w_mhs w' = w_mhs w
     \<and> w_rhs w' = w_rhs w \<and> w_waitqs w' = w_waitqs w \<and> w_mrs w' = w_mrs w"

lemma fresh_cb_handlers [simp]:
  "cb_rpc_msg_handler_cb (fresh_cb api attr cxs cm) = attr_rpc_msg_handler_cb attr"
  "cb_user_msg_handler_cb (fresh_cb api attr cxs cm) = attr_user_msg_handler_cb attr"
  by (simp_all add: fresh_cb_def conn_cb_def attr_cb_def zero_cb_def Let_def)

lemma init_connected:
  assumes env: "\<And>cid. good_env api intr cid" and conn: "\<And>w cid p. rdma_connect_ret api w cid p = 0"
    and attr: "0 \<le> sint (attr_msgdata_size attr)" "sint (attr_msgdata_size attr) < 2 ^ 31 - 24"
    and id: "\<And>w. is_err api (rdma_create_id_ret api w) \<or> rdma_create_id_ret api w = cm"
    and evs: "w_pending w = CmEvent cm RDMA_CM_EVENT_ADDR_RESOLVED
       # CmEvent cm RDMA_CM_EVENT_ROUTE_RESOLVED # CmEvent cm RDMA_CM_EVENT_ESTABLISHED # es"
    and init: "init_rdma_ch api intr attr w = Inr (cbp, w')" "cbp \<noteq> NULL"
    and up: "w_cbs w' cbp = Some cb" "cb_state cb = CONNECTED"
    and full: "w_ctxs w' (cb_buf_ctxs cb) = Some cs" "ctxs_complete cs"
  obtains pdv where "channel_ready cbp cb cs pdv w'" "owns_new cbp cb cs w w'"
    "\<forall>c\<in>set cs. EvPostRecv (cb_qp cb) (rq_wr c) \<in> set (w_trace w')"
    "cb_msgbuf_cnt cb = attr_msgbuf_cnt attr" "cb_rpc_msg_handler_cb cb = attr_rpc_msg_handler_cb attr"
    "cb_user_msg_handler_cb cb = attr_user_msg_handler_cb attr" "w_pending w' = es"
  using assms
proof (cases rule: init_client_built)
  case (1 cxs t pd pdv cq q cs0 W t')
  note sel = built_sel[OF 1(6)]
  have fr: "fresh_keys (bufs cs0) (w_msgs w)" "fresh_keys (maps cs0) (w_dmas w)"
    "w_pds w pd = None" "w_cqs w cq = None" "w_qps w q = None"
    using 1(6) by (auto simp: built_def init_state_def)
  have "0 \<notin> set (bufs cs0)" using complete_bufs[OF full(2)] 1(8) by simp
  note rd = built_ready[OF 1(6,5) this]
  have "channel_ready cbp cb cs pdv w'"
    unfolding 1(7,8) by (rule channel_ready_state[OF rd]) (simp_all add: 1(7,9))
  moreover have "\<forall>c\<in>set cs. EvPostRecv (cb_qp cb) (rq_wr c) \<in> set (w_trace w')"
    using sel(10) by (auto simp: 1(7-9) posted_def)
  moreover have "owns_new cbp cb cs w w'"
    using fr del_put_all[of "buf_objs (zero_msg (data_len (fresh_cb api attr cxs cm))) cs0" "w_msgs w"]
      del_put_all[of "dma_objs (buf_len (fresh_cb api attr cxs cm)) cs0" "w_dmas w"] 1(2-4)
    by (simp add: owns_new_def 1(7-9) sel init_state_def fun_upd_idem)
  ultimately show thesis using that[of pdv] by (simp add: 1(7,9))
qed

section \<open>When set-up fails\<close>

lemma connect_error_run:
  assumes ready: "channel_ready cbp cb cs pdv w"
    and err: "rdma_connect_ret api w (cb_cm_id cb) client_conn_param = r" "r \<noteq> 0"
  shows "finish_client api intr cbp w = Inr (r, buf_state w (EvConnect (cb_cm_id cb) client_conn_param # w_trace w)
      (del_all (bufs cs) (w_msgs w)) (del_all (maps cs) (w_dmas w)) (w_ctxs w)
      \<lparr>w_pds := (w_pds w)(cb_pd cb := None), w_cqs := (w_cqs w)(cb_cq cb := None),
       w_qps := (w_qps w)(cb_qp cb := None)\<rparr>)"
proof -
  let ?w0 = "w\<lparr>w_trace := EvConnect (cb_cm_id cb) client_conn_param # w_trace w\<rparr>"
  have P: "cbp \<noteq> 0" "w_cbs w cbp = Some cb" using ready by (auto simp: channel_ready_def buffers_ok_def buf_pre_def)
  have id: "cb_cm_id cb \<noteq> 0" "w_cmids w (cb_cm_id cb) \<noteq> None" using ready by (simp_all add: channel_ready_def)
  have con: "connect_client api intr cbp w = Inr (r, ?w0)"
    using P id err by (auto simp: connect_client_def rdma_connect_def run_simps)
  have "buffers_ok cbp cb cs pdv ?w0" "qp_ready cbp cb ?w0"
    using ready buffers_ok_frame[of cbp cb cs pdv w ?w0] qp_ready_frame[of cbp cb w ?w0]
    by (simp_all add: channel_ready_def)
  note rel = kfree_both_run[OF this]
  show ?thesis
    using err(2) by (simp add: finish_client_def bindK_Inr[where m = "connect_client api intr cbp", OF con]
        run_client_err2_def run_client_err1_def rel buf_state_def)
qed

text \<open>A control block with contexts but without a live protection domain cannot be destroyed.\<close>

lemma destroy_without_pd:
  assumes "cbp \<noteq> 0" "w_cbs w cbp = Some cb" "cb_server cb = 0" "cb_cm_id cb \<noteq> 0" "w_cmids w (cb_cm_id cb) \<noteq> None"
    and "cb_buf_ctxs cb \<noteq> 0" "w_ctxs w (cb_buf_ctxs cb) = Some cs" "cs \<noteq> []" "length cs = iters (cb_msgbuf_cnt cb)"
    and "cb_pd cb = NULL \<or> w_pds w (cb_pd cb) = None"
  shows "destroy_rdma_client cbp w = Inl (if cb_pd cb = NULL then NullDeref else BadAccess)"
proof -
  let ?w0 = "w\<lparr>w_trace := EvDisconnect (cb_cm_id cb) # w_trace w\<rparr>"
  let ?e = "if cb_pd cb = 0 then NullDeref else BadAccess"
  have b: "kfree_bufs_at cb i ?w0 = Inl ?e" if "i < length cs" for i
    using assms that by (cases "cb_pd cb = 0") (simp_all add: kfree_bufs_at_def run_simps)
  have "forK (kfree_bufs_at cb) [0..<length cs] ?w0 = Inl ?e"
    using b assms(8) by (intro forK_first_fault[where j = 0]) auto
  then have "kfree_buffers cbp ?w0 = Inl ?e" using assms by (simp add: kfree_buffers_def run_simps)
  then show ?thesis
    using assms by (auto simp: destroy_rdma_client_def rdma_disconnect_def run_simps thenK_Inl)
qed

definition sample_ready :: world where
  "sample_ready = sample_chan (zero_msg 8) []\<lparr>w_cmids := [0x6000 \<mapsto> \<lparr>id_context = 64, id_qp = 0x5000\<rparr>]\<rparr>"

lemma sample_ready_ok:
  "channel_ready 64 sample_cb [sample_ctx] \<lparr>pd_device = 0x2000, local_dma_lkey = 7\<rparr> sample_ready"
proof -
  have "buffers_ok 64 sample_cb [sample_ctx] \<lparr>pd_device = 0x2000, local_dma_lkey = 7\<rparr> sample_ready"
    by (rule buffers_ok_frame[OF sample_buffers_ok[of "zero_msg 8" "[]"]]) (simp_all add: sample_ready_def zero_msg_def)
  moreover have "qp_ready 64 sample_cb sample_ready"
    by (simp add: qp_ready_def sample_ready_def sample_cb_sel sample_chan_def sample_buf_world_def)
  ultimately show ?thesis by (simp add: channel_ready_def sample_ready_def sample_cb_def zero_cb_def)
qed

text \<open>Attributes of a client with one buffer, and a state in which its connection goes through.\<close>

definition sample_attr :: rdma_ch_attr where
  "sample_attr = \<lparr>attr_port = 7174, attr_server = 0, attr_ip_addr = [10, 0, 0, 2], attr_msgbuf_cnt = 1,
     attr_msgdata_size = 8, attr_rpc_msg_handler_cb = Fn_client_rpc_rdma_msg_handler,
     attr_user_msg_handler_cb = Fn_user 0\<rparr>"

definition sample_start :: world where
  "sample_start = empty_world\<lparr>w_pending := [CmEvent 0x6000 RDMA_CM_EVENT_ADDR_RESOLVED,
     CmEvent 0x6000 RDMA_CM_EVENT_ROUTE_RESOLVED, CmEvent 0x6000 RDMA_CM_EVENT_ESTABLISHED]\<rparr>"

definition channel_up :: "fault + addr \<times> world \<Rightarrow> bool" where
  "channel_up r = (case r of Inl _ \<Rightarrow> False | Inr (p, w) \<Rightarrow> p \<noteq> 0 \<and> (case w_cbs w p of
       None \<Rightarrow> False
     | Some cb \<Rightarrow> cb_state cb = CONNECTED \<and> (case w_ctxs w (cb_buf_ctxs cb) of
         None \<Rightarrow> False | Some cs \<Rightarrow> cs \<noteq> [] \<and> ctxs_complete cs)))"

lemma sample_comes_up: "channel_up (init_rdma_ch sample_api sample_intr sample_attr sample_start)"
  by code_simp

lemma channel_upE:
  assumes "channel_up r"
  obtains p w cb cs where "r = Inr (p, w)" "p \<noteq> 0" "w_cbs w p = Some cb" "cb_state cb = CONNECTED"
    "w_ctxs w (cb_buf_ctxs cb) = Some cs" "cs \<noteq> []" "ctxs_complete cs"
  using assms by (auto simp: channel_up_def split: sum.splits option.splits)

lemma sample_good_env: "good_env sample_api sample_intr cid"
  by (simp add: good_env_def sample_alloc_sound sample_verbs_sound sample_err_ptr_sound sample_api_sel sample_intr_def)

section \<open>Properties\<close>

text \<open>
  Destroying a client channel that is set up faults nowhere and releases exactly what the
  channel owns: control block, contexts, message buffers, mappings, queue pair, completion queue,
  protection domain and connection id, once each, after disconnecting; everything else stays.
\<close>

theorem destroy_rdma_client_releases:
  assumes "channel_ready cbp cb cs pdv w"
  shows "\<exists>w'. destroy_rdma_client cbp w = Inr ((), w')
     \<and> w_cbs w' = (w_cbs w)(cbp := None) \<and> w_ctxs w' = (w_ctxs w)(cb_buf_ctxs cb := None)
     \<and> w_msgs w' = del_all (bufs cs) (w_msgs w) \<and> w_dmas w' = del_all (maps cs) (w_dmas w)
     \<and> w_pds w' = (w_pds w)(cb_pd cb := None) \<and> w_cqs w' = (w_cqs w)(cb_cq cb := None)
     \<and> w_qps w' = (w_qps w)(cb_qp cb := None) \<and> w_cmids w' = (w_cmids w)(cb_cm_id cb := None)
     \<and> w_bytes w' = w_bytes w \<and> w_rpcs w' = w_rpcs w \<and> w_rmsgs w' = w_rmsgs w
     \<and> w_trace w' = EvDisconnect (cb_cm_id cb) # w_trace w"
  using destroy_run[OF assms] unfolding torn_down_def by blast


theorem destroy_rdma_client_releases_witness:
  "\<exists>w'. destroy_rdma_client 64 sample_ready = Inr ((), w') \<and> w_cbs w' 64 = None \<and> w_msgs w' 16 = None \<and> w_msgs w' 32 = None"
  using destroy_rdma_client_releases[OF sample_ready_ok]
  by (auto simp: bufs_def sample_ctx_sel del_all_def)



text \<open>
  C31. When \<open>init_rdma_ch\<close> returns NULL (an allocation or the creation of the connection id failed,
  or a server was asked for, which this side does not implement) it has released what it had
  acquired: no object and no mapping is left behind.
\<close>

theorem init_rdma_ch_null_releases:
  assumes "alloc_sound api" and "verbs_sound api"
  shows "(init_rdma_ch api intr attr w = Inr (NULL, w') \<longrightarrow> same_objects w w')
     \<and> (attr_server attr \<noteq> 0 \<longrightarrow> (\<exists>w'. init_rdma_ch api intr attr w = Inr (NULL, w')))"
  using assms
proof (cases rule: init_cases[of api intr attr w])
  case (none t)
  then show ?thesis by (auto simp: same_objects_def)
next
  case (client cbp cxs cm t)
  then show ?thesis by (auto simp: thenK_eq_Inr)
qed

theorem init_rdma_ch_null_releases_witness:
  "\<exists>w'. init_rdma_ch sample_api sample_intr (sample_attr\<lparr>attr_server := 1\<rparr>) sample_start = Inr (NULL, w')
     \<and> same_objects sample_start w'"
  using init_rdma_ch_null_releases[OF sample_alloc_sound sample_verbs_sound, of sample_intr
      "sample_attr\<lparr>attr_server := 1\<rparr>" sample_start] by simp blast

text \<open>
  C32. When the connection request is refused at once, \<open>run_client\<close>'s error path returns the error
  and releases buffers, mappings, queue pair, completion queue and protection domain, but leaves
  the control block pointing at them. Since \<open>init_rdma_ch\<close> ignores the error, its caller sees a
  channel; destroying that channel uses the released protection domain.
\<close>

theorem connect_error_then_destroy_faults:
  assumes "channel_ready cbp cb cs pdv w" and "cs \<noteq> []"
    and "rdma_connect_ret api w (cb_cm_id cb) client_conn_param = r" and "r \<noteq> 0"
  shows "\<exists>w'. finish_client api intr cbp w = Inr (r, w')
     \<and> w_msgs w' = del_all (bufs cs) (w_msgs w) \<and> w_dmas w' = del_all (maps cs) (w_dmas w)
     \<and> w_qps w' = (w_qps w)(cb_qp cb := None) \<and> w_cqs w' = (w_cqs w)(cb_cq cb := None)
     \<and> w_pds w' = (w_pds w)(cb_pd cb := None) \<and> w_cbs w' = w_cbs w
     \<and> destroy_rdma_client cbp w' = Inl BadAccess"
proof -
  let ?w = "buf_state w (EvConnect (cb_cm_id cb) client_conn_param # w_trace w)
      (del_all (bufs cs) (w_msgs w)) (del_all (maps cs) (w_dmas w)) (w_ctxs w)
      \<lparr>w_pds := (w_pds w)(cb_pd cb := None), w_cqs := (w_cqs w)(cb_cq cb := None), w_qps := (w_qps w)(cb_qp cb := None)\<rparr>"
  have "destroy_rdma_client cbp ?w = Inl BadAccess"
    using assms(1,2) destroy_without_pd[of cbp ?w cb cs]
    by (auto simp: channel_ready_def buffers_ok_def buf_pre_def)
  then show ?thesis using connect_error_run[OF assms(1,3,4)] by simp
qed

theorem connect_error_then_destroy_faults_witness:
  "\<exists>w'. finish_client (sample_api\<lparr>rdma_connect_ret := \<lambda>w c p. - 111\<rparr>) sample_intr 64 sample_ready = Inr (- 111, w')
     \<and> w_msgs w' 16 = None \<and> destroy_rdma_client 64 w' = Inl BadAccess"
  using connect_error_then_destroy_faults[OF sample_ready_ok,
      of "sample_api\<lparr>rdma_connect_ret := \<lambda>w c p. - 111\<rparr>" "- 111" sample_intr]
  by (auto simp: bufs_def sample_ctx_sel del_all_def)

text \<open>
  When the server's address cannot be resolved, \<open>run_client\<close> fails before it creates anything,
  but \<open>init_rdma_ch\<close> ignores its result: it either returns NULL or hands out a control block that
  has no protection domain and no queue pair, and destroying that block dereferences NULL.
\<close>

theorem resolve_error_hidden:
  assumes "alloc_sound api" and "verbs_sound api" and err: "\<And>w cid sa. rdma_resolve_addr_ret api w cid sa \<noteq> 0"
    and cnt: "0 < sint (attr_msgbuf_cnt attr)"
  shows "\<exists>cbp w'. init_rdma_ch api intr attr w = Inr (cbp, w')
     \<and> (cbp \<noteq> NULL \<longrightarrow> (\<exists>cb. w_cbs w' cbp = Some cb \<and> cb_pd cb = NULL \<and> cb_qp cb = NULL \<and> cb_state cb = IDLE)
          \<and> destroy_rdma_client cbp w' = Inl NullDeref)"
  using assms(1,2)
proof (cases rule: init_cases[of api intr attr w])
  case (none t)
  then show ?thesis by simp
next
  case (client cbp cxs cm t)
  let ?w = "init_state api attr cbp cxs cm t w" and ?cb = "fresh_cb api attr cxs cm"
  let ?cb' = "?cb\<lparr>cb_sin := (cb_sin ?cb)\<lparr>sa_port := cb_port ?cb\<rparr>\<rparr>"
  have w: "w_cbs ?w cbp = Some ?cb" "w_cmids ?w cm = Some \<lparr>id_context = cbp, id_qp = 0\<rparr>"
    "w_ctxs ?w cxs = Some (init_ctxs (iters (attr_msgbuf_cnt attr)))" by (simp_all add: init_state_def)
  let ?w' = "?w\<lparr>w_cbs := (w_cbs ?w)(cbp \<mapsto> ?cb'), w_trace := EvResolveAddr cm (cb_sin ?cb') # w_trace ?w\<rparr>"
  have "bind_client api intr cbp ?w = Inr (rdma_resolve_addr_ret api (?w\<lparr>w_cbs := (w_cbs ?w)(cbp \<mapsto> ?cb')\<rparr>) cm (cb_sin ?cb'), ?w')"
    using client w err by (simp add: bind_client_def rdma_resolve_addr_def run_simps)
  then have "run_client api intr cbp ?w = Inr (rdma_resolve_addr_ret api (?w\<lparr>w_cbs := (w_cbs ?w)(cbp \<mapsto> ?cb')\<rparr>) cm (cb_sin ?cb'), ?w')"
    using err by (simp add: run_client_def bindK_Inr[where m = "bind_client api intr cbp"])
  then have run: "init_rdma_ch api intr attr w = Inr (cbp, ?w')"
    unfolding client(10) by (simp add: thenK_Inr)
  have "init_ctxs (iters (attr_msgbuf_cnt attr)) \<noteq> []" using cnt by (simp add: init_ctxs_def iters_def)
  then have "destroy_rdma_client cbp ?w' = Inl NullDeref"
    using destroy_without_pd[of cbp ?w' ?cb' "init_ctxs (iters (attr_msgbuf_cnt attr))"] client w
    by (simp add: init_ctxs_def)
  then show ?thesis using run by simp
qed

theorem resolve_error_hidden_witness:
  "\<exists>p w'. init_rdma_ch (sample_api\<lparr>rdma_resolve_addr_ret := \<lambda>w c s. - 113\<rparr>) sample_intr sample_attr sample_start
       = Inr (p, w') \<and> p \<noteq> 0 \<and> destroy_rdma_client p w' = Inl NullDeref"
proof -
  let ?api = "sample_api\<lparr>rdma_resolve_addr_ret := \<lambda>w c s. - 113\<rparr>"
  have "alloc_sound ?api" using sample_alloc_sound by (simp add: alloc_sound_def)
  moreover have "verbs_sound ?api" using sample_verbs_sound by (simp add: verbs_sound_def)
  ultimately obtain p w' where "init_rdma_ch ?api sample_intr sample_attr sample_start = Inr (p, w')"
    "p \<noteq> 0 \<longrightarrow> destroy_rdma_client p w' = Inl NullDeref"
    using resolve_error_hidden[of ?api sample_attr sample_intr sample_start] by (auto simp: sample_attr_def)
  moreover have "case init_rdma_ch ?api sample_intr sample_attr sample_start of Inl _ \<Rightarrow> False | Inr (p, _) \<Rightarrow> p \<noteq> 0"
    by code_simp
  ultimately show ?thesis by auto
qed

end
