(* ===== verification/Bitmap.thy ===== *)
theory Bitmap
  imports Kern_World
begin

text \<open>
  The message-buffer bitmap of \<^verbatim>\<open>bitmap.c\<close>: an array of four bytes, one per message buffer, zero when
  the buffer is free. The pure functions work on the bytes and report an access past the end of
  the array; the heap operations apply them to the array behind a pointer. The interface of a slot
  pool states what the allocator in \<^verbatim>\<open>rpc_common.c\<close> relies on, and the bytes interpret it.
\<close>

section \<open>Definitions\<close>

definition BIT_ARR_SIZE :: nat where
  "BIT_ARR_SIZE = 4"

text \<open>The loop of \<open>bit_array_find_first_clear_bit\<close> from index \<open>i\<close>; \<open>r\<close> is the value of \<open>*result\<close>.\<close>

function find_loop :: "byte list \<Rightarrow> nat \<Rightarrow> u64 \<Rightarrow> fault + byte \<times> u64" where
  "find_loop bs i r =
     (if i < BIT_ARR_SIZE then
        (if i < length bs then
           (if bs ! i = 0 then Inr (1, of_nat i) else find_loop bs (Suc i) r)
         else Inl OutOfBounds)
      else Inr (0, r))"
  by pat_completeness auto
termination
  by (relation "measure (\<lambda>(bs, i, r). BIT_ARR_SIZE - i)") auto

declare find_loop.simps [simp del]

definition find_first_clear :: "byte list \<Rightarrow> u64 \<Rightarrow> fault + byte \<times> u64" where
  "find_first_clear bs r = find_loop bs 0 r"

definition put_bit :: "byte list \<Rightarrow> u64 \<Rightarrow> byte \<Rightarrow> fault + byte list" where
  "put_bit bs b v =
     (if unat b < BIT_ARR_SIZE then
        (if unat b < length bs then Inr (bs[unat b := v]) else Inl OutOfBounds)
      else Inr bs)"

text \<open>The operations on the array behind a pointer.\<close>

definition bit_array_find_first_clear_bit :: "addr \<Rightarrow> u64 \<Rightarrow> (world, byte \<times> u64) kern" where
  "bit_array_find_first_clear_bit bitarr result =
     bindK (load w_bytes bitarr) (\<lambda>bs.
     case find_first_clear bs result of Inl e \<Rightarrow> failK e | Inr x \<Rightarrow> returnK x)"

definition bit_array_write :: "addr \<Rightarrow> u64 \<Rightarrow> byte \<Rightarrow> (world, unit) kern" where
  "bit_array_write bitarr b v =
     (if unat b < BIT_ARR_SIZE then
        bindK (load w_bytes bitarr) (\<lambda>bs.
        case put_bit bs b v of
          Inl e \<Rightarrow> failK e
        | Inr bs' \<Rightarrow> modify_at w_bytes w_bytes_update bitarr (\<lambda>_. bs'))
      else returnK ())"

definition bit_array_set_bit :: "addr \<Rightarrow> u64 \<Rightarrow> (world, unit) kern" where
  "bit_array_set_bit bitarr b = bit_array_write bitarr b 1"

definition bit_array_clear_bit :: "addr \<Rightarrow> u64 \<Rightarrow> (world, unit) kern" where
  "bit_array_clear_bit bitarr b = bit_array_write bitarr b 0"

definition bit_array_free :: "addr \<Rightarrow> (world, unit) kern" where
  "bit_array_free bitarr = free_at w_bytes w_bytes_update bitarr"

text \<open>
  The abstract view of a bitmap: the set of buffers in use. A bitmap is well formed when it has the
  four bytes the code indexes.
\<close>

definition wf_bitmap :: "byte list \<Rightarrow> bool" where
  "wf_bitmap bs \<longleftrightarrow> length bs = BIT_ARR_SIZE"

definition used :: "byte list \<Rightarrow> u64 set" where
  "used bs = {i. unat i < length bs \<and> bs ! unat i \<noteq> 0}"

definition slots :: "u64 set" where
  "slots = {i. unat i < BIT_ARR_SIZE}"

definition clear_slot :: "byte list \<Rightarrow> u64 option" where
  "clear_slot bs =
     (case find_first_clear bs 0 of Inl _ \<Rightarrow> None | Inr (ret, i) \<Rightarrow> if ret = 0 then None else Some i)"

definition set_slot :: "u64 \<Rightarrow> byte list \<Rightarrow> byte list" where
  "set_slot i bs = (case put_bit bs i 1 of Inl _ \<Rightarrow> bs | Inr bs' \<Rightarrow> bs')"

definition free_slot :: "u64 \<Rightarrow> byte list \<Rightarrow> byte list" where
  "free_slot i bs = (case put_bit bs i 0 of Inl _ \<Rightarrow> bs | Inr bs' \<Rightarrow> bs')"

section \<open>The interface of a slot pool\<close>

locale slot_pool =
  fixes find_free :: "'b \<Rightarrow> u64 option"
    and take_slot :: "u64 \<Rightarrow> 'b \<Rightarrow> 'b"
    and give_slot :: "u64 \<Rightarrow> 'b \<Rightarrow> 'b"
    and in_use :: "'b \<Rightarrow> u64 set"
    and cap :: "u64 set"
    and invar :: "'b \<Rightarrow> bool"
  assumes find_Some: "invar b \<Longrightarrow> find_free b = Some i \<Longrightarrow>
                        i \<in> cap \<and> i \<notin> in_use b \<and> (\<forall>j<i. j \<in> in_use b)"
    and find_None: "invar b \<Longrightarrow> find_free b = None \<longleftrightarrow> in_use b = cap"
    and in_use_take: "invar b \<Longrightarrow> i \<in> cap \<Longrightarrow> in_use (take_slot i b) = insert i (in_use b)"
    and in_use_give: "invar b \<Longrightarrow> in_use (give_slot i b) = in_use b - {i}"
    and in_use_cap: "invar b \<Longrightarrow> in_use b \<subseteq> cap"
    and invar_take: "invar b \<Longrightarrow> invar (take_slot i b)"
    and invar_give: "invar b \<Longrightarrow> invar (give_slot i b)"
begin

lemma take_grows:
  assumes "invar b" and "find_free b = Some i"
  shows "in_use (take_slot i b) = insert i (in_use b)" and "i \<notin> in_use b" and "i \<in> cap"
  using assms find_Some in_use_take by blast+

lemma give_take:
  assumes "invar b" and "find_free b = Some i"
  shows "in_use (give_slot i (take_slot i b)) = in_use b"
  using assms take_grows by (simp add: in_use_give invar_take)

lemma find_after_give:
  assumes "invar b" and "i \<in> in_use b"
  shows "\<exists>j. find_free (give_slot i b) = Some j \<and> j \<le> i"
proof -
  have inv: "invar (give_slot i b)" using assms(1) by (rule invar_give)
  have "i \<in> cap" using assms in_use_cap by blast
  then have "find_free (give_slot i b) \<noteq> None"
    using find_None[OF inv] assms(1) by (auto simp: in_use_give)
  then obtain j where j: "find_free (give_slot i b) = Some j" by blast
  have "\<forall>k<j. k \<in> in_use (give_slot i b)" using find_Some[OF inv j] by blast
  then have "\<not> i < j" using assms(1) by (auto simp: in_use_give)
  with j show ?thesis by (auto simp: not_less)
qed

lemma find_full: "invar b \<Longrightarrow> in_use b = cap \<Longrightarrow> find_free b = None"
  by (simp add: find_None)

end

section \<open>The bytes implement the pool\<close>

definition clear_from :: "byte list \<Rightarrow> nat \<Rightarrow> nat \<Rightarrow> bool" where
  "clear_from bs i k \<longleftrightarrow> i \<le> k \<and> k < BIT_ARR_SIZE \<and> bs ! k = 0"

lemma find_loop_spec:
  assumes "length bs = BIT_ARR_SIZE" and "i \<le> BIT_ARR_SIZE"
  shows "find_loop bs i r =
     (if Ex (clear_from bs i) then Inr (1, of_nat (Least (clear_from bs i))) else Inr (0, r))"
  using assms
proof (induction bs i r rule: find_loop.induct)
  case (1 bs i r)
  consider (skip) "i < BIT_ARR_SIZE" "bs ! i \<noteq> 0" | (hit) "i < BIT_ARR_SIZE" "bs ! i = 0"
    | (stop) "\<not> i < BIT_ARR_SIZE" by blast
  then show ?case
  proof cases
    case skip
    have same: "clear_from bs i = clear_from bs (Suc i)"
      using skip by (auto simp: clear_from_def fun_eq_iff Suc_le_eq le_eq_less_or_eq)
    have "find_loop bs i r = find_loop bs (Suc i) r"
      using skip "1.prems" by (simp add: find_loop.simps[of bs i r])
    with "1.IH" skip "1.prems" same show ?thesis by simp
  next
    case hit
    then have "clear_from bs i i" and "Least (clear_from bs i) = i"
      by (auto simp: clear_from_def intro: Least_equality)
    with hit "1.prems" show ?thesis by (auto simp: find_loop.simps[of bs i r])
  next
    case stop
    then have "\<not> Ex (clear_from bs i)" by (auto simp: clear_from_def)
    with stop show ?thesis by (simp add: find_loop.simps[of bs i r])
  qed
qed

lemma of_nat_small [simp]: "k < BIT_ARR_SIZE \<Longrightarrow> unat (of_nat k :: u64) = k"
  by (simp add: BIT_ARR_SIZE_def unat_of_nat)

lemma clear_slot_Some:
  assumes "wf_bitmap bs" and "clear_slot bs = Some i"
  shows "i \<in> slots \<and> i \<notin> used bs \<and> (\<forall>j<i. j \<in> used bs)"
proof -
  let ?P = "clear_from bs 0"
  have len: "length bs = BIT_ARR_SIZE" using assms(1) by (simp add: wf_bitmap_def)
  have ex: "Ex ?P" and i: "i = of_nat (Least ?P)"
    using assms(2) find_loop_spec[OF len, of 0 0]
    by (auto simp: clear_slot_def find_first_clear_def split: if_splits)
  have P: "?P (Least ?P)" using ex by (rule LeastI_ex)
  then have un: "unat i = Least ?P" using i by (simp add: clear_from_def)
  have "j \<in> used bs" if "j < i" for j
  proof -
    have lt: "unat j < Least ?P" using that un by (simp add: word_less_nat_alt)
    then have "\<not> ?P (unat j)" by (rule not_less_Least)
    with lt P show ?thesis by (simp add: used_def len clear_from_def)
  qed
  then show ?thesis using P un by (auto simp: slots_def used_def clear_from_def)
qed

lemma clear_slot_None:
  assumes "wf_bitmap bs"
  shows "clear_slot bs = None \<longleftrightarrow> used bs = slots"
proof -
  have len: "length bs = BIT_ARR_SIZE" using assms by (simp add: wf_bitmap_def)
  have "clear_slot bs = None \<longleftrightarrow> (\<forall>k<BIT_ARR_SIZE. bs ! k \<noteq> 0)"
    using find_loop_spec[OF len, of 0 0]
    by (auto simp: clear_slot_def find_first_clear_def clear_from_def split: if_splits)
  also have "\<dots> \<longleftrightarrow> used bs = slots"
    by (auto simp: used_def slots_def len set_eq_iff) (metis of_nat_small)
  finally show ?thesis .
qed

lemma used_put:
  assumes "wf_bitmap bs" and "put_bit bs i v = Inr bs'"
  shows "used bs' = (if i \<in> slots then (if v = 0 then used bs - {i} else insert i (used bs)) else used bs)"
  using assms by (auto simp: put_bit_def used_def slots_def wf_bitmap_def nth_list_update
      word_unat_eq_iff split: if_splits)

lemma put_bit_wf: "wf_bitmap bs \<Longrightarrow> put_bit bs i v = Inr bs' \<Longrightarrow> wf_bitmap bs'"
  by (auto simp: put_bit_def wf_bitmap_def split: if_splits)

lemma put_bit_total: "wf_bitmap bs \<Longrightarrow> \<exists>bs'. put_bit bs i v = Inr bs'"
  by (simp add: put_bit_def wf_bitmap_def)

lemma used_subset: "wf_bitmap bs \<Longrightarrow> used bs \<subseteq> slots"
  by (auto simp: used_def slots_def wf_bitmap_def)

lemma set_slot_put: "wf_bitmap bs \<Longrightarrow> put_bit bs i 1 = Inr (set_slot i bs)"
  using put_bit_total[of bs i 1] by (auto simp: set_slot_def)

lemma free_slot_put: "wf_bitmap bs \<Longrightarrow> put_bit bs i 0 = Inr (free_slot i bs)"
  using put_bit_total[of bs i 0] by (auto simp: free_slot_def)

lemmas slot_puts = set_slot_put free_slot_put

lemma used_set_slot: "wf_bitmap bs \<Longrightarrow> i \<in> slots \<Longrightarrow> used (set_slot i bs) = insert i (used bs)"
  using used_put[OF _ set_slot_put] by simp

lemma used_free_slot: "wf_bitmap bs \<Longrightarrow> used (free_slot i bs) = used bs - {i}"
  using used_put[OF _ free_slot_put, of bs i] used_subset[of bs] by auto

lemma wf_set_slot: "wf_bitmap bs \<Longrightarrow> wf_bitmap (set_slot i bs)"
  by (rule put_bit_wf[OF _ set_slot_put])

lemma wf_free_slot: "wf_bitmap bs \<Longrightarrow> wf_bitmap (free_slot i bs)"
  by (rule put_bit_wf[OF _ free_slot_put])

interpretation bitmap: slot_pool clear_slot set_slot free_slot used slots wf_bitmap
  by unfold_locales
    (simp_all add: clear_slot_Some clear_slot_None used_set_slot used_free_slot used_subset
      wf_set_slot wf_free_slot)

lemma slots_eq: "slots = {0, 1, 2, 3}"
proof -
  have "i \<in> slots \<longleftrightarrow> i \<in> {0, 1, 2, 3}" for i :: u64
    by (auto simp: slots_def BIT_ARR_SIZE_def word_unat_eq_iff)
  then show ?thesis by blast
qed

section \<open>The heap operations\<close>

lemma find_first_clear_slot:
  assumes "wf_bitmap bs"
  shows "find_first_clear bs r =
     (case clear_slot bs of None \<Rightarrow> Inr (0, r) | Some i \<Rightarrow> Inr (1, i))"
  using find_loop_spec[of bs 0] assms
  by (auto simp: clear_slot_def find_first_clear_def wf_bitmap_def split: if_splits)

lemma bit_array_find_run:
  assumes "p \<noteq> NULL" and "w_bytes w p = Some bs" and "wf_bitmap bs"
  shows "bit_array_find_first_clear_bit p r w =
     Inr ((case clear_slot bs of None \<Rightarrow> (0, r) | Some i \<Rightarrow> (1, i)), w)"
  using assms
  by (simp add: bit_array_find_first_clear_bit_def bindK_def load_def find_first_clear_slot
      split: option.splits)

lemma bit_array_set_run:
  assumes "p \<noteq> NULL" and "w_bytes w p = Some bs" and "wf_bitmap bs"
  shows "bit_array_set_bit p i w = Inr ((), w\<lparr>w_bytes := (w_bytes w)(p \<mapsto> set_slot i bs)\<rparr>)"
  using assms set_slot_put[OF assms(3), of i]
  by (auto simp: bit_array_set_bit_def bit_array_write_def bindK_def load_def modify_at_def
      put_bit_def fun_upd_idem)

lemma bit_array_clear_run:
  assumes "p \<noteq> NULL" and "w_bytes w p = Some bs" and "wf_bitmap bs"
  shows "bit_array_clear_bit p i w = Inr ((), w\<lparr>w_bytes := (w_bytes w)(p \<mapsto> free_slot i bs)\<rparr>)"
  using assms free_slot_put[OF assms(3), of i]
  by (auto simp: bit_array_clear_bit_def bit_array_write_def bindK_def load_def modify_at_def
      put_bit_def fun_upd_idem)

lemmas bitmap_runs = bit_array_find_run bit_array_set_run bit_array_clear_run

section \<open>Properties\<close>

text \<open>
  On a live bitmap \<open>bit_array_find_first_clear_bit\<close> returns 1 and the lowest index that is not
  set, or, exactly when every index is set, returns 0 and leaves the result untouched; it changes
  no memory.
\<close>

theorem find_first_clear_bit_correct:
  assumes "p \<noteq> NULL" and "w_bytes w p = Some bs" and "wf_bitmap bs"
  shows "\<exists>ret i. bit_array_find_first_clear_bit p r w = Inr ((ret, i), w)
     \<and> (ret = 1 \<and> i \<in> slots \<and> i \<notin> used bs \<and> (\<forall>j. j < i \<longrightarrow> j \<in> used bs)
        \<or> ret = 0 \<and> i = r \<and> used bs = slots)"
proof (cases "clear_slot bs")
  case None
  then show ?thesis
    using bit_array_find_run[OF assms, of r] bitmap.find_None[OF assms(3)] by simp
next
  case (Some i)
  then show ?thesis
    using bit_array_find_run[OF assms, of r] bitmap.find_Some[OF assms(3)] by simp
qed

theorem find_first_clear_bit_correct_witness:
  "\<exists>ret i. bit_array_find_first_clear_bit 8 7 (empty_world\<lparr>w_bytes := [8 \<mapsto> [1, 1, 0, 1]]\<rparr>)
       = Inr ((ret, i), empty_world\<lparr>w_bytes := [8 \<mapsto> [1, 1, 0, 1]]\<rparr>)
     \<and> (ret = 1 \<and> i \<in> slots \<and> i \<notin> used [1, 1, 0, 1] \<and> (\<forall>j. j < i \<longrightarrow> j \<in> used [1, 1, 0, 1])
        \<or> ret = 0 \<and> i = 7 \<and> used [1, 1, 0, 1] = slots)"
  by (rule find_first_clear_bit_correct) (simp_all add: wf_bitmap_def BIT_ARR_SIZE_def)

text \<open>
  C26. Setting and clearing a bit refine insertion into and removal from the set of buffers in
  use: the bitmap stays well formed, an index outside the bitmap changes nothing, and no other
  memory is written.
\<close>

theorem bit_array_refines_set:
  assumes "p \<noteq> NULL" and "w_bytes w p = Some bs" and "wf_bitmap bs"
  shows "\<exists>bs1 bs0. bit_array_set_bit p i w = Inr ((), w\<lparr>w_bytes := (w_bytes w)(p \<mapsto> bs1)\<rparr>)
     \<and> bit_array_clear_bit p i w = Inr ((), w\<lparr>w_bytes := (w_bytes w)(p \<mapsto> bs0)\<rparr>)
     \<and> wf_bitmap bs1 \<and> wf_bitmap bs0
     \<and> used bs1 = used bs \<union> ({i} \<inter> slots) \<and> used bs0 = used bs - {i}"
proof (intro exI conjI)
  show "used (set_slot i bs) = used bs \<union> ({i} \<inter> slots)"
    using used_put[OF assms(3) set_slot_put[OF assms(3), of i]] by auto
  show "used (free_slot i bs) = used bs - {i}" using assms(3) by (rule bitmap.in_use_give)
qed (use assms in \<open>simp_all add: bitmap_runs wf_set_slot wf_free_slot\<close>)

theorem bit_array_refines_set_witness:
  "\<exists>bs1 bs0. bit_array_set_bit 8 2 (empty_world\<lparr>w_bytes := [8 \<mapsto> [1, 1, 0, 0]]\<rparr>)
       = Inr ((), (empty_world\<lparr>w_bytes := [8 \<mapsto> [1, 1, 0, 0]]\<rparr>)\<lparr>w_bytes :=
           (w_bytes (empty_world\<lparr>w_bytes := [8 \<mapsto> [1, 1, 0, 0]]\<rparr>))(8 \<mapsto> bs1)\<rparr>)
     \<and> bit_array_clear_bit 8 2 (empty_world\<lparr>w_bytes := [8 \<mapsto> [1, 1, 0, 0]]\<rparr>)
       = Inr ((), (empty_world\<lparr>w_bytes := [8 \<mapsto> [1, 1, 0, 0]]\<rparr>)\<lparr>w_bytes :=
           (w_bytes (empty_world\<lparr>w_bytes := [8 \<mapsto> [1, 1, 0, 0]]\<rparr>))(8 \<mapsto> bs0)\<rparr>)
     \<and> wf_bitmap bs1 \<and> wf_bitmap bs0
     \<and> used bs1 = used [1, 1, 0, 0] \<union> ({2} \<inter> slots) \<and> used bs0 = used [1, 1, 0, 0] - {2}"
  by (rule bit_array_refines_set) (simp_all add: wf_bitmap_def BIT_ARR_SIZE_def)

end
