(* ===== verification/Rpc_Common.thy ===== *)
theory Rpc_Common
  imports Bitmap
begin

text \<open>
  The allocator of message-buffer ids (\<^verbatim>\<open>rpc_common.c\<close>): a spin lock around the bitmap, a loop that
  retries until a buffer is free, and the release of an id. Two models of the same code: the
  sequential operations on the heap, where each failed attempt lets the environment deliver one
  event, and an interleaving of any number of threads, one step per source statement, with the
  lock as part of the state.
\<close>

section \<open>The operations\<close>

text \<open>
  Taking a held spin lock spins until its holder releases it; on this single flow of control no
  other holder can run, so it is \<open>Blocked\<close>.
\<close>

definition spin_lock :: "addr \<Rightarrow> (world, unit) kern" where
  "spin_lock rpc_ch =
     bindK (load w_rpcs rpc_ch) (\<lambda>ch.
     if msgbuf_bitmap_lock ch then failK Blocked
     else modify_at w_rpcs w_rpcs_update rpc_ch (\<lambda>c. c\<lparr>msgbuf_bitmap_lock := True\<rparr>))"

definition spin_unlock :: "addr \<Rightarrow> (world, unit) kern" where
  "spin_unlock rpc_ch =
     modify_at w_rpcs w_rpcs_update rpc_ch (\<lambda>c. c\<lparr>msgbuf_bitmap_lock := False\<rparr>)"

text \<open>One iteration of the loop of \<open>alloc_msgbuf_id\<close>.\<close>

definition alloc_try :: "addr \<Rightarrow> u64 \<Rightarrow> (world, byte \<times> u64) kern" where
  "alloc_try rpc_ch bit_id =
     thenK (spin_lock rpc_ch)
     (bindK (load w_rpcs rpc_ch) (\<lambda>ch.
      bindK (bit_array_find_first_clear_bit (msgbuf_bitmap ch) bit_id) (\<lambda>(ret, bit_id).
      thenK (whenK (ret \<noteq> 0) (bit_array_set_bit (msgbuf_bitmap ch) bit_id))
      (thenK (spin_unlock rpc_ch)
      (returnK (ret, bit_id))))))"

fun alloc_loop ::
    "(env_event \<Rightarrow> (world, unit) kern) \<Rightarrow> addr \<Rightarrow> u64 \<Rightarrow> env_event list \<Rightarrow> (world, u64) kern" where
  "alloc_loop intr rpc_ch bit_id [] w =
     (case alloc_try rpc_ch bit_id w of
        Inl f \<Rightarrow> Inl f
      | Inr ((ret, b), w') \<Rightarrow> if ret \<noteq> 0 then Inr (b, w'\<lparr>w_pending := []\<rparr>) else Inl Blocked)"
| "alloc_loop intr rpc_ch bit_id (e # es) w =
     (case alloc_try rpc_ch bit_id w of
        Inl f \<Rightarrow> Inl f
      | Inr ((ret, b), w') \<Rightarrow>
          if ret \<noteq> 0 then Inr (b, w'\<lparr>w_pending := e # es\<rparr>)
          else (case intr e w' of Inl f \<Rightarrow> Inl f | Inr (_, w'') \<Rightarrow> alloc_loop intr rpc_ch b es w''))"

definition alloc_msgbuf_id ::
    "(env_event \<Rightarrow> (world, unit) kern) \<Rightarrow> addr \<Rightarrow> (world, u64) kern" where
  "alloc_msgbuf_id intr rpc_ch = bindK (getK w_pending) (alloc_loop intr rpc_ch 0)"

definition free_msgbuf_id :: "addr \<Rightarrow> u64 \<Rightarrow> (world, unit) kern" where
  "free_msgbuf_id rpc_ch bit_id =
     thenK (spin_lock rpc_ch)
     (bindK (load w_rpcs rpc_ch) (\<lambda>ch.
      thenK (bit_array_clear_bit (msgbuf_bitmap ch) bit_id)
      (spin_unlock rpc_ch)))"

section \<open>Interleaved threads\<close>

text \<open>
  A thread is idle, inside \<open>alloc_msgbuf_id\<close>, between a request and its response (\<open>Holding\<close>), or
  inside \<open>free_msgbuf_id\<close>; the constructors are the points between the statements of both
  functions. The shared state is the lock holder and the bitmap.
\<close>

datatype pc =
  Idle | Locking | Finding | Setting u64 | Unlocking "u64 option" | Holding u64
  | FreeLocking u64 | Clearing u64 | FreeUnlocking

record pool =
  lock_holder :: "nat option"
  bitmap_bytes :: "byte list"
  pcs :: "nat \<Rightarrow> pc"

definition init_pool :: pool where
  "init_pool = \<lparr>lock_holder = None, bitmap_bytes = replicate BIT_ARR_SIZE 0, pcs = (\<lambda>_. Idle)\<rparr>"

abbreviation (input) move :: "nat \<Rightarrow> pc \<Rightarrow> pool \<Rightarrow> pool" where
  "move t c s \<equiv> s\<lparr>pcs := (pcs s)(t := c)\<rparr>"

inductive pool_step :: "pool \<Rightarrow> pool \<Rightarrow> bool" where
  call_alloc: "pcs s t = Idle \<Longrightarrow> pool_step s (move t Locking s)"
| alloc_lock: "pcs s t = Locking \<Longrightarrow> lock_holder s = None \<Longrightarrow>
    pool_step s (move t Finding (s\<lparr>lock_holder := Some t\<rparr>))"
| find_ok: "pcs s t = Finding \<Longrightarrow> find_first_clear (bitmap_bytes s) r = Inr (ret, i) \<Longrightarrow> ret \<noteq> 0 \<Longrightarrow>
    pool_step s (move t (Setting i) s)"
| find_fail: "pcs s t = Finding \<Longrightarrow> find_first_clear (bitmap_bytes s) r = Inr (0, i) \<Longrightarrow>
    pool_step s (move t (Unlocking None) s)"
| set_bit: "pcs s t = Setting i \<Longrightarrow> put_bit (bitmap_bytes s) i 1 = Inr bs \<Longrightarrow>
    pool_step s (move t (Unlocking (Some i)) (s\<lparr>bitmap_bytes := bs\<rparr>))"
| unlock_got: "pcs s t = Unlocking (Some i) \<Longrightarrow>
    pool_step s (move t (Holding i) (s\<lparr>lock_holder := None\<rparr>))"
| unlock_retry: "pcs s t = Unlocking None \<Longrightarrow>
    pool_step s (move t Locking (s\<lparr>lock_holder := None\<rparr>))"
| call_free: "pcs s t = Holding i \<Longrightarrow> pool_step s (move t (FreeLocking i) s)"
| free_lock: "pcs s t = FreeLocking i \<Longrightarrow> lock_holder s = None \<Longrightarrow>
    pool_step s (move t (Clearing i) (s\<lparr>lock_holder := Some t\<rparr>))"
| clear_bit: "pcs s t = Clearing i \<Longrightarrow> put_bit (bitmap_bytes s) i 0 = Inr bs \<Longrightarrow>
    pool_step s (move t FreeUnlocking (s\<lparr>bitmap_bytes := bs\<rparr>))"
| free_unlock: "pcs s t = FreeUnlocking \<Longrightarrow>
    pool_step s (move t Idle (s\<lparr>lock_holder := None\<rparr>))"

inductive pool_reachable :: "pool \<Rightarrow> bool" where
  start: "pool_reachable init_pool"
| step: "pool_reachable s \<Longrightarrow> pool_step s s' \<Longrightarrow> pool_reachable s'"

text \<open>The buffer a thread owns, and whether it is inside the critical section.\<close>

primrec owned :: "pc \<Rightarrow> u64 set" where
  "owned Idle = {}"
| "owned Locking = {}"
| "owned Finding = {}"
| "owned (Setting i) = {}"
| "owned (Unlocking r) = set_option r"
| "owned (Holding i) = {i}"
| "owned (FreeLocking i) = {i}"
| "owned (Clearing i) = {i}"
| "owned FreeUnlocking = {}"

primrec in_section :: "pc \<Rightarrow> bool" where
  "in_section Idle = False"
| "in_section Locking = False"
| "in_section Finding = True"
| "in_section (Setting i) = True"
| "in_section (Unlocking r) = True"
| "in_section (Holding i) = False"
| "in_section (FreeLocking i) = False"
| "in_section (Clearing i) = True"
| "in_section FreeUnlocking = True"

definition pool_inv :: "pool \<Rightarrow> bool" where
  "pool_inv s \<longleftrightarrow>
     wf_bitmap (bitmap_bytes s)
     \<and> (\<forall>t. in_section (pcs s t) \<longleftrightarrow> lock_holder s = Some t)
     \<and> (\<forall>t u i. i \<in> owned (pcs s t) \<longrightarrow> i \<in> owned (pcs s u) \<longrightarrow> t = u)
     \<and> used (bitmap_bytes s) = (\<Union>t. owned (pcs s t))
     \<and> (\<forall>t i. pcs s t = Setting i \<longrightarrow> i \<in> slots \<and> i \<notin> used (bitmap_bytes s))"

section \<open>Sequential behaviour\<close>

text \<open>A usable channel: its lock is free and its bitmap is a live, well-formed array.\<close>

definition channel_ok :: "addr \<Rightarrow> rpc_ch_info \<Rightarrow> byte list \<Rightarrow> world \<Rightarrow> bool" where
  "channel_ok rpc_ch ch bs w \<longleftrightarrow>
     rpc_ch \<noteq> NULL \<and> w_rpcs w rpc_ch = Some ch \<and> \<not> msgbuf_bitmap_lock ch
     \<and> msgbuf_bitmap ch \<noteq> NULL \<and> w_bytes w (msgbuf_bitmap ch) = Some bs \<and> wf_bitmap bs"

abbreviation (input) with_bitmap :: "rpc_ch_info \<Rightarrow> byte list \<Rightarrow> world \<Rightarrow> world" where
  "with_bitmap ch bs w \<equiv> w\<lparr>w_bytes := (w_bytes w)(msgbuf_bitmap ch \<mapsto> bs)\<rparr>"

lemma channel_ok_with_bitmap:
  "channel_ok p ch bs w \<Longrightarrow> wf_bitmap bs' \<Longrightarrow> channel_ok p ch bs' (with_bitmap ch bs' w)"
  by (simp add: channel_ok_def)

text \<open>The lock leaves no trace: taking and releasing it restores the channel.\<close>

lemma unlocked_restored: "\<not> msgbuf_bitmap_lock ch \<Longrightarrow> ch\<lparr>msgbuf_bitmap_lock := False\<rparr> = ch"
  by (cases ch) simp

lemma alloc_try_run:
  assumes "channel_ok p ch bs w"
  shows "alloc_try p b w =
     (case clear_slot bs of
        None \<Rightarrow> Inr ((0, b), w)
      | Some i \<Rightarrow> Inr ((1, i), with_bitmap ch (set_slot i bs) w))"
proof -
  have ch: "p \<noteq> 0" "w_rpcs w p = Some ch" "\<not> msgbuf_bitmap_lock ch" "msgbuf_bitmap ch \<noteq> 0"
    "w_bytes w (msgbuf_bitmap ch) = Some bs" "wf_bitmap bs"
    using assms by (auto simp: channel_ok_def)
  let ?w1 = "w\<lparr>w_rpcs := (w_rpcs w)(p \<mapsto> ch\<lparr>msgbuf_bitmap_lock := True\<rparr>)\<rparr>"
  have lock: "spin_lock p w = Inr ((), ?w1)"
    using ch by (simp add: spin_lock_def bindK_def load_def modify_at_def)
  have find: "bit_array_find_first_clear_bit (msgbuf_bitmap ch) b ?w1 =
      Inr ((case clear_slot bs of None \<Rightarrow> (0, b) | Some i \<Rightarrow> (1, i)), ?w1)"
    using ch by (intro bit_array_find_run) simp_all
  have set: "bit_array_set_bit (msgbuf_bitmap ch) i ?w1 =
      Inr ((), ?w1\<lparr>w_bytes := (w_bytes ?w1)(msgbuf_bitmap ch \<mapsto> set_slot i bs)\<rparr>)" for i
    using ch by (intro bit_array_set_run) simp_all
  show ?thesis
    using ch lock find set
    by (simp add: alloc_try_def thenK_def bindK_def load_def spin_unlock_def modify_at_def
        unlocked_restored fun_upd_idem split: option.splits)
qed

lemma free_msgbuf_id_run:
  assumes "channel_ok p ch bs w"
  shows "free_msgbuf_id p i w = Inr ((), with_bitmap ch (free_slot i bs) w)"
proof -
  have ch: "p \<noteq> 0" "w_rpcs w p = Some ch" "\<not> msgbuf_bitmap_lock ch" "msgbuf_bitmap ch \<noteq> 0"
    "w_bytes w (msgbuf_bitmap ch) = Some bs" "wf_bitmap bs"
    using assms by (auto simp: channel_ok_def)
  let ?w1 = "w\<lparr>w_rpcs := (w_rpcs w)(p \<mapsto> ch\<lparr>msgbuf_bitmap_lock := True\<rparr>)\<rparr>"
  have lock: "spin_lock p w = Inr ((), ?w1)"
    using ch by (simp add: spin_lock_def bindK_def load_def modify_at_def)
  have clear: "bit_array_clear_bit (msgbuf_bitmap ch) i ?w1 =
      Inr ((), ?w1\<lparr>w_bytes := (w_bytes ?w1)(msgbuf_bitmap ch \<mapsto> free_slot i bs)\<rparr>)"
    using ch by (intro bit_array_clear_run) simp_all
  show ?thesis
    using ch lock clear
    by (simp add: free_msgbuf_id_def thenK_def bindK_def load_def spin_unlock_def modify_at_def
        unlocked_restored fun_upd_idem)
qed

text \<open>With a free buffer the loop ends at once, whatever the environment still delivers.\<close>

lemma alloc_now:
  assumes "channel_ok p ch bs w" and "clear_slot bs = Some i"
  shows "alloc_msgbuf_id intr p w = Inr (i, with_bitmap ch (set_slot i bs) w)"
proof (cases "w_pending w")
  case Nil
  then show ?thesis
    using alloc_try_run[OF assms(1), of 0] assms(2)
    by (simp add: alloc_msgbuf_id_def bindK_def)
next
  case (Cons e es)
  then show ?thesis
    using alloc_try_run[OF assms(1), of 0] assms(2)
    by (simp add: alloc_msgbuf_id_def bindK_def)
qed

text \<open>
  With no free buffer the loop spins until an event makes one free: if the first \<open>length es\<close> events
  leave the pool full and the next one returns buffer \<open>i\<close>, that buffer is allocated.
\<close>

lemma alloc_spin:
  assumes "channel_ok p ch bs w" and "used bs = slots"
    and "intr e w = Inr (u, w')"
  shows "alloc_loop intr p b (e # es) w = alloc_loop intr p b es w'"
  using assms alloc_try_run[OF assms(1), of b] by (simp add: bitmap.find_full channel_ok_def)

section \<open>Every interleaving keeps the pool consistent\<close>

lemma pool_invD:
  assumes "pool_inv s"
  shows "wf_bitmap (bitmap_bytes s)"
    and "in_section (pcs s t) \<longleftrightarrow> lock_holder s = Some t"
    and "i \<in> owned (pcs s t) \<Longrightarrow> i \<in> owned (pcs s u) \<Longrightarrow> t = u"
    and "used (bitmap_bytes s) = (\<Union>t. owned (pcs s t))"
    and "pcs s t = Setting i \<Longrightarrow> i \<in> slots \<and> i \<notin> used (bitmap_bytes s)"
proof -
  have inv: "wf_bitmap (bitmap_bytes s)"
    "\<forall>t. in_section (pcs s t) \<longleftrightarrow> lock_holder s = Some t"
    "\<forall>t u i. i \<in> owned (pcs s t) \<longrightarrow> i \<in> owned (pcs s u) \<longrightarrow> t = u"
    "used (bitmap_bytes s) = (\<Union>t. owned (pcs s t))"
    "\<forall>t i. pcs s t = Setting i \<longrightarrow> i \<in> slots \<and> i \<notin> used (bitmap_bytes s)"
    using assms unfolding pool_inv_def by - (elim conjE, assumption)+
  show "wf_bitmap (bitmap_bytes s)" by (rule inv(1))
  show "used (bitmap_bytes s) = (\<Union>t. owned (pcs s t))" by (rule inv(4))
  show "in_section (pcs s t) \<longleftrightarrow> lock_holder s = Some t" by (rule inv(2)[rule_format])
  show "i \<in> owned (pcs s t) \<Longrightarrow> i \<in> owned (pcs s u) \<Longrightarrow> t = u" by (rule inv(3)[rule_format])
  show "pcs s t = Setting i \<Longrightarrow> i \<in> slots \<and> i \<notin> used (bitmap_bytes s)"
    using inv(5) by simp
qed

lemma pool_invI:
  assumes "wf_bitmap (bitmap_bytes s)"
    and "\<And>t. in_section (pcs s t) \<longleftrightarrow> lock_holder s = Some t"
    and "\<And>t u i. i \<in> owned (pcs s t) \<Longrightarrow> i \<in> owned (pcs s u) \<Longrightarrow> t = u"
    and "used (bitmap_bytes s) = (\<Union>t. owned (pcs s t))"
    and "\<And>t i. pcs s t = Setting i \<Longrightarrow> i \<in> slots \<and> i \<notin> used (bitmap_bytes s)"
  shows "pool_inv s"
proof -
  have "\<forall>t. in_section (pcs s t) \<longleftrightarrow> lock_holder s = Some t"
    by (intro allI) (rule assms(2))
  moreover have "\<forall>t u i. i \<in> owned (pcs s t) \<longrightarrow> i \<in> owned (pcs s u) \<longrightarrow> t = u"
    by (intro allI impI) (rule assms(3))
  moreover have "\<forall>t i. pcs s t = Setting i \<longrightarrow> i \<in> slots \<and> i \<notin> used (bitmap_bytes s)"
    by (intro allI impI) (rule assms(5))
  ultimately show ?thesis
    using assms(1,4) unfolding pool_inv_def by (intro conjI)
qed

lemma init_pool_inv: "pool_inv init_pool"
proof -
  have "used (replicate BIT_ARR_SIZE 0) = {}" by (auto simp: used_def)
  then show ?thesis by (simp add: pool_inv_def init_pool_def wf_bitmap_def)
qed

text \<open>
  A thread that moves without touching the bitmap and keeps what it owns: outside the lock, taking
  the lock, releasing it.
\<close>

lemma pool_inv_move:
  assumes inv: "pool_inv s" and own: "owned c = owned (pcs s t)"
    and sec: "\<And>u. in_section (if u = t then c else pcs s u) \<longleftrightarrow> l = Some u"
    and setting: "\<And>i. c = Setting i \<Longrightarrow> i \<in> slots \<and> i \<notin> used (bitmap_bytes s)"
  shows "pool_inv (s\<lparr>lock_holder := l, pcs := (pcs s)(t := c)\<rparr>)"
proof (rule pool_invI)
  let ?s = "s\<lparr>lock_holder := l, pcs := (pcs s)(t := c)\<rparr>"
  have o: "owned (pcs ?s u) = owned (pcs s u)" for u
    using own by simp
  show "wf_bitmap (bitmap_bytes ?s)" using pool_invD(1)[OF inv] by simp
  show "in_section (pcs ?s u) \<longleftrightarrow> lock_holder ?s = Some u" for u using sec[of u] by simp
  show "u = v" if "j \<in> owned (pcs ?s u)" "j \<in> owned (pcs ?s v)" for j u v
    using that unfolding o by (rule pool_invD(3)[OF inv])
  show "used (bitmap_bytes ?s) = (\<Union>u. owned (pcs ?s u))"
    unfolding o using pool_invD(4)[OF inv] by simp
  show "j \<in> slots \<and> j \<notin> used (bitmap_bytes ?s)" if "pcs ?s u = Setting j" for u j
    using that setting[of j] pool_invD(5)[OF inv, of u j] by (simp split: if_splits)
qed

lemma pool_inv_stay:
  assumes inv: "pool_inv s" and own: "owned c = owned (pcs s t)"
    and sec: "in_section c = in_section (pcs s t)"
    and setting: "\<And>i. c = Setting i \<Longrightarrow> i \<in> slots \<and> i \<notin> used (bitmap_bytes s)"
  shows "pool_inv (s\<lparr>pcs := (pcs s)(t := c)\<rparr>)"
proof -
  have "in_section (if u = t then c else pcs s u) \<longleftrightarrow> lock_holder s = Some u" for u
    using sec pool_invD(2)[OF inv, of u] by auto
  from pool_inv_move[OF inv own this setting] show ?thesis by simp
qed

lemma pool_inv_lock:
  assumes inv: "pool_inv s" and own: "owned c = owned (pcs s t)" and free: "lock_holder s = None"
    and sec: "in_section c" and setting: "\<And>i. c \<noteq> Setting i"
  shows "pool_inv (s\<lparr>lock_holder := Some t, pcs := (pcs s)(t := c)\<rparr>)"
proof -
  have "in_section (if u = t then c else pcs s u) \<longleftrightarrow> Some t = Some u" for u
    using sec free pool_invD(2)[OF inv, of u] by simp
  from pool_inv_move[OF inv own this] setting show ?thesis by blast
qed

lemma pool_inv_unlock:
  assumes inv: "pool_inv s" and own: "owned c = owned (pcs s t)" and held: "in_section (pcs s t)"
    and sec: "\<not> in_section c"
  shows "pool_inv (s\<lparr>lock_holder := None, pcs := (pcs s)(t := c)\<rparr>)"
proof -
  have "lock_holder s = Some t" using pool_invD(2)[OF inv] held by blast
  then have "in_section (if u = t then c else pcs s u) \<longleftrightarrow> None = Some u" for u
    using sec pool_invD(2)[OF inv, of u] by auto
  moreover have "c \<noteq> Setting i" for i using sec by auto
  ultimately show ?thesis using pool_inv_move[OF inv own] by blast
qed

text \<open>
  The two steps that write the bitmap. Under the lock no other thread is about to set a bit, so
  the bitmap changes by exactly the buffer this thread gains or gives back.
\<close>

lemma others_not_setting:
  assumes "pool_inv s" and "in_section (pcs s t)" and "u \<noteq> t"
  shows "pcs s u \<noteq> Setting j"
proof
  assume "pcs s u = Setting j"
  then have "in_section (pcs s u)" by simp
  with assms pool_invD(2)[OF assms(1)] show False by (metis option.inject)
qed

lemma pool_inv_write:
  assumes inv: "pool_inv s" and held: "in_section (pcs s t)" and c: "in_section c" "\<And>j. c \<noteq> Setting j"
    and wf: "wf_bitmap bs"
    and us: "used bs = (\<Union>u. owned (if u = t then c else pcs s u))"
    and disj: "\<And>u j. u \<noteq> t \<Longrightarrow> j \<in> owned c \<Longrightarrow> j \<notin> owned (pcs s u)"
  shows "pool_inv (s\<lparr>bitmap_bytes := bs, pcs := (pcs s)(t := c)\<rparr>)"
proof (rule pool_invI)
  let ?s = "s\<lparr>bitmap_bytes := bs, pcs := (pcs s)(t := c)\<rparr>"
  show "wf_bitmap (bitmap_bytes ?s)" using wf by simp
  show "in_section (pcs ?s u) \<longleftrightarrow> lock_holder ?s = Some u" for u
    using pool_invD(2)[OF inv, of u] held c(1) by auto
  show "u = v" if "j \<in> owned (pcs ?s u)" "j \<in> owned (pcs ?s v)" for j u v
    using that disj[of u j] disj[of v j] pool_invD(3)[OF inv, of j u v] by (simp split: if_splits)
  show "used (bitmap_bytes ?s) = (\<Union>u. owned (pcs ?s u))" using us by simp
  show "j \<in> slots \<and> j \<notin> used (bitmap_bytes ?s)" if "pcs ?s u = Setting j" for u j
    using that c(2)[of j] others_not_setting[OF inv held, of u j] by (auto split: if_splits)
qed

lemma pool_inv_take:
  assumes inv: "pool_inv s" and pc: "pcs s t = Setting i" and put: "put_bit (bitmap_bytes s) i 1 = Inr bs"
  shows "pool_inv (s\<lparr>bitmap_bytes := bs, pcs := (pcs s)(t := Unlocking (Some i))\<rparr>)"
proof (rule pool_inv_write[OF inv])
  have wf: "wf_bitmap (bitmap_bytes s)" using inv by (rule pool_invD)
  have i: "i \<in> slots" "i \<notin> used (bitmap_bytes s)" using pool_invD(5)[OF inv pc] by auto
  have bs: "bs = set_slot i (bitmap_bytes s)" using set_slot_put[OF wf, of i] put by simp
  show "wf_bitmap bs" unfolding bs by (rule wf_set_slot[OF wf])
  have "used bs = insert i (\<Union>u. owned (pcs s u))"
    unfolding bs used_set_slot[OF wf i(1)] pool_invD(4)[OF inv] ..
  also have "\<dots> = (\<Union>u. owned (if u = t then Unlocking (Some i) else pcs s u))"
    using pc by (auto split: if_splits) (metis empty_iff owned.simps(4))
  finally show "used bs = (\<Union>u. owned (if u = t then Unlocking (Some i) else pcs s u))" .
  show "j \<notin> owned (pcs s u)" if "j \<in> owned (Unlocking (Some i))" for j u
    using that i(2) pool_invD(4)[OF inv] by auto
qed (simp_all add: pc)

lemma pool_inv_give:
  assumes inv: "pool_inv s" and pc: "pcs s t = Clearing i" and put: "put_bit (bitmap_bytes s) i 0 = Inr bs"
  shows "pool_inv (s\<lparr>bitmap_bytes := bs, pcs := (pcs s)(t := FreeUnlocking)\<rparr>)"
proof (rule pool_inv_write[OF inv])
  have wf: "wf_bitmap (bitmap_bytes s)" using inv by (rule pool_invD)
  have bs: "bs = free_slot i (bitmap_bytes s)" using free_slot_put[OF wf, of i] put by simp
  show "wf_bitmap bs" unfolding bs by (rule wf_free_slot[OF wf])
  have mine: "i \<in> owned (pcs s u) \<longleftrightarrow> u = t" for u
    using pool_invD(3)[OF inv, of i t u] pc by auto
  have "used bs = (\<Union>u. owned (pcs s u)) - {i}"
    unfolding bs used_free_slot[OF wf] pool_invD(4)[OF inv] ..
  also have "\<dots> = (\<Union>u. owned (if u = t then FreeUnlocking else pcs s u))"
    using pc mine by (auto split: if_splits) (metis owned.simps(8) singletonD)
  finally show "used bs = (\<Union>u. owned (if u = t then FreeUnlocking else pcs s u))" .
qed (simp_all add: pc)

lemma find_ok_slot:
  assumes "pool_inv s" and "find_first_clear (bitmap_bytes s) r = Inr (ret, i)" and "ret \<noteq> 0"
  shows "i \<in> slots \<and> i \<notin> used (bitmap_bytes s)"
proof -
  have wf: "wf_bitmap (bitmap_bytes s)" using assms(1) by (rule pool_invD)
  have "clear_slot (bitmap_bytes s) = Some i"
    using assms(2,3) find_first_clear_slot[OF wf, of r] by (auto split: option.splits)
  then show ?thesis using clear_slot_Some[OF wf] by blast
qed

lemma pool_step_inv:
  assumes "pool_step s s'" and inv: "pool_inv s"
  shows "pool_inv s'"
  using assms
proof (induction rule: pool_step.induct)
  case (find_ok s t r ret i)
  from find_ok.prems find_ok.hyps(2,3) have "i \<in> slots \<and> i \<notin> used (bitmap_bytes s)"
    by (rule find_ok_slot)
  with find_ok show ?case by (intro pool_inv_stay) auto
next
  case (call_alloc s t)
  then show ?case by (intro pool_inv_stay) auto
next
  case (find_fail s t r i)
  then show ?case by (intro pool_inv_stay) auto
next
  case (call_free s t i)
  then show ?case by (intro pool_inv_stay) auto
qed (simp_all add: pool_inv_lock pool_inv_unlock pool_inv_take pool_inv_give)

lemma pool_reachable_inv: "pool_reachable s \<Longrightarrow> pool_inv s"
  by (induction rule: pool_reachable.induct) (auto intro: init_pool_inv pool_step_inv)

lemma lock_holder_steps:
  assumes "pool_inv s" and "lock_holder s = Some t"
  shows "\<exists>c s'. pool_step s s' \<and> pcs s' t = c \<and> c \<noteq> pcs s t"
proof -
  have sec: "in_section (pcs s t)" using assms pool_invD(2) by blast
  have wf: "wf_bitmap (bitmap_bytes s)" using assms(1) by (rule pool_invD)
  show ?thesis
  proof (cases "pcs s t")
    case Finding
    show ?thesis
    proof (cases "clear_slot (bitmap_bytes s)")
      case None
      then have "find_first_clear (bitmap_bytes s) 0 = Inr (0, 0)"
        using find_first_clear_slot[OF wf] by simp
      from pool_step.find_fail[OF Finding this] show ?thesis using Finding by force
    next
      case (Some i)
      then have "find_first_clear (bitmap_bytes s) 0 = Inr (1, i)"
        using find_first_clear_slot[OF wf] by simp
      from pool_step.find_ok[OF Finding this] show ?thesis using Finding by force
    qed
  next
    case (Setting i)
    from pool_step.set_bit[OF Setting set_slot_put[OF wf]] show ?thesis using Setting by force
  next
    case (Unlocking r)
    then show ?thesis
      using pool_step.unlock_got[of s t] pool_step.unlock_retry[of s t] by (cases r) force+
  next
    case (Clearing i)
    from pool_step.clear_bit[OF Clearing free_slot_put[OF wf]] show ?thesis using Clearing by force
  next
    case FreeUnlocking
    from pool_step.free_unlock[OF this] show ?thesis using FreeUnlocking by force
  qed (use sec in simp_all)
qed

lemma holders_bound:
  assumes "pool_inv s"
  shows "finite {t. owned (pcs s t) \<noteq> {}} \<and> card {t. owned (pcs s t) \<noteq> {}} \<le> BIT_ARR_SIZE"
proof -
  let ?own = "\<lambda>i. THE t. i \<in> owned (pcs s t)"
  have fin: "finite slots" and four: "card slots = BIT_ARR_SIZE"
    by (simp_all add: slots_eq BIT_ARR_SIZE_def)
  have "t \<in> ?own ` slots" if t: "owned (pcs s t) \<noteq> {}" for t
  proof -
    obtain i where i: "i \<in> owned (pcs s t)" using t by blast
    then have "i \<in> slots"
      using pool_invD(1,4)[OF assms] used_subset by blast
    moreover have "?own i = t"
      using i pool_invD(3)[OF assms] by (intro the_equality) blast+
    ultimately show ?thesis by blast
  qed
  then have sub: "{t. owned (pcs s t) \<noteq> {}} \<subseteq> ?own ` slots" by blast
  then have "card {t. owned (pcs s t) \<noteq> {}} \<le> card (?own ` slots)"
    using fin by (intro card_mono) simp_all
  also have "\<dots> \<le> BIT_ARR_SIZE" using card_image_le[OF fin, of ?own] four by simp
  finally show ?thesis using sub fin finite_subset by blast
qed

lemma alloc_spins:
  assumes intr: "\<And>e w bs. channel_ok p ch bs w \<Longrightarrow> used bs = slots \<Longrightarrow>
            \<exists>u w' bs'. intr e w = Inr (u, w') \<and> channel_ok p ch bs' w' \<and> used bs' = slots"
  shows "channel_ok p ch bs w \<Longrightarrow> used bs = slots \<Longrightarrow> alloc_loop intr p b es w = Inl Blocked"
proof (induction es arbitrary: w bs b)
  case Nil
  then show ?case
    using alloc_try_run[OF Nil.prems(1), of b] by (simp add: bitmap.find_full channel_ok_def)
next
  case (Cons e es)
  obtain u w' bs' where "intr e w = Inr (u, w')" "channel_ok p ch bs' w'" "used bs' = slots"
    using intr[OF Cons.prems] by blast
  then show ?case using alloc_spin[OF Cons.prems] Cons.IH by simp
qed

text \<open>A run of one thread, used to show that the hypotheses of the properties can hold.\<close>

definition one_thread :: "nat option \<Rightarrow> byte list \<Rightarrow> pc \<Rightarrow> pool" where
  "one_thread l bs c = \<lparr>lock_holder = l, bitmap_bytes = bs, pcs = (\<lambda>_. Idle)(7 := c)\<rparr>"

lemma one_thread_steps:
  "pool_step (one_thread None bs Idle) (one_thread None bs Locking)"
  "pool_step (one_thread None bs Locking) (one_thread (Some 7) bs Finding)"
  "find_first_clear bs 0 = Inr (1, i) \<Longrightarrow>
   pool_step (one_thread (Some 7) bs Finding) (one_thread (Some 7) bs (Setting i))"
  "put_bit bs i 1 = Inr bs' \<Longrightarrow>
   pool_step (one_thread l bs (Setting i)) (one_thread l bs' (Unlocking (Some i)))"
  "pool_step (one_thread l bs (Unlocking (Some i))) (one_thread None bs (Holding i))"
  using pool_step.call_alloc[of "one_thread None bs Idle" 7]
    pool_step.alloc_lock[of "one_thread None bs Locking" 7]
    pool_step.find_ok[of "one_thread (Some 7) bs Finding" 7 0 1 i]
    pool_step.set_bit[of "one_thread l bs (Setting i)" 7 i bs']
    pool_step.unlock_got[of "one_thread l bs (Unlocking (Some i))" 7 i]
  by (simp_all add: one_thread_def)

lemma setting_reachable: "pool_reachable (one_thread (Some 7) [0, 0, 0, 0] (Setting 0))"
proof -
  have "init_pool = one_thread None [0, 0, 0, 0] Idle"
    by (simp add: init_pool_def one_thread_def BIT_ARR_SIZE_def numeral_eq_Suc fun_upd_idem)
  moreover have "find_first_clear [0, 0, 0, 0] 0 = Inr (1, 0)"
    by (simp add: find_first_clear_def find_loop.simps BIT_ARR_SIZE_def)
  ultimately show ?thesis
    using pool_reachable.start one_thread_steps(1-3) pool_reachable.step by metis
qed

lemma holding_reachable: "pool_reachable (one_thread None [1, 0, 0, 0] (Holding 0))"
proof -
  have "put_bit [0, 0, 0, 0] 0 1 = Inr [1, 0, 0, 0]"
    by (simp add: put_bit_def BIT_ARR_SIZE_def)
  then show ?thesis
    using setting_reachable one_thread_steps(4,5) pool_reachable.step by metis
qed

section \<open>Properties of the allocator\<close>

text \<open>
  C4. In every interleaving of any number of threads that allocate and free message buffers,
  two threads never hold the same buffer, a held buffer is one of the four, the bitmap marks
  exactly the buffers in flight, and never more than four threads hold one.
\<close>

theorem msgbuf_mutual_exclusion:
  assumes "pool_reachable s"
  shows "(pcs s t = Holding i \<longrightarrow> pcs s u = Holding i \<longrightarrow> t = u)
     \<and> (pcs s t = Holding i \<longrightarrow> i \<in> slots \<and> i \<in> used (bitmap_bytes s))
     \<and> used (bitmap_bytes s) = (\<Union>v. owned (pcs s v))
     \<and> finite {v. owned (pcs s v) \<noteq> {}} \<and> card {v. owned (pcs s v) \<noteq> {}} \<le> BIT_ARR_SIZE"
proof -
  have inv: "pool_inv s" using assms by (rule pool_reachable_inv)
  have "pcs s t = Holding i \<longrightarrow> pcs s u = Holding i \<longrightarrow> t = u"
    using pool_invD(3)[OF inv, of i t u] by simp
  moreover have "pcs s t = Holding i \<longrightarrow> i \<in> used (bitmap_bytes s)"
    unfolding pool_invD(4)[OF inv] by (metis UNIV_I UN_I owned.simps(6) singletonI)
  ultimately show ?thesis
    using holders_bound[OF inv] pool_invD(1,4)[OF inv] used_subset by blast
qed

theorem msgbuf_mutual_exclusion_witness:
  "pcs (one_thread None [1, 0, 0, 0] (Holding 0)) 7 = Holding 0
     \<and> 0 \<in> slots \<and> 0 \<in> used (bitmap_bytes (one_thread None [1, 0, 0, 0] (Holding 0)))"
proof -
  have "pcs (one_thread None [1, 0, 0, 0] (Holding 0)) 7 = Holding 0" by (simp add: one_thread_def)
  then show ?thesis using msgbuf_mutual_exclusion[OF holding_reachable, of 7 0 7] by blast
qed



text \<open>
  With a free buffer \<open>alloc_msgbuf_id\<close> returns at once the lowest free id, marks exactly it
  as in use, leaves the lock free and the rest of the memory as it was, and giving the id back
  with \<open>free_msgbuf_id\<close> restores the set of buffers in use.
\<close>

theorem alloc_then_free:
  assumes "channel_ok p ch bs w" and "used bs \<noteq> slots"
  shows "\<exists>i bs' bs''. i \<in> slots \<and> i \<notin> used bs \<and> (\<forall>j. j < i \<longrightarrow> j \<in> used bs)
     \<and> alloc_msgbuf_id intr p w = Inr (i, with_bitmap ch bs' w)
     \<and> used bs' = insert i (used bs) \<and> channel_ok p ch bs' (with_bitmap ch bs' w)
     \<and> free_msgbuf_id p i (with_bitmap ch bs' w) = Inr ((), with_bitmap ch bs'' w)
     \<and> used bs'' = used bs"
proof -
  have wf: "wf_bitmap bs" using assms(1) by (simp add: channel_ok_def)
  obtain i where i: "clear_slot bs = Some i"
    using assms(2) bitmap.find_None[OF wf] by blast
  let ?bs = "set_slot i bs"
  have ok: "channel_ok p ch ?bs (with_bitmap ch ?bs w)"
    using assms(1) wf_set_slot[OF wf] by (rule channel_ok_with_bitmap)
  have "free_msgbuf_id p i (with_bitmap ch ?bs w) = Inr ((), with_bitmap ch (free_slot i ?bs) w)"
    using free_msgbuf_id_run[OF ok, of i] by simp
  then show ?thesis
    using alloc_now[OF assms(1) i] bitmap.find_Some[OF wf i] bitmap.take_grows[OF wf i]
      bitmap.give_take[OF wf i] ok by blast
qed

definition sample_channel :: rpc_ch_info where
  "sample_channel = \<lparr>ch_type = 1, ch_cb = 32, msgbuf_bitmap = 8, msgbuf_bitmap_lock = False\<rparr>"

definition sample_world :: "byte list \<Rightarrow> world" where
  "sample_world bs = empty_world\<lparr>w_rpcs := [16 \<mapsto> sample_channel], w_bytes := [8 \<mapsto> bs]\<rparr>"

lemma sample_channel_ok: "length bs = 4 \<Longrightarrow> channel_ok 16 sample_channel bs (sample_world bs)"
  by (simp add: channel_ok_def sample_channel_def sample_world_def wf_bitmap_def BIT_ARR_SIZE_def)

lemma used_full: "wf_bitmap bs \<Longrightarrow> 0 \<notin> set bs \<Longrightarrow> used bs = slots"
  unfolding used_def slots_def wf_bitmap_def by (metis nth_mem)

lemma used_samples: "used [1, 0, 0, 0] \<noteq> slots" "used [1, 1, 1, 1] = slots"
proof -
  have "1 \<notin> used [1, 0, 0, 0]" and "1 \<in> slots"
    by (simp_all add: used_def slots_def BIT_ARR_SIZE_def)
  then show "used [1, 0, 0, 0] \<noteq> slots" by blast
  show "used [1, 1, 1, 1] = slots" by (rule used_full) (simp_all add: wf_bitmap_def BIT_ARR_SIZE_def)
qed

theorem alloc_then_free_witness:
  "\<exists>i bs' bs''. i \<in> slots \<and> i \<notin> used [1, 0, 0, 0] \<and> (\<forall>j. j < i \<longrightarrow> j \<in> used [1, 0, 0, 0])
     \<and> alloc_msgbuf_id (\<lambda>_. returnK ()) 16 (sample_world [1, 0, 0, 0])
        = Inr (i, with_bitmap sample_channel bs' (sample_world [1, 0, 0, 0]))
     \<and> used bs' = insert i (used [1, 0, 0, 0])
     \<and> channel_ok 16 sample_channel bs' (with_bitmap sample_channel bs' (sample_world [1, 0, 0, 0]))
     \<and> free_msgbuf_id 16 i (with_bitmap sample_channel bs' (sample_world [1, 0, 0, 0]))
        = Inr ((), with_bitmap sample_channel bs'' (sample_world [1, 0, 0, 0]))
     \<and> used bs'' = used [1, 0, 0, 0]"
  by (rule alloc_then_free) (use sample_channel_ok used_samples in auto)

text \<open>
  With every buffer in use \<open>alloc_msgbuf_id\<close> does not fail: it retries until an event handler
  gives a buffer back, and then returns that buffer.
\<close>

theorem alloc_waits_for_free:
  assumes "channel_ok p ch bs w" and "used bs = slots" and "w_pending w = e # es"
    and "intr e w = Inr (u, w')" and "channel_ok p ch bs' w'" and "used bs' = slots - {i}"
    and "i \<in> slots"
  shows "\<exists>w''. alloc_msgbuf_id intr p w = Inr (i, w'') \<and> w_pending w'' = es
     \<and> w'' = with_bitmap ch (set_slot i bs') w'\<lparr>w_pending := es\<rparr> \<and> used (set_slot i bs') = slots"
proof -
  have wf: "wf_bitmap bs'" using assms(5) by (simp add: channel_ok_def)
  obtain j where j: "clear_slot bs' = Some j"
    using bitmap.find_None[OF wf] assms(6,7) by blast
  then have "j = i" using bitmap.find_Some[OF wf j] assms(6) by auto
  then have found: "alloc_try p 0 w' = Inr ((1, i), with_bitmap ch (set_slot i bs') w')"
    using alloc_try_run[OF assms(5), of 0] j by simp
  have "alloc_loop intr p 0 es w' = Inr (i, with_bitmap ch (set_slot i bs') w'\<lparr>w_pending := es\<rparr>)"
    using found by (cases es) simp_all
  then have "alloc_msgbuf_id intr p w = Inr (i, with_bitmap ch (set_slot i bs') w'\<lparr>w_pending := es\<rparr>)"
    using alloc_spin[where intr = intr, OF assms(1,2,4), of 0 es] assms(3) by (simp add: alloc_msgbuf_id_def bindK_def)
  moreover have "used (set_slot i bs') = slots"
    using bitmap.in_use_take[OF wf assms(7)] assms(6,7) by auto
  ultimately show ?thesis by simp
qed

definition freeing_handler :: "env_event \<Rightarrow> (world, unit) kern" where
  "freeing_handler e = free_msgbuf_id 16 2"

theorem alloc_waits_for_free_witness:
  "\<exists>w''. alloc_msgbuf_id freeing_handler 16 (sample_world [1, 1, 1, 1]\<lparr>w_pending := [CqEvent 48]\<rparr>)
      = Inr (2, w'') \<and> w_pending w'' = []"
proof -
  let ?w = "sample_world [1, 1, 1, 1]\<lparr>w_pending := [CqEvent 48]\<rparr>"
  have ok: "channel_ok 16 sample_channel [1, 1, 1, 1] ?w"
    using sample_channel_ok[of "[1, 1, 1, 1]"] by (simp add: channel_ok_def)
  have wf: "wf_bitmap [1, 1, 1, 1]" by (simp add: wf_bitmap_def BIT_ARR_SIZE_def)
  have run: "freeing_handler (CqEvent 48) ?w =
      Inr ((), with_bitmap sample_channel (free_slot 2 [1, 1, 1, 1]) ?w)"
    unfolding freeing_handler_def by (rule free_msgbuf_id_run[OF ok])
  have after: "channel_ok 16 sample_channel (free_slot 2 [1, 1, 1, 1])
      (with_bitmap sample_channel (free_slot 2 [1, 1, 1, 1]) ?w)"
    using ok wf_free_slot[OF wf] by (rule channel_ok_with_bitmap)
  have used2: "used (free_slot 2 [1, 1, 1, 1]) = slots - {2}"
    using used_free_slot[OF wf, of 2] used_samples by simp
  have "w_pending ?w = CqEvent 48 # []" by simp
  from alloc_waits_for_free[where intr = freeing_handler, OF ok used_samples(2) this run after used2]
  show ?thesis by (auto simp: slots_eq)
qed

text \<open>
  If no event handler ever gives a buffer back, a thread that finds every buffer in use spins
  for ever: \<open>alloc_msgbuf_id\<close> has no failure return.
\<close>

theorem alloc_blocks_when_never_freed:
  assumes "\<And>e w bs. channel_ok p ch bs w \<Longrightarrow> used bs = slots \<Longrightarrow>
       \<exists>u w' bs'. intr e w = Inr (u, w') \<and> channel_ok p ch bs' w' \<and> used bs' = slots"
    and "channel_ok p ch bs w" and "used bs = slots"
  shows "alloc_msgbuf_id intr p w = Inl Blocked"
  using alloc_spins[OF assms] by (simp add: alloc_msgbuf_id_def bindK_def)

theorem alloc_blocks_when_never_freed_witness:
  "alloc_msgbuf_id (\<lambda>_. returnK ()) 16 (sample_world [1, 1, 1, 1]) = Inl Blocked"
  by (rule alloc_blocks_when_never_freed[where ch = sample_channel and bs = "[1, 1, 1, 1]"])
    (use sample_channel_ok used_samples in auto)

end
