(* ===== verification/Rpc_Client.thy ===== *)
theory Rpc_Client
  imports Rdma_Channel Rpc_Common
begin

text \<open>
  The RPC layer of a client (\<^verbatim>\<open>rpc_client.c\<close>): creation and destruction of an RPC channel, the
  request that takes a message-buffer id and sends through that buffer, and the handler that a
  response runs, which gives the id back and calls the application. The application's handlers are
  a parameter \<open>users\<close>, indexed by the number in the function pointer.
\<close>

section \<open>The response handler\<close>

abbreviation (input) upd_rpc :: "addr \<Rightarrow> (rpc_ch_info \<Rightarrow> rpc_ch_info) \<Rightarrow> (world, unit) kern" where
  "upd_rpc \<equiv> modify_at w_rpcs w_rpcs_update"

text \<open>\<open>msgbuf_id\<close> is an \<open>int\<close> passed as \<open>uint64_t\<close>: it is sign-extended.\<close>

definition client_rpc_rdma_msg_handler ::
    "(nat \<Rightarrow> addr \<Rightarrow> (world, unit) kern) \<Rightarrow> addr \<Rightarrow> (world, unit) kern" where
  "client_rpc_rdma_msg_handler users arg =
     bindK (load w_rhs arg) (\<lambda>rpc_pa.
     thenK (free_msgbuf_id (rh_client_rpc_ch rpc_pa) (scast (rh_msgbuf_id rpc_pa)))
     (bindK (load w_rhs arg) (\<lambda>rpc_pa.
      thenK (case rh_user_msg_handler_cb rpc_pa of
               Fn_user n \<Rightarrow> users n (rh_param rpc_pa)
             | _ \<Rightarrow> failK NullDeref)
      (free_at w_rhs w_rhs_update arg))))"

text \<open>The call through a function pointer, as \<open>receive_msg\<close> makes it.\<close>

definition rpc_callf ::
    "(nat \<Rightarrow> addr \<Rightarrow> (world, unit) kern) \<Rightarrow> fnptr \<Rightarrow> addr \<Rightarrow> (world, unit) kern" where
  "rpc_callf users f arg =
     (case f of
        FnNull \<Rightarrow> failK NullDeref
      | Fn_client_rpc_rdma_msg_handler \<Rightarrow> client_rpc_rdma_msg_handler users arg
      | Fn_user n \<Rightarrow> users n arg)"

section \<open>Creation and destruction\<close>

text \<open>
  \<open>strcpy\<close> into an array with the given contents: the bytes up to and including the first zero
  byte; it runs past an array when the source has no zero byte or the destination is too short.
\<close>

definition strcpy_bytes :: "byte list \<Rightarrow> byte list \<Rightarrow> (world, byte list) kern" where
  "strcpy_bytes dst src =
     (let s = takeWhile (\<lambda>b. b \<noteq> 0) src in
      if length s < length src \<and> length s < length dst then returnK (s @ 0 # drop (Suc (length s)) dst)
      else failK OutOfBounds)"

definition rpc_rdma_attr :: "byte list \<Rightarrow> c_int \<Rightarrow> c_int \<Rightarrow> fnptr \<Rightarrow> rdma_ch_attr" where
  "rpc_rdma_attr ip port max_msgdata_size msg_handler = \<lparr>attr_port = port, attr_server = 0, attr_ip_addr = ip,
     attr_msgbuf_cnt = RPC_MSG_BUF_NUM, attr_msgdata_size = max_msgdata_size,
     attr_rpc_msg_handler_cb = Fn_client_rpc_rdma_msg_handler, attr_user_msg_handler_cb = msg_handler\<rparr>"

text \<open>The label \<open>err\<close> of \<open>init_rpc_client\<close>.\<close>

definition init_rpc_client_err :: "addr \<Rightarrow> (world, addr) kern" where
  "init_rpc_client_err rpc_ch = thenK (free_at w_rpcs w_rpcs_update rpc_ch) (returnK NULL)"

text \<open>
  The local \<open>rdma_attr\<close> is not initialised: \<open>ip0\<close> is what its 16-byte address array holds on entry.
\<close>

definition init_rpc_client ::
    "kapi \<Rightarrow> (env_event \<Rightarrow> (world, unit) kern) \<Rightarrow> byte list \<Rightarrow> c_int \<Rightarrow> addr \<Rightarrow> c_int \<Rightarrow> c_int \<Rightarrow> fnptr
     \<Rightarrow> (world, addr) kern" where
  "init_rpc_client api intr ip0 ty target port max_msgdata_size msg_handler =
     bindK (kzalloc_obj api w_rpcs w_rpcs_update (sizeof_rpc_ch_info api) zero_rpc_ch) (\<lambda>rpc_ch.
     thenK (upd_rpc rpc_ch (\<lambda>c. c\<lparr>ch_type := ty\<rparr>))
     (bindK (kzalloc_obj api w_bytes w_bytes_update 4 (replicate 4 0)) (\<lambda>bitmap.
      thenK (upd_rpc rpc_ch (\<lambda>c. c\<lparr>msgbuf_bitmap := bitmap\<rparr>))
      (thenK (upd_rpc rpc_ch (\<lambda>c. c\<lparr>msgbuf_bitmap_lock := False\<rparr>))
      (if ty = RPC_CH_RDMA then
         bindK (load w_bytes target) (\<lambda>src.
         bindK (strcpy_bytes ip0 src) (\<lambda>ip.
         bindK (init_rdma_ch api intr (rpc_rdma_attr ip port max_msgdata_size msg_handler)) (\<lambda>cb.
         thenK (upd_rpc rpc_ch (\<lambda>c. c\<lparr>ch_cb := cb\<rparr>))
         (if cb = NULL then init_rpc_client_err rpc_ch else returnK rpc_ch))))
       else init_rpc_client_err rpc_ch)))))"

definition destroy_rpc_client :: "addr \<Rightarrow> (world, unit) kern" where
  "destroy_rpc_client rpc_ch =
     bindK (load w_rpcs rpc_ch) (\<lambda>ch.
     thenK (if ch_type ch = RPC_CH_RDMA then destroy_rdma_client (ch_cb ch) else returnK ())
     (bindK (load w_rpcs rpc_ch) (\<lambda>ch.
      thenK (bit_array_free (msgbuf_bitmap ch))
      (free_at w_rpcs w_rpcs_update rpc_ch))))"

section \<open>Requests\<close>

text \<open>The 64-bit id is returned through an \<open>int\<close>; the result of \<open>send_rdma_msg\<close> is not looked at.\<close>

definition send_rpc_msg_to_server ::
    "kapi \<Rightarrow> (env_event \<Rightarrow> (world, unit) kern) \<Rightarrow> rpc_req_param \<Rightarrow> (world, c_int) kern" where
  "send_rpc_msg_to_server api intr req_param =
     (let rpc_ch = req_rpc_ch req_param in
      bindK (alloc_msgbuf_id intr rpc_ch) (\<lambda>bit_id. let msgbuf_id = ucast bit_id in
      bindK (load w_rpcs rpc_ch) (\<lambda>ch.
      thenK (if ch_type ch = RPC_CH_RDMA
             then thenK (send_rdma_msg api (ch_cb ch) rpc_ch (req_data req_param) (req_sem req_param) msgbuf_id 0)
                    (returnK ())
             else returnK ())
      (returnK msgbuf_id))))"

section \<open>What a request does\<close>

lemma slot_int: "i \<in> slots \<Longrightarrow>
   sint (ucast i :: c_int) = int (unat i) \<and> unat i < 4 \<and> uint i < 4 \<and> scast (ucast i :: c_int) = i"
  by (auto simp: slots_eq)

lemma buffers_ok_bytes: "buffers_ok cbp cb cs pdv w \<Longrightarrow> buffers_ok cbp cb cs pdv (w\<lparr>w_bytes := h\<rparr>)"
  by (rule buffers_ok_frame) simp_all

text \<open>An RPC channel over an RDMA channel that has all of its message buffers.\<close>

definition rpc_ready ::
    "addr \<Rightarrow> rpc_ch_info \<Rightarrow> byte list \<Rightarrow> addr \<Rightarrow> rdma_ch_cb \<Rightarrow> msgbuf_ctx list \<Rightarrow> ib_pd \<Rightarrow> world \<Rightarrow> bool" where
  "rpc_ready p ch bs cbp cb cs pdv w \<longleftrightarrow>
     channel_ok p ch bs w \<and> ch_type ch = RPC_CH_RDMA \<and> ch_cb ch = cbp
     \<and> buffers_ok cbp cb cs pdv w \<and> cb_msgbuf_cnt cb = RPC_MSG_BUF_NUM
     \<and> cb_rpc_msg_handler_cb cb = Fn_client_rpc_rdma_msg_handler
     \<and> cb_qp cb \<noteq> NULL \<and> w_qps w (cb_qp cb) \<noteq> None"

text \<open>The state a request through buffer \<open>i\<close> leaves, before the send is posted.\<close>

definition requested ::
    "kapi \<Rightarrow> addr \<Rightarrow> rpc_ch_info \<Rightarrow> byte list \<Rightarrow> rdma_ch_cb \<Rightarrow> msgbuf_ctx list \<Rightarrow> u64 \<Rightarrow> addr \<Rightarrow> byte list \<Rightarrow> world \<Rightarrow> world"
  where "requested api p ch bs cb cs i sem src w =
     sent_state api cb cs (unat i) 0 p sem src (with_bitmap ch (set_slot i bs) w)"

lemma request_run:
  assumes rdy: "rpc_ready p ch bs cbp cb cs pdv w"
    and data: "data \<noteq> 0" "data \<noteq> msgbuf_bitmap ch" "w_bytes w data = Some src" "data_len cb \<le> length src"
    and i: "clear_slot bs = Some i"
  shows "send_rpc_msg_to_server api intr \<lparr>req_rpc_ch = p, req_data = data, req_sem = sem\<rparr> w =
     (let w' = requested api p ch bs cb cs i sem src w
      in Inr (ucast i, if ib_post_send_ret api w' (cb_qp cb) (sq_wr (cs ! unat i)) = 0
                       then w'\<lparr>w_trace := EvPostSend (cb_qp cb) (sq_wr (cs ! unat i)) # w_trace w\<rparr> else w'))"
proof -
  have ch: "channel_ok p ch bs w" "p \<noteq> 0" "w_rpcs w p = Some ch" "ch_type ch = RPC_CH_RDMA" "ch_cb ch = cbp" "wf_bitmap bs"
    and qp: "cb_qp cb \<noteq> 0" "w_qps w (cb_qp cb) \<noteq> None" and cnt: "cb_msgbuf_cnt cb = RPC_MSG_BUF_NUM"
    using rdy by (auto simp: rpc_ready_def channel_ok_def)
  obtain q where q: "w_qps w (cb_qp cb) = Some q" using qp by blast
  have "i \<in> slots" using bitmap.find_Some[OF ch(6) i] by simp
  note n = slot_int[OF this]
  let ?w1 = "with_bitmap ch (set_slot i bs) w"
  have ok1: "buffers_ok cbp cb cs pdv ?w1" using rdy by (intro buffers_ok_bytes) (simp add: rpc_ready_def)
  have "send_rdma_msg api cbp p data sem (ucast i) 0 ?w1 = (let w' = requested api p ch bs cb cs i sem src w;
          r = ib_post_send_ret api w' (cb_qp cb) (sq_wr (cs ! unat i))
      in Inr (if r = 0 then (cb_msgbuf_size cb, w'\<lparr>w_trace := EvPostSend (cb_qp cb) (sq_wr (cs ! unat i)) # w_trace w\<rparr>)
              else (0, w')))"
    using send_run[OF ok1, where k = "ucast i" and data = data and api = api and rpc_ch = p and sem = sem
        and seqn = 0 and src = src and q = q] qp(1) q data n cnt
    by (simp add: requested_def Let_def RPC_MSG_BUF_NUM_def)
  then show ?thesis
    using ch by (simp add: send_rpc_msg_to_server_def bindK_Inr[where m = "alloc_msgbuf_id intr p", OF alloc_now[OF ch(1) i]]
        run_simps Let_def thenK_Inr)
qed

lemma channel_ok_frame:
  "channel_ok p ch bs w \<Longrightarrow> w_rpcs w' = w_rpcs w \<Longrightarrow> w_bytes w' = w_bytes w \<Longrightarrow> channel_ok p ch bs w'"
  by (simp add: channel_ok_def)

section \<open>What a response does\<close>

lemma rx_finish_run:
  "cbp \<noteq> 0 \<Longrightarrow> w_cbs w cbp = Some cb \<Longrightarrow> rx_finish cbp w = Inr (0, w\<lparr>w_cbs := (w_cbs w)(cbp \<mapsto>
     (if cb_state cb \<le> CONNECTED then cb\<lparr>cb_state := WORKING\<rparr> else cb))\<rparr>)"
  by (simp add: rx_finish_def run_simps fun_upd_idem)

text \<open>
  The contract of an application's message handler: given a parameter object and the message it
  refers to, it wakes the requester named in the message and releases both objects.
\<close>

locale response_handler =
  fixes handler :: "addr \<Rightarrow> (world, unit) kern"
  assumes handles: "pa \<noteq> NULL \<Longrightarrow> w_mhs w pa = Some mp \<Longrightarrow> mh_msg mp \<noteq> NULL \<Longrightarrow> w_rmsgs w (mh_msg mp) = Some m \<Longrightarrow>
     hdr_sem (rpc_header m) \<noteq> NULL \<Longrightarrow> w_waitqs w (hdr_sem (rpc_header m)) = Some u \<Longrightarrow>
     handler pa w = Inr ((), rx_state w (EvWake (hdr_sem (rpc_header m)) # w_trace w)
       ((w_rmsgs w)(mh_msg mp := None)) ((w_mhs w)(pa := None)) (w_rhs w))"
begin

lemma response_run:
  assumes rp: "rp \<noteq> NULL" "w_rhs w rp = Some \<lparr>rh_msgbuf_id = ucast i, rh_client_rpc_ch = p, rh_param = pa,
      rh_user_msg_handler_cb = Fn_user n\<rparr>" and user: "users n = handler"
    and ch: "channel_ok p ch bs w" and i: "i \<in> slots"
    and pa: "pa \<noteq> NULL" "w_mhs w pa = Some mp" "mh_msg mp \<noteq> NULL" "w_rmsgs w (mh_msg mp) = Some m"
    and sem: "hdr_sem (rpc_header m) \<noteq> NULL" "w_waitqs w (hdr_sem (rpc_header m)) = Some u"
  shows "client_rpc_rdma_msg_handler users rp w =
     Inr ((), rx_state (with_bitmap ch (free_slot i bs) w) (EvWake (hdr_sem (rpc_header m)) # w_trace w)
       ((w_rmsgs w)(mh_msg mp := None)) ((w_mhs w)(pa := None)) ((w_rhs w)(rp := None)))"
proof -
  let ?w1 = "with_bitmap ch (free_slot i bs) w"
  have free: "free_msgbuf_id p (scast (ucast i :: c_int)) w = Inr ((), ?w1)"
    using free_msgbuf_id_run[OF ch] slot_int[OF i] by simp
  have "handler pa ?w1 = Inr ((), rx_state ?w1 (EvWake (hdr_sem (rpc_header m)) # w_trace w)
       ((w_rmsgs w)(mh_msg mp := None)) ((w_mhs w)(pa := None)) (w_rhs w))"
    using handles[of pa ?w1 mp m u] pa sem by simp
  then show ?thesis
    using rp user by (simp add: client_rpc_rdma_msg_handler_def run_simps
        thenK_Inr[where m = "free_msgbuf_id p (scast (ucast i :: c_int))", OF free] thenK_Inr[where m = "handler pa"])
qed

text \<open>
  A response in buffer \<open>i\<close> either finds no memory and changes nothing, or gives the buffer back,
  wakes the requester and releases every object the delivery allocated.
\<close>

lemma delivery_run:
  assumes as: "alloc_sound api" and rdy: "rpc_ready p ch bs cbp cb cs pdv w" and i: "i \<in> slots"
    and user: "cb_user_msg_handler_cb cb = Fn_user n" "users n = handler"
    and wc: "wc_wr_id wc = i" "wc_byte_len wc = cb_msgbuf_size cb"
    and m: "w_msgs w (recv_buf (cs ! unat i)) = Some m" "ntohll api (rpc_ch_addr m) = p"
    and sem: "ntohll api (sem_addr m) = sem" "sem \<noteq> NULL" "w_waitqs w sem = Some u"
  shows "\<exists>t. receive_msg api (rpc_callf users) cbp wc w = Inr (- ENOMEM, w\<lparr>w_trace := t\<rparr>)
     \<or> receive_msg api (rpc_callf users) cbp wc w = Inr (0, (with_bitmap ch (free_slot i bs) w)\<lparr>
          w_cbs := (w_cbs w)(cbp \<mapsto> (if cb_state cb \<le> CONNECTED then cb\<lparr>cb_state := WORKING\<rparr> else cb)),
          w_trace := EvWake sem # t\<rparr>)"
proof -
  have ok: "buffers_ok cbp cb cs pdv w" and ch: "channel_ok p ch bs w"
    and fn: "cb_rpc_msg_handler_cb cb = Fn_client_rpc_rdma_msg_handler" and cnt: "cb_msgbuf_cnt cb = RPC_MSG_BUF_NUM"
    and cbp: "cbp \<noteq> 0" "w_cbs w cbp = Some cb"
    using rdy by (auto simp: rpc_ready_def buffers_ok_def buf_pre_def)
  note n = slot_int[OF i]
  have k: "ucast i = (ucast (wc_wr_id wc) :: c_int)" "0 \<le> sint (ucast i :: c_int)" "sint (ucast i :: c_int) < sint (cb_msgbuf_cnt cb)"
    using n wc cnt by (simp_all add: RPC_MSG_BUF_NUM_def)
  have m': "w_msgs w (recv_buf (cs ! nat (sint (ucast i :: c_int)))) = Some m" using m(1) n by simp
  from as ok wc(2) k m' show ?thesis
  proof (cases rule: receive_cases[where callf = "rpc_callf users"])
    case (nomem t)
    then show ?thesis by blast
  next
    case (called rp pa msg t)
    let ?w1 = "rx_state w t ((w_rmsgs w)(msg \<mapsto> rx_msg api m)) ((w_mhs w)(pa \<mapsto> rx_param cbp (ucast i) msg))
              ((w_rhs w)(rp \<mapsto> rx_rpc_param api cb m (ucast i) pa))"
    have "channel_ok p ch bs ?w1" using ch by (simp add: channel_ok_def)
    from response_run[where w = ?w1 and rp = rp and pa = pa and n = n and users = users and i = i
        and mp = "rx_param cbp (ucast i) msg" and m = "rx_msg api m" and u = u, OF called(1) _ user(2) this i called(2)]
    have h: "client_rpc_rdma_msg_handler users rp ?w1 =
        Inr ((), rx_state (with_bitmap ch (free_slot i bs) w) (EvWake sem # t) (w_rmsgs w) (w_mhs w) (w_rhs w))"
      using called(3-6) m(2) sem user(1)
      by (simp add: rx_rpc_param_def rx_param_def rx_msg_def fun_upd_idem rx_state_def)
    have "call_fn (rpc_callf users) (cb_rpc_msg_handler_cb cb) rp ?w1 =
        Inr ((), rx_state (with_bitmap ch (free_slot i bs) w) (EvWake sem # t) (w_rmsgs w) (w_mhs w) (w_rhs w))"
      using h fn by (simp add: call_fn_def rpc_callf_def)
    note run = thenK_Inr[where m = "call_fn (rpc_callf users) (cb_rpc_msg_handler_cb cb) rp", OF this]
    have "receive_msg api (rpc_callf users) cbp wc w = Inr (0, (with_bitmap ch (free_slot i bs) w)\<lparr>
          w_cbs := (w_cbs w)(cbp \<mapsto> (if cb_state cb \<le> CONNECTED then cb\<lparr>cb_state := WORKING\<rparr> else cb)),
          w_trace := EvWake sem # t\<rparr>)"
      unfolding called(7) run using cbp by (subst rx_finish_run[of cbp _ cb]) (simp_all add: rx_state_def)
    then show ?thesis by blast
  qed
qed

end

section \<open>Creation and destruction of an RPC channel\<close>

definition rpc_start :: "addr \<Rightarrow> addr \<Rightarrow> c_int \<Rightarrow> event list \<Rightarrow> world \<Rightarrow> world" where
  "rpc_start p bm ty t w = w\<lparr>w_trace := t,
     w_bytes := put_new bm (replicate 4 0) (w_bytes w),
     w_rpcs := (w_rpcs w)(p \<mapsto> \<lparr>ch_type = ty, ch_cb = NULL, msgbuf_bitmap = bm, msgbuf_bitmap_lock = False\<rparr>)\<rparr>"

lemma init_rpc_cases:
  assumes as: "alloc_sound api"
  obtains (crash) "init_rpc_client api intr ip0 ty target port sz h w = Inl NullDeref"
  | (started) p bm t where "p \<noteq> 0" "w_rpcs w p = None" "bm \<noteq> 0 \<Longrightarrow> w_bytes w bm = None"
      "init_rpc_client api intr ip0 ty target port sz h w =
        (if ty = RPC_CH_RDMA then
           bindK (load w_bytes target) (\<lambda>src. bindK (strcpy_bytes ip0 src) (\<lambda>ip.
           bindK (init_rdma_ch api intr (rpc_rdma_attr ip port sz h)) (\<lambda>cb.
           thenK (upd_rpc p (\<lambda>c. c\<lparr>ch_cb := cb\<rparr>))
           (if cb = NULL then init_rpc_client_err p else returnK p))))
         else init_rpc_client_err p) (rpc_start p bm ty t w)"
proof -
  define n where "n = sizeof_rpc_ch_info api"
  define p where "p = kzalloc_ret api w n"
  define w1 where "w1 = w\<lparr>w_trace := EvAlloc p n # w_trace w, w_rpcs := (w_rpcs w)(p \<mapsto> zero_rpc_ch\<lparr>ch_type := ty\<rparr>)\<rparr>"
  define bm where "bm = kzalloc_ret api w1 4"
  let ?t = "EvAlloc bm 4 # EvAlloc p n # w_trace w"
  have "zero_rpc_ch\<lparr>ch_type := ty, msgbuf_bitmap := bm, msgbuf_bitmap_lock := False\<rparr> =
      \<lparr>ch_type = ty, ch_cb = 0, msgbuf_bitmap = bm, msgbuf_bitmap_lock = False\<rparr>" by (simp add: zero_rpc_ch_def)
  note c = this
  have fp: "p \<noteq> 0 \<Longrightarrow> w_rpcs w p = None" using alloc_fresh(5)[OF as p_def[symmetric]] .
  have fb: "bm \<noteq> 0 \<Longrightarrow> w_bytes w bm = None" using alloc_fresh(6)[OF as bm_def[symmetric]] by (simp add: w1_def)
  show thesis
  proof (cases "p = 0")
    case True
    then show thesis
      by (intro crash) (simp add: init_rpc_client_def run_simps Let_def n_def[symmetric] p_def[symmetric])
  next
    case False
    have "init_rpc_client api intr ip0 ty target port sz h w =
        (if ty = RPC_CH_RDMA then
           bindK (load w_bytes target) (\<lambda>src. bindK (strcpy_bytes ip0 src) (\<lambda>ip.
           bindK (init_rdma_ch api intr (rpc_rdma_attr ip port sz h)) (\<lambda>cb.
           thenK (upd_rpc p (\<lambda>c. c\<lparr>ch_cb := cb\<rparr>))
           (if cb = NULL then init_rpc_client_err p else returnK p))))
         else init_rpc_client_err p) (rpc_start p bm ty ?t w)"
      using False
      by (simp add: init_rpc_client_def run_simps Let_def n_def[symmetric] p_def[symmetric]
          bm_def[unfolded w1_def, symmetric] rpc_start_def put_new_def c)
    then show thesis using started[OF False fp[OF False] fb] by simp
  qed
qed

lemma rpc_start_sel [simp]:
  "w_rpcs (rpc_start p bm ty t w) = (w_rpcs w)(p \<mapsto> \<lparr>ch_type = ty, ch_cb = 0, msgbuf_bitmap = bm, msgbuf_bitmap_lock = False\<rparr>)"
  "w_bytes (rpc_start p bm ty t w) = put_new bm (replicate 4 0) (w_bytes w)"
  "w_cbs (rpc_start p bm ty t w) = w_cbs w" "w_ctxs (rpc_start p bm ty t w) = w_ctxs w"
  "w_msgs (rpc_start p bm ty t w) = w_msgs w" "w_dmas (rpc_start p bm ty t w) = w_dmas w"
  "w_pds (rpc_start p bm ty t w) = w_pds w" "w_cqs (rpc_start p bm ty t w) = w_cqs w"
  "w_qps (rpc_start p bm ty t w) = w_qps w" "w_cmids (rpc_start p bm ty t w) = w_cmids w"
  "w_pending (rpc_start p bm ty t w) = w_pending w" "w_rmsgs (rpc_start p bm ty t w) = w_rmsgs w"
  "w_mhs (rpc_start p bm ty t w) = w_mhs w" "w_rhs (rpc_start p bm ty t w) = w_rhs w"
  "w_waitqs (rpc_start p bm ty t w) = w_waitqs w" "w_mrs (rpc_start p bm ty t w) = w_mrs w"
  by (simp_all add: rpc_start_def)

lemma strcpy_keeps: "strcpy_bytes dst src w = Inr (ip, w') \<Longrightarrow> w' = w"
  by (auto simp: strcpy_bytes_def Let_def split: if_splits)

lemma copied_target_inv:
  assumes "bindK (load w_bytes target) (\<lambda>src. bindK (strcpy_bytes ip0 src) F) w = Inr x"
  obtains src ip where "target \<noteq> 0" "w_bytes w target = Some src" "strcpy_bytes ip0 src w = Inr (ip, w)" "F ip w = Inr x"
  using assms by (auto simp: bindK_eq_Inr bytes.load_Inr dest: strcpy_keeps)

text \<open>The error label, reached before or after the RDMA channel failed: the bitmap is not freed.\<close>

lemma init_err_run:
  assumes "p \<noteq> 0" "w_rpcs w p = None"
  shows "\<exists>w'. init_rpc_client_err p ((rpc_start p bm ty t w)\<lparr>w_trace := t'\<rparr>) = Inr (0, w')
     \<and> same_objects (w\<lparr>w_bytes := put_new bm (replicate 4 0) (w_bytes w)\<rparr>) w'"
proof -
  have "(rpc_start p bm ty t w)\<lparr>w_trace := t', w_rpcs := w_rpcs w\<rparr> =
      w\<lparr>w_trace := t', w_bytes := put_new bm (replicate 4 0) (w_bytes w)\<rparr>"
    by (cases w) (simp add: rpc_start_def)
  then show ?thesis
    using assms by (simp add: init_rpc_client_err_def run_simps fun_upd_idem same_objects_def)
qed

lemma init_rpc_null:
  assumes as: "alloc_sound api" and vs: "verbs_sound api"
    and run: "init_rpc_client api intr ip0 ty target port sz h w = Inr (0, w')"
  shows "\<exists>bm. (bm \<noteq> 0 \<longrightarrow> w_bytes w bm = None)
     \<and> same_objects (w\<lparr>w_bytes := put_new bm (replicate 4 0) (w_bytes w)\<rparr>) w'"
  using as
proof (cases rule: init_rpc_cases[of api intr ip0 ty target port sz h w])
  case crash
  then show ?thesis using run by simp
next
  case (started p bm t)
  let ?w = "rpc_start p bm ty t w"
  show ?thesis
  proof (cases "ty = RPC_CH_RDMA")
    case False
    then have "init_rpc_client_err p ?w = Inr (0, w')" using run started(4) by simp
    moreover have "?w = ?w\<lparr>w_trace := w_trace ?w\<rparr>" by simp
    ultimately show ?thesis using init_err_run[OF started(1,2), where bm = bm and ty = ty and t = t and t' = "w_trace ?w"] started(3) by auto
  next
    case True
    then have "bindK (load w_bytes target) (\<lambda>src. bindK (strcpy_bytes ip0 src) (\<lambda>ip.
           bindK (init_rdma_ch api intr (rpc_rdma_attr ip port sz h)) (\<lambda>cb.
           thenK (upd_rpc p (\<lambda>c. c\<lparr>ch_cb := cb\<rparr>))
           (if cb = NULL then init_rpc_client_err p else returnK p)))) ?w = Inr (0, w')"
      using run started(4) by simp
    then obtain ip cb w1 where init: "init_rdma_ch api intr (rpc_rdma_attr ip port sz h) ?w = Inr (cb, w1)"
      and rest: "thenK (upd_rpc p (\<lambda>c. c\<lparr>ch_cb := cb\<rparr>)) (if cb = 0 then init_rpc_client_err p else returnK p) w1 = Inr (0, w')"
      by (rule copied_target_inv) (auto simp: bindK_eq_Inr)
    from as vs show ?thesis
    proof (cases rule: init_cases[of api intr "rpc_rdma_attr ip port sz h" ?w])
      case (none t')
      then have c: "cb = 0" "w1 = ?w\<lparr>w_trace := t'\<rparr>" using init by simp_all
      have "upd_rpc p (\<lambda>c. c\<lparr>ch_cb := 0\<rparr>) (?w\<lparr>w_trace := t'\<rparr>) = Inr ((), ?w\<lparr>w_trace := t'\<rparr>)"
        using started(1) by (cases w) (simp add: modify_at_def rpc_start_def)
      then have "init_rpc_client_err p (?w\<lparr>w_trace := t'\<rparr>) = Inr (0, w')"
        using rest c by (simp add: thenK_Inr)
      then show ?thesis using init_err_run[OF started(1,2), where bm = bm and ty = ty and t = t and t' = t'] started(3) by auto
    next
      case (client cbp cxs cm t')
      then have "cb \<noteq> 0" using init[unfolded client(10)] by (auto simp: thenK_eq_Inr)
      then show ?thesis using rest started(1) by (auto simp: thenK_eq_Inr)
    qed
  qed
qed

lemma destroy_rpc_run:
  assumes "p \<noteq> 0" "w_rpcs w p = Some ch" "ch_type ch = RPC_CH_RDMA" "channel_ready (ch_cb ch) cb cs pdv w"
    and "msgbuf_bitmap ch \<noteq> 0" "w_bytes w (msgbuf_bitmap ch) = Some bs"
  obtains w1 where "torn_down cb (ch_cb ch) cs w w1"
    "destroy_rpc_client p w = Inr ((), w1\<lparr>w_bytes := (w_bytes w)(msgbuf_bitmap ch := None), w_rpcs := (w_rpcs w)(p := None)\<rparr>)"
proof -
  obtain w1 where d: "destroy_rdma_client (ch_cb ch) w = Inr ((), w1)" and t: "torn_down cb (ch_cb ch) cs w w1"
    using destroy_run[OF assms(4)] by blast
  have "w_rpcs w1 = w_rpcs w" "w_bytes w1 = w_bytes w" using t by (simp_all add: torn_down_def)
  then have "destroy_rpc_client p w =
      Inr ((), w1\<lparr>w_bytes := (w_bytes w)(msgbuf_bitmap ch := None), w_rpcs := (w_rpcs w)(p := None)\<rparr>)"
    using assms(1-3,5,6)
    by (simp add: destroy_rpc_client_def bit_array_free_def run_simps thenK_Inr[where m = "destroy_rdma_client (ch_cb ch)", OF d])
  with t show thesis by (rule that)
qed

lemma wf_zero_bitmap: "wf_bitmap (replicate 4 0)"
  by (simp add: wf_bitmap_def BIT_ARR_SIZE_def)

lemma channel_ready_frame:
  "channel_ready cbp cb cs pdv w \<Longrightarrow> w_cbs w' = w_cbs w \<Longrightarrow> w_ctxs w' = w_ctxs w \<Longrightarrow> w_pds w' = w_pds w \<Longrightarrow>
   w_msgs w' = w_msgs w \<Longrightarrow> w_dmas w' = w_dmas w \<Longrightarrow> w_cqs w' = w_cqs w \<Longrightarrow> w_qps w' = w_qps w \<Longrightarrow>
   w_cmids w' = w_cmids w \<Longrightarrow> channel_ready cbp cb cs pdv w'"
  using buffers_ok_frame[of cbp cb cs pdv w w'] qp_ready_frame[of cbp cb w w'] by (simp add: channel_ready_def)

text \<open>An RPC channel that came up over a connected RDMA channel.\<close>

lemma init_rpc_connected:
  assumes env: "\<And>cid. good_env api intr cid" and conn: "\<And>w cid p. rdma_connect_ret api w cid p = 0"
    and sz: "0 \<le> sint sz" "sint sz < 2 ^ 31 - 24"
    and id: "\<And>w. is_err api (rdma_create_id_ret api w) \<or> rdma_create_id_ret api w = cm"
    and evs: "w_pending w = CmEvent cm RDMA_CM_EVENT_ADDR_RESOLVED
       # CmEvent cm RDMA_CM_EVENT_ROUTE_RESOLVED # CmEvent cm RDMA_CM_EVENT_ESTABLISHED # es"
    and init: "init_rpc_client api intr ip0 RPC_CH_RDMA target port sz h w = Inr (p, w')" "p \<noteq> NULL"
    and ch: "w_rpcs w' p = Some ch" "msgbuf_bitmap ch \<noteq> NULL"
    and up: "w_cbs w' (ch_cb ch) = Some cb" "cb_state cb = CONNECTED"
    and full: "w_ctxs w' (cb_buf_ctxs cb) = Some cs" "ctxs_complete cs"
  obtains pdv where "channel_ready (ch_cb ch) cb cs pdv w'" "rpc_ready p ch (replicate 4 0) (ch_cb ch) cb cs pdv w'"
    "w_rpcs w p = None" "w_bytes w (msgbuf_bitmap ch) = None" "cb_user_msg_handler_cb cb = h"
    "w_bytes w' = (w_bytes w)(msgbuf_bitmap ch \<mapsto> replicate 4 0)" "w_rpcs w' = (w_rpcs w)(p \<mapsto> ch)"
    "owns_new (ch_cb ch) cb cs (w\<lparr>w_rpcs := w_rpcs w', w_bytes := w_bytes w'\<rparr>) w'"
  using good_envD(1)[OF env]
proof (cases rule: init_rpc_cases[of api intr ip0 RPC_CH_RDMA target port sz h w])
  case crash
  then show ?thesis using init(1) by simp
next
  case (started p' bm t)
  let ?w = "rpc_start p' bm RPC_CH_RDMA t w"
  have "bindK (load w_bytes target) (\<lambda>src. bindK (strcpy_bytes ip0 src) (\<lambda>ip.
           bindK (init_rdma_ch api intr (rpc_rdma_attr ip port sz h)) (\<lambda>cb.
           thenK (upd_rpc p' (\<lambda>c. c\<lparr>ch_cb := cb\<rparr>))
           (if cb = NULL then init_rpc_client_err p' else returnK p')))) ?w = Inr (p, w')"
    using init(1) started(4) by simp
  then obtain ip cbp w1 where ini: "init_rdma_ch api intr (rpc_rdma_attr ip port sz h) ?w = Inr (cbp, w1)"
    and rest: "thenK (upd_rpc p' (\<lambda>c. c\<lparr>ch_cb := cbp\<rparr>)) (if cbp = 0 then init_rpc_client_err p' else returnK p') w1 = Inr (p, w')"
    by (rule copied_target_inv) (auto simp: bindK_eq_Inr)
  have cbp: "cbp \<noteq> 0" using rest init(2) by (auto simp: thenK_eq_Inr init_rpc_client_err_def)
  obtain ch1 where p: "p' = p" and ch1: "w_rpcs w1 p = Some ch1"
      and w': "w' = w1\<lparr>w_rpcs := (w_rpcs w1)(p \<mapsto> ch1\<lparr>ch_cb := cbp\<rparr>)\<rparr>"
    using rest cbp by (auto simp: thenK_eq_Inr modify_at_def split: if_splits option.splits)
  have chd: "ch = ch1\<lparr>ch_cb := cbp\<rparr>" using ch(1) by (simp add: w')
  have up1: "w_cbs w1 cbp = Some cb" "w_ctxs w1 (cb_buf_ctxs cb) = Some cs" using up full by (simp_all add: w' chd)
  have at: "0 \<le> sint (attr_msgdata_size (rpc_rdma_attr ip port sz h))"
    "sint (attr_msgdata_size (rpc_rdma_attr ip port sz h)) < 2 ^ 31 - 24" using sz by (simp_all add: rpc_rdma_attr_def)
  have ev: "w_pending ?w = CmEvent cm RDMA_CM_EVENT_ADDR_RESOLVED
       # CmEvent cm RDMA_CM_EVENT_ROUTE_RESOLVED # CmEvent cm RDMA_CM_EVENT_ESTABLISHED # es" using evs by simp
  from env conn at id ev ini cbp up1(1) up(2) up1(2) full(2) show thesis
  proof (cases rule: init_connected)
    case (1 pdv)
    have own: "w_rpcs w1 = w_rpcs ?w" "w_bytes w1 = w_bytes ?w" using 1(2) by (simp_all add: owns_new_def)
    then have c: "ch = \<lparr>ch_type = RPC_CH_RDMA, ch_cb = cbp, msgbuf_bitmap = bm, msgbuf_bitmap_lock = False\<rparr>"
      using ch1 chd p by auto
    have ready: "channel_ready cbp cb cs pdv w'" by (rule channel_ready_frame[OF 1(1)]) (simp_all add: w')
    have bm: "bm \<noteq> 0" "w_bytes w bm = None" using ch(2) c started(3) by simp_all
    have by': "w_bytes w' = (w_bytes w)(bm \<mapsto> replicate 4 0)" using own(2) bm by (simp add: w' put_new_def)
    have rp': "w_rpcs w' = (w_rpcs w)(p \<mapsto> ch)" using own(1) p chd by (simp add: w')
    have "rpc_ready p ch (replicate 4 0) cbp cb cs pdv w'"
      using ready init(2) 1(4,5) bm wf_zero_bitmap
      by (auto simp: rpc_ready_def channel_ok_def rp' by' c channel_ready_def qp_ready_def rpc_rdma_attr_def)
    moreover have "owns_new cbp cb cs (w\<lparr>w_rpcs := w_rpcs w', w_bytes := w_bytes w'\<rparr>) w'"
      using 1(2) own(2) by (simp add: owns_new_def w' chd)
    moreover have "w_rpcs w p = None" "cb_user_msg_handler_cb cb = h" using started(2) p 1(6) by (simp_all add: rpc_rdma_attr_def)
    ultimately show thesis using that[of pdv] ready bm by' rp' by (simp add: c)
  qed
qed

section \<open>A concrete RPC channel\<close>

definition sample_req_cb :: rdma_ch_cb where
  "sample_req_cb = sample_cb\<lparr>cb_msgbuf_cnt := 4\<rparr>"

definition sample_req_ctx :: "nat \<Rightarrow> msgbuf_ctx" where
  "sample_req_ctx i = wr_of sample_req_cb \<lparr>pd_device = 0x2000, local_dma_lkey = 7\<rparr> i
     (let r = of_nat (32 * i + 16); s = of_nat (32 * i + 32) in
      zero_ctx\<lparr>ctx_seqn := 1, recv_buf := r, send_buf := s, recv_mr := r, recv_mapping := r, send_mr := s, send_mapping := s\<rparr>)"

definition sample_req_ctxs :: "msgbuf_ctx list" where
  "sample_req_ctxs = map sample_req_ctx [0, 1, 2, 3]"

definition sample_rpc :: "byte list \<Rightarrow> rdma_msg \<Rightarrow> world" where
  "sample_rpc bits m = empty_world\<lparr>w_cbs := [64 \<mapsto> sample_req_cb], w_ctxs := [0x1000 \<mapsto> sample_req_ctxs],
     w_pds := [0x3000 \<mapsto> \<lparr>pd_device = 0x2000, local_dma_lkey = 7\<rparr>],
     w_msgs := (put_all (buf_objs (zero_msg 8) sample_req_ctxs) Map.empty)(80 \<mapsto> m),
     w_dmas := put_all (dma_objs 32 sample_req_ctxs) Map.empty,
     w_cqs := [0x4000 \<mapsto> \<lparr>cq_context = 64\<rparr>], w_qps := [0x5000 \<mapsto> \<lparr>qp_attr = qp_init_attr sample_req_cb\<rparr>],
     w_rpcs := [0x8000 \<mapsto> \<lparr>ch_type = RPC_CH_RDMA, ch_cb = 64, msgbuf_bitmap = 0x8100, msgbuf_bitmap_lock = False\<rparr>],
     w_waitqs := [0x9000 \<mapsto> ()],
     w_bytes := [0x8100 \<mapsto> bits, 0x7000 \<mapsto> [1, 2, 3, 4, 5, 6, 7, 8]]\<rparr>"

lemma sample_req_ctx_sel:
  "recv_buf (sample_req_ctx i) = of_nat (32 * i + 16)" "send_buf (sample_req_ctx i) = of_nat (32 * i + 32)"
  "recv_mapping (sample_req_ctx i) = of_nat (32 * i + 16)" "send_mapping (sample_req_ctx i) = of_nat (32 * i + 32)"
  by (simp_all add: sample_req_ctx_def wr_of_def Let_def)

lemma sample_req_cb_sel:
  "cb_buf_ctxs sample_req_cb = 0x1000" "cb_msgbuf_cnt sample_req_cb = 4" "cb_msgdata_size sample_req_cb = 8"
  "cb_msgbuf_size sample_req_cb = msgbuf_size 8" "cb_qp sample_req_cb = 0x5000"
  "cb_pd sample_req_cb = 0x3000" "cb_state sample_req_cb = ROUTE_RESOLVED" "data_len sample_req_cb = 8"
  "cb_rpc_msg_handler_cb sample_req_cb = Fn_client_rpc_rdma_msg_handler" "cb_user_msg_handler_cb sample_req_cb = Fn_user 0"
  by (simp_all add: sample_req_cb_def sample_cb_def data_len_def size_of_int_def)

lemma sample_rpc_ready:
  assumes "length (msg_data m) = 8" "length bits = 4"
  shows "rpc_ready 0x8000 \<lparr>ch_type = RPC_CH_RDMA, ch_cb = 64, msgbuf_bitmap = 0x8100, msgbuf_bitmap_lock = False\<rparr> bits
     64 sample_req_cb sample_req_ctxs \<lparr>pd_device = 0x2000, local_dma_lkey = 7\<rparr> (sample_rpc bits m)"
proof -
  have wired: "\<forall>i<length sample_req_ctxs. ctx_wired sample_req_cb \<lparr>pd_device = 0x2000, local_dma_lkey = 7\<rparr> i (sample_req_ctxs ! i)"
  proof (intro allI impI)
    fix i assume "i < length sample_req_ctxs"
    then consider "i = 0" | "i = 1" | "i = 2" | "i = 3" by (fastforce simp: sample_req_ctxs_def)
    moreover have "ctx_wired sample_req_cb \<lparr>pd_device = 0x2000, local_dma_lkey = 7\<rparr> j (sample_req_ctx j)" for j
      unfolding sample_req_ctx_def by (rule ctx_wired_of) (simp_all add: Let_def)
    ultimately show "ctx_wired sample_req_cb \<lparr>pd_device = 0x2000, local_dma_lkey = 7\<rparr> i (sample_req_ctxs ! i)"
      by cases (simp_all add: sample_req_ctxs_def)
  qed
  have "buf_pre 64 sample_req_cb sample_req_ctxs \<lparr>pd_device = 0x2000, local_dma_lkey = 7\<rparr> (sample_rpc bits m)"
    by (simp add: buf_pre_def sample_rpc_def sample_req_cb_sel iters_def sample_req_ctxs_def)
  then have "buffers_ok 64 sample_req_cb sample_req_ctxs \<lparr>pd_device = 0x2000, local_dma_lkey = 7\<rparr> (sample_rpc bits m)"
    using wired assms(1)
    by (simp add: buffers_ok_def bufs_def maps_def dma_objs_def sample_req_ctx_sel sample_rpc_def sample_req_cb_sel
        sample_req_ctxs_def buf_objs_def put_new_def zero_msg_def sample_sizes)
  then show ?thesis
    using assms(2)
    by (simp add: rpc_ready_def channel_ok_def sample_rpc_def sample_req_cb_sel wf_bitmap_def BIT_ARR_SIZE_def RPC_MSG_BUF_NUM_def)
qed

lemma sample_rpc_sel:
  "w_bytes (sample_rpc bits m) 0x7000 = Some [1, 2, 3, 4, 5, 6, 7, 8]" "w_waitqs (sample_rpc bits m) 0x9000 = Some ()"
  "w_msgs (sample_rpc bits m) 80 = Some m"
  by (simp_all add: sample_rpc_def)

section \<open>Requests without responses\<close>

lemma sent_ctxs_kept:
  assumes "i < length cs"
  shows "bufs (sent_ctxs cs i s) = bufs cs" "maps (sent_ctxs cs i s) = maps cs"
    "dma_objs n (sent_ctxs cs i s) = dma_objs n cs" "length (sent_ctxs cs i s) = length cs"
proof -
  have m: "map f (cs[i := (cs ! i)\<lparr>ctx_seqn := v\<rparr>]) = map f cs" if "\<And>c. f (c\<lparr>ctx_seqn := v\<rparr>) = f c" for f :: "msgbuf_ctx \<Rightarrow> 'x" and v
    using that assms by (simp add: map_update list_update_same_conv)
  show "bufs (sent_ctxs cs i s) = bufs cs" "maps (sent_ctxs cs i s) = maps cs"
    "dma_objs n (sent_ctxs cs i s) = dma_objs n cs" "length (sent_ctxs cs i s) = length cs"
    by (simp_all add: sent_ctxs_def bufs_def maps_def dma_objs_def m)
qed

lemma wired_sent:
  assumes "i < length cs" "k < length cs" "ctx_wired cb pd k (cs ! k)"
  shows "ctx_wired cb pd k (sent_ctxs cs i s ! k)"
  using assms by (cases "k = i") (simp_all add: sent_ctxs_def ctx_wired_def)

lemma buffers_ok_sent:
  assumes ok: "buffers_ok cbp cb cs pdv w" and i: "i < length cs" and src: "data_len cb \<le> length src"
  shows "buffers_ok cbp cb (sent_ctxs cs i s) pdv (sent_state api cb cs i s p sem src w)"
proof -
  note k = sent_ctxs_kept[OF i]
  have "buf_pre cbp cb (sent_ctxs cs i s) pdv (sent_state api cb cs i s p sem src w)"
    using ok by (simp add: buffers_ok_def buf_pre_def sent_state_def k)
  moreover have "\<forall>q\<in>set (bufs cs). \<exists>m. w_msgs (sent_state api cb cs i s p sem src w) q = Some m \<and> length (msg_data m) = data_len cb"
    using ok src by (auto simp: buffers_ok_def sent_state_def wire_msg_def)
  moreover have "\<forall>k<length cs. ctx_wired cb pdv k (sent_ctxs cs i s ! k)"
    using ok wired_sent[OF i] by (simp add: buffers_ok_def)
  ultimately show ?thesis using ok by (simp add: buffers_ok_def k) (simp add: sent_state_def)
qed

text \<open>A request leaves a channel that is ready, with one more buffer in use, whether or not it was posted.\<close>

lemma request_step:
  assumes rdy: "rpc_ready p ch bs cbp cb cs pdv w"
    and data: "data \<noteq> 0" "data \<noteq> msgbuf_bitmap ch" "w_bytes w data = Some src" "data_len cb \<le> length src"
    and i: "clear_slot bs = Some i"
  obtains t w' where "send_rpc_msg_to_server api intr \<lparr>req_rpc_ch = p, req_data = data, req_sem = sem\<rparr> w = Inr (ucast i, w')"
    "w' = (requested api p ch bs cb cs i sem src w)\<lparr>w_trace := t\<rparr>"
    "rpc_ready p ch (set_slot i bs) cbp cb (sent_ctxs cs (unat i) 0) pdv w'" "w_bytes w' data = Some src" "w_pending w' = w_pending w"
proof -
  let ?w = "requested api p ch bs cb cs i sem src w"
  have wf: "wf_bitmap bs" and ch: "channel_ok p ch bs w" and ok: "buffers_ok cbp cb cs pdv w"
    and cnt: "cb_msgbuf_cnt cb = RPC_MSG_BUF_NUM"
    using rdy by (auto simp: rpc_ready_def channel_ok_def)
  have "i \<in> slots" using bitmap.find_Some[OF wf i] by simp
  moreover have "length cs = 4" using ok cnt by (simp add: buffers_ok_def buf_pre_def RPC_MSG_BUF_NUM_def iters_def)
  ultimately have len: "unat i < length cs" using slot_int by simp
  have "channel_ok p ch (set_slot i bs) ?w"
    using ch wf_set_slot[OF wf] by (simp add: channel_ok_def requested_def sent_state_def)
  moreover have "buffers_ok cbp cb (sent_ctxs cs (unat i) 0) pdv ?w"
    unfolding requested_def by (intro buffers_ok_sent buffers_ok_bytes ok len data(4))
  ultimately have r: "rpc_ready p ch (set_slot i bs) cbp cb (sent_ctxs cs (unat i) 0) pdv (?w\<lparr>w_trace := t\<rparr>)" for t
    using rdy buffers_ok_frame[of cbp cb "sent_ctxs cs (unat i) 0" pdv ?w "?w\<lparr>w_trace := t\<rparr>"]
    by (simp add: rpc_ready_def channel_ok_def) (simp add: requested_def sent_state_def)
  have by': "w_bytes (?w\<lparr>w_trace := t\<rparr>) data = Some src" "w_pending (?w\<lparr>w_trace := t\<rparr>) = w_pending w" for t
    using data by (simp_all add: requested_def sent_state_def)
  have same: "requested api p ch bs cb cs i sem src w\<lparr>w_trace := w_trace ?w\<rparr> = ?w" by simp
  obtain t where "send_rpc_msg_to_server api intr \<lparr>req_rpc_ch = p, req_data = data, req_sem = sem\<rparr> w = Inr (ucast i, ?w\<lparr>w_trace := t\<rparr>)"
  proof (cases "ib_post_send_ret api ?w (cb_qp cb) (sq_wr (cs ! unat i)) = 0")
    case True
    then show thesis using that request_run[OF rdy data i, of api intr sem] by (simp add: Let_def)
  next
    case False
    then show thesis using that[of "w_trace ?w"] request_run[OF rdy data i, of api intr sem] by (simp add: Let_def same)
  qed
  then show thesis using that[OF _ refl r by'] by blast
qed

text \<open>\<open>n\<close> requests in a row, and the ids they return.\<close>

primrec send_requests ::
    "nat \<Rightarrow> kapi \<Rightarrow> (env_event \<Rightarrow> (world, unit) kern) \<Rightarrow> rpc_req_param \<Rightarrow> (world, c_int list) kern" where
  "send_requests 0 api intr req = returnK []"
| "send_requests (Suc n) api intr req =
     bindK (send_rpc_msg_to_server api intr req) (\<lambda>i. bindK (send_requests n api intr req) (\<lambda>is. returnK (i # is)))"

lemma blocked_when_full:
  assumes "rpc_ready p ch bs cbp cb cs pdv w" "clear_slot bs = None" "w_pending w = []"
  shows "send_rpc_msg_to_server api intr \<lparr>req_rpc_ch = p, req_data = data, req_sem = sem\<rparr> w = Inl Blocked"
proof -
  have ch: "channel_ok p ch bs w" using assms(1) by (simp add: rpc_ready_def)
  have "alloc_msgbuf_id intr p w = Inl Blocked"
    using alloc_try_run[OF ch, of 0] assms(2,3) by (simp add: alloc_msgbuf_id_def bindK_def)
  then show ?thesis by (simp add: send_rpc_msg_to_server_def bindK_Inl Let_def)
qed

lemma requests_fill:
  assumes rdy: "rpc_ready p ch bs cbp cb cs pdv w"
    and data: "data \<noteq> 0" "data \<noteq> msgbuf_bitmap ch" "w_bytes w data = Some src" "data_len cb \<le> length src"
    and pend: "w_pending w = []" and n: "n + card (used bs) = card slots"
  shows "\<exists>is w'. send_requests n api intr \<lparr>req_rpc_ch = p, req_data = data, req_sem = sem\<rparr> w = Inr (is, w') \<and> length is = n
     \<and> send_rpc_msg_to_server api intr \<lparr>req_rpc_ch = p, req_data = data, req_sem = sem\<rparr> w' = Inl Blocked"
  using rdy data pend n
proof (induction n arbitrary: bs cs w)
  case 0
  then have "used bs = slots" "wf_bitmap bs"
    using card_subset_eq[of slots "used bs"] used_subset[of bs] by (auto simp: slots_eq rpc_ready_def channel_ok_def)
  then have "clear_slot bs = None" using bitmap.find_None by blast
  then show ?case using blocked_when_full[OF "0.prems"(1)] "0.prems"(6) by simp
next
  case (Suc n)
  have wf: "wf_bitmap bs" using Suc.prems(1) by (simp add: rpc_ready_def channel_ok_def)
  have "used bs \<noteq> slots" using Suc.prems(7) by auto
  then obtain i where i: "clear_slot bs = Some i" using bitmap.find_None[OF wf] by blast
  from Suc.prems(1-5) i obtain w' where run: "send_rpc_msg_to_server api intr \<lparr>req_rpc_ch = p, req_data = data, req_sem = sem\<rparr> w = Inr (ucast i, w')"
    and r: "rpc_ready p ch (set_slot i bs) cbp cb (sent_ctxs cs (unat i) 0) pdv w'" "w_bytes w' data = Some src" "w_pending w' = w_pending w"
    by (rule request_step)
  have "finite (used bs)" using used_subset[OF wf] by (rule finite_subset) (simp add: slots_eq)
  then have "n + card (used (set_slot i bs)) = card slots"
    using bitmap.take_grows[OF wf i] Suc.prems(7) by simp
  from Suc.IH[OF r(1) data(1,2) r(2) data(4) _ this] r(3) Suc.prems(6)
  show ?case using run by (auto simp: bindK_Inr)
qed

section \<open>Properties\<close>

text \<open>
  C11. A request on a channel with a free message buffer takes the lowest free id \<open>i\<close>, marks exactly
  that buffer, writes the request into the send buffer of context \<open>i\<close> in network byte order (a new
  sequence number, the address of the RPC channel, the requester's wait queue and the data) and
  posts that context's send request; it returns \<open>i\<close>. Other message buffers are not touched.
\<close>

theorem rpc_request_sends:
  assumes rdy: "rpc_ready p ch bs cbp cb cs pdv w" and free: "used bs \<noteq> slots"
    and data: "data \<noteq> NULL" "data \<noteq> msgbuf_bitmap ch" "w_bytes w data = Some src" "data_len cb \<le> length src"
    and post: "\<And>w wr. ib_post_send_ret api w (cb_qp cb) wr = 0"
  shows "\<exists>i bs' w'. send_rpc_msg_to_server api intr \<lparr>req_rpc_ch = p, req_data = data, req_sem = sem\<rparr> w = Inr (ucast i, w')
     \<and> i \<in> slots \<and> i \<notin> used bs \<and> (\<forall>j. j < i \<longrightarrow> j \<in> used bs)
     \<and> channel_ok p ch bs' w' \<and> used bs' = insert i (used bs)
     \<and> w_msgs w' = (w_msgs w)(send_buf (cs ! unat i) \<mapsto> \<lparr>seq_num = htonll api (ctx_seqn (cs ! unat i) + 1),
           rpc_ch_addr = htonll api p, sem_addr = htonll api sem, msg_data = take (data_len cb) src\<rparr>)
     \<and> w_trace w' = EvPostSend (cb_qp cb) (sq_wr (cs ! unat i)) # w_trace w"
proof -
  have ch: "channel_ok p ch bs w" and wf: "wf_bitmap bs" using rdy by (simp_all add: rpc_ready_def channel_ok_def)
  obtain i where i: "clear_slot bs = Some i" using free bitmap.find_None[OF wf] by blast
  let ?w = "(requested api p ch bs cb cs i sem src w)\<lparr>w_trace := EvPostSend (cb_qp cb) (sq_wr (cs ! unat i)) # w_trace w\<rparr>"
  have "send_rpc_msg_to_server api intr \<lparr>req_rpc_ch = p, req_data = data, req_sem = sem\<rparr> w = Inr (ucast i, ?w)"
    using request_run[OF rdy data i] post by (simp add: Let_def)
  moreover have "channel_ok p ch (set_slot i bs) ?w"
    using ch wf_set_slot[OF wf] by (simp add: channel_ok_def requested_def sent_state_def)
  moreover have "w_msgs ?w = (w_msgs w)(send_buf (cs ! unat i) \<mapsto> \<lparr>seq_num = htonll api (ctx_seqn (cs ! unat i) + 1),
           rpc_ch_addr = htonll api p, sem_addr = htonll api sem, msg_data = take (data_len cb) src\<rparr>)"
    by (simp add: requested_def sent_state_def wire_msg_def sent_seqn_def)
  moreover have "w_trace ?w = EvPostSend (cb_qp cb) (sq_wr (cs ! unat i)) # w_trace w" by simp
  ultimately show ?thesis using bitmap.find_Some[OF wf i] bitmap.in_use_take[OF wf] by metis
qed

theorem rpc_request_sends_witness:
  "\<exists>w'. send_rpc_msg_to_server sample_api sample_intr \<lparr>req_rpc_ch = 0x8000, req_data = 0x7000, req_sem = 0x9000\<rparr>
       (sample_rpc [1, 0, 0, 0] (zero_msg 8)) = Inr (1, w') \<and> w_msgs w' 64 = Some \<lparr>seq_num = bswap64 2, rpc_ch_addr = bswap64 0x8000,
         sem_addr = bswap64 0x9000, msg_data = [1, 2, 3, 4, 5, 6, 7, 8]\<rparr>"
proof -
  have m: "length (msg_data (zero_msg 8)) = 8" "length [1, 0, 0, 0 :: byte] = 4" by (simp_all add: zero_msg_def)
  have seq: "ctx_seqn (sample_req_ctxs ! 1) = 1" by (simp add: sample_req_ctxs_def sample_req_ctx_def wr_of_def Let_def)
  have "used [1, 0, 0, 0] \<subseteq> slots" by (rule used_subset) (simp add: wf_bitmap_def BIT_ARR_SIZE_def)
  then have un: "used [1, 0, 0, 0] = {0}" by (auto simp: slots_eq) (auto simp: used_def)
  have hyps: "used [1, 0, 0, 0] \<noteq> slots" "(0x7000 :: addr) \<noteq> 0"
    "0x7000 \<noteq> msgbuf_bitmap \<lparr>ch_type = RPC_CH_RDMA, ch_cb = 64, msgbuf_bitmap = 0x8100, msgbuf_bitmap_lock = False\<rparr>"
    "w_bytes (sample_rpc [1, 0, 0, 0] (zero_msg 8)) 0x7000 = Some [1, 2, 3, 4, 5, 6, 7, 8]"
    "data_len sample_req_cb \<le> length [1 :: byte, 2, 3, 4, 5, 6, 7, 8]"
    "ib_post_send_ret sample_api w (cb_qp sample_req_cb) wr = 0" for w wr
    by (simp_all add: used_samples sample_rpc_sel sample_req_cb_sel sample_api_sel)
  obtain i bs' w' where r: "send_rpc_msg_to_server sample_api sample_intr \<lparr>req_rpc_ch = 0x8000, req_data = 0x7000, req_sem = 0x9000\<rparr>
       (sample_rpc [1, 0, 0, 0] (zero_msg 8)) = Inr (ucast i, w')" "i \<in> slots" "i \<notin> used [1, 0, 0, 0]" "\<forall>j. j < i \<longrightarrow> j \<in> used [1, 0, 0, 0]"
     and w: "w_msgs w' = (w_msgs (sample_rpc [1, 0, 0, 0] (zero_msg 8)))(send_buf (sample_req_ctxs ! unat i) \<mapsto>
           \<lparr>seq_num = htonll sample_api (ctx_seqn (sample_req_ctxs ! unat i) + 1), rpc_ch_addr = htonll sample_api 0x8000,
            sem_addr = htonll sample_api 0x9000, msg_data = take (data_len sample_req_cb) [1, 2, 3, 4, 5, 6, 7, 8]\<rparr>)"
    using rpc_request_sends[OF sample_rpc_ready[OF m] hyps, of sample_intr "0x9000"] by (elim exE conjE)
  have "i = 1" using r(2-4) by (auto simp: un slots_eq dest: spec[of _ 1])
  then show ?thesis
    using r(1) w seq by (simp add: htonll_def sample_api_sel sample_req_cb_sel sample_req_ctxs_def sample_req_ctx_sel)
qed

text \<open>
  C30. Flow control: with no response arriving, as many requests are accepted as message buffers are
  free and the next one spins for ever. This holds whatever posting the sends returns: the id of a
  request that could not be posted is reported to the caller as if it had been sent and never given
  back, so four failed sends block the channel.
\<close>

theorem requests_exhaust_buffers:
  assumes "rpc_ready p ch bs cbp cb cs pdv w"
    and "data \<noteq> NULL" "data \<noteq> msgbuf_bitmap ch" "w_bytes w data = Some src" "data_len cb \<le> length src"
    and "w_pending w = []" and "n + card (used bs) = card slots"
  shows "\<exists>is w'. send_requests n api intr \<lparr>req_rpc_ch = p, req_data = data, req_sem = sem\<rparr> w = Inr (is, w') \<and> length is = n
     \<and> send_rpc_msg_to_server api intr \<lparr>req_rpc_ch = p, req_data = data, req_sem = sem\<rparr> w' = Inl Blocked"
  using assms by (rule requests_fill)

theorem requests_exhaust_buffers_witness:
  "\<exists>is w'. send_requests 2 (sample_api\<lparr>ib_post_send_ret := \<lambda>w q wr. - 5\<rparr>) sample_intr
       \<lparr>req_rpc_ch = 0x8000, req_data = 0x7000, req_sem = 0x9000\<rparr> (sample_rpc [1, 0, 0, 1] (zero_msg 8)) = Inr (is, w')
     \<and> length is = 2 \<and> send_rpc_msg_to_server (sample_api\<lparr>ib_post_send_ret := \<lambda>w q wr. - 5\<rparr>) sample_intr
       \<lparr>req_rpc_ch = 0x8000, req_data = 0x7000, req_sem = 0x9000\<rparr> w' = Inl Blocked"
proof -
  have m: "length (msg_data (zero_msg 8)) = 8" "length [1, 0, 0, 1 :: byte] = 4" by (simp_all add: zero_msg_def)
  have "used [1, 0, 0, 1] \<subseteq> slots" by (rule used_subset) (simp add: wf_bitmap_def BIT_ARR_SIZE_def)
  then have "used [1, 0, 0, 1] = {0, 3}" by (auto simp: slots_eq) (auto simp: used_def)
  then show ?thesis
    by (intro requests_exhaust_buffers[OF sample_rpc_ready[OF m], where src = "[1, 2, 3, 4, 5, 6, 7, 8]"])
      (simp_all add: sample_rpc_sel sample_req_cb_sel slots_eq sample_rpc_def empty_world_def)
qed

text \<open>
  The life of an RPC channel: when \<open>init_rpc_client\<close> returned a channel whose connection was
  established and whose buffers were all allocated, the channel is ready for requests with no
  message buffer in use, and \<open>destroy_rpc_client\<close> releases all of it: every heap and every table of
  verbs objects is again what it was before.
\<close>

theorem rpc_client_lifecycle:
  assumes env: "\<And>cid. good_env api intr cid" and conn: "\<And>w cid p. rdma_connect_ret api w cid p = 0"
    and sz: "0 \<le> sint sz" "sint sz < 2 ^ 31 - 24"
    and id: "\<And>w. is_err api (rdma_create_id_ret api w) \<or> rdma_create_id_ret api w = cm"
    and evs: "w_pending w = CmEvent cm RDMA_CM_EVENT_ADDR_RESOLVED
       # CmEvent cm RDMA_CM_EVENT_ROUTE_RESOLVED # CmEvent cm RDMA_CM_EVENT_ESTABLISHED # es"
    and init: "init_rpc_client api intr ip0 RPC_CH_RDMA target port sz h w = Inr (p, w')" "p \<noteq> NULL"
    and ch: "w_rpcs w' p = Some ch" "msgbuf_bitmap ch \<noteq> NULL"
    and up: "w_cbs w' (ch_cb ch) = Some cb" "cb_state cb = CONNECTED"
    and full: "w_ctxs w' (cb_buf_ctxs cb) = Some cs" "ctxs_complete cs"
  shows "(\<exists>pdv. rpc_ready p ch (replicate 4 0) (ch_cb ch) cb cs pdv w')
     \<and> (\<exists>w''. destroy_rpc_client p w' = Inr ((), w'') \<and> w_rpcs w'' = w_rpcs w \<and> w_bytes w'' = w_bytes w
          \<and> w_cbs w'' = w_cbs w \<and> w_ctxs w'' = w_ctxs w \<and> w_msgs w'' = w_msgs w \<and> w_dmas w'' = w_dmas w
          \<and> w_pds w'' = w_pds w \<and> w_cqs w'' = w_cqs w \<and> w_qps w'' = w_qps w \<and> w_cmids w'' = w_cmids w)"
  using assms
proof (cases rule: init_rpc_connected)
  case (1 pdv)
  have c: "ch_type ch = RPC_CH_RDMA" "w_bytes w' (msgbuf_bitmap ch) = Some (replicate 4 0)"
    using 1(2) by (simp_all add: rpc_ready_def channel_ok_def)
  from init(2) ch(1) c(1) 1(1) ch(2) c(2) show ?thesis
  proof (cases rule: destroy_rpc_run)
    case (1 w1)
    note d = this
    let ?w = "w1\<lparr>w_bytes := (w_bytes w')(msgbuf_bitmap ch := None), w_rpcs := (w_rpcs w')(p := None)\<rparr>"
    have "w_rpcs ?w = w_rpcs w" "w_bytes ?w = w_bytes w"
      using \<open>w_rpcs w p = None\<close> \<open>w_bytes w (msgbuf_bitmap ch) = None\<close> \<open>w_bytes w' = _\<close> \<open>w_rpcs w' = _\<close>
      by (simp_all add: fun_upd_idem)
    moreover have "w_cbs ?w = w_cbs w" "w_ctxs ?w = w_ctxs w" "w_msgs ?w = w_msgs w" "w_dmas ?w = w_dmas w"
      "w_pds ?w = w_pds w" "w_cqs ?w = w_cqs w" "w_qps ?w = w_qps w" "w_cmids ?w = w_cmids w"
      using d(1) \<open>owns_new _ _ _ _ _\<close> by (simp_all add: torn_down_def owns_new_def)
    ultimately show ?thesis using d(2) \<open>rpc_ready _ _ _ _ _ _ _ _\<close> by blast
  qed
qed

definition rpc_up :: "fault + addr \<times> world \<Rightarrow> bool" where
  "rpc_up r = (case r of Inl _ \<Rightarrow> False | Inr (p, w) \<Rightarrow> p \<noteq> 0 \<and> (case w_rpcs w p of
       None \<Rightarrow> False
     | Some ch \<Rightarrow> msgbuf_bitmap ch \<noteq> 0 \<and> channel_up (Inr (ch_cb ch, w))))"

definition sample_rpc_start :: world where
  "sample_rpc_start = sample_start\<lparr>w_bytes := [0x7000 \<mapsto> [10, 1, 1, 2, 0]]\<rparr>"

lemma sample_rpc_comes_up:
  "rpc_up (init_rpc_client sample_api sample_intr (replicate 16 9) RPC_CH_RDMA 0x7000 7174 8 (Fn_user 0) sample_rpc_start)"
  by code_simp

theorem rpc_client_lifecycle_witness:
  "\<exists>p w1 w2. init_rpc_client sample_api sample_intr (replicate 16 9) RPC_CH_RDMA 0x7000 7174 8 (Fn_user 0) sample_rpc_start = Inr (p, w1)
     \<and> p \<noteq> 0 \<and> destroy_rpc_client p w1 = Inr ((), w2) \<and> w_rpcs w2 = Map.empty \<and> w_msgs w2 = Map.empty"
proof -
  obtain p w1 ch where up: "init_rpc_client sample_api sample_intr (replicate 16 9) RPC_CH_RDMA 0x7000 7174 8 (Fn_user 0) sample_rpc_start = Inr (p, w1)"
    "p \<noteq> 0" "w_rpcs w1 p = Some ch" "msgbuf_bitmap ch \<noteq> 0" and c: "channel_up (Inr (ch_cb ch, w1))"
    using sample_rpc_comes_up unfolding rpc_up_def by (auto split: sum.splits option.splits)
  obtain cb cs where cu: "w_cbs w1 (ch_cb ch) = Some cb" "cb_state cb = CONNECTED" "w_ctxs w1 (cb_buf_ctxs cb) = Some cs" "ctxs_complete cs"
    using channel_upE[OF c] by (metis Inr_inject prod.inject)
  have hyps: "rdma_connect_ret sample_api w c prm = 0"
    "is_err sample_api (rdma_create_id_ret sample_api w) \<or> rdma_create_id_ret sample_api w = 0x6000"
    "w_pending sample_rpc_start = CmEvent 0x6000 RDMA_CM_EVENT_ADDR_RESOLVED
     # CmEvent 0x6000 RDMA_CM_EVENT_ROUTE_RESOLVED # CmEvent 0x6000 RDMA_CM_EVENT_ESTABLISHED # []"
    "0 \<le> sint (8 :: c_int)" "sint (8 :: c_int) < 2 ^ 31 - 24" for w c prm
    by (simp_all add: sample_api_sel sample_rpc_start_def sample_start_def)
  show ?thesis
    using rpc_client_lifecycle[OF sample_good_env hyps(1,4,5,2,3) up cu] up(1,2)
    by (auto simp: sample_rpc_start_def sample_start_def empty_world_def)
qed

text \<open>
  When \<open>init_rpc_client\<close> returns NULL it has released everything except the message-buffer bitmap,
  which its error path forgets: the four bytes allocated for it stay allocated, with no pointer to
  them left.
\<close>

theorem init_rpc_client_error_leaks:
  assumes "alloc_sound api" and "verbs_sound api"
    and "init_rpc_client api intr ip0 ty target port sz h w = Inr (NULL, w')"
  shows "\<exists>bm. (bm \<noteq> NULL \<longrightarrow> w_bytes w bm = None) \<and> same_objects (w\<lparr>w_bytes := put_new bm (replicate 4 0) (w_bytes w)\<rparr>) w'"
  using assms by (rule init_rpc_null)

theorem init_rpc_client_error_leaks_witness:
  "\<exists>w' bm. init_rpc_client sample_api sample_intr (replicate 16 9) 0 0x7000 7174 8 (Fn_user 0) sample_rpc_start = Inr (NULL, w')
     \<and> same_objects (sample_rpc_start\<lparr>w_bytes := put_new bm (replicate 4 0) (w_bytes sample_rpc_start)\<rparr>) w'"
proof -
  have "case init_rpc_client sample_api sample_intr (replicate 16 9) 0 0x7000 7174 8 (Fn_user 0) sample_rpc_start of
      Inl _ \<Rightarrow> False | Inr (p, w') \<Rightarrow> p = 0" by code_simp
  then obtain w' where "init_rpc_client sample_api sample_intr (replicate 16 9) 0 0x7000 7174 8 (Fn_user 0) sample_rpc_start = Inr (NULL, w')"
    by (auto split: sum.splits)
  from this init_rpc_client_error_leaks[OF sample_alloc_sound sample_verbs_sound this] show ?thesis by blast
qed

text \<open>
  The server address reaches the connection through \<open>strcpy\<close> although it is binary: an address of
  four bytes is transferred unchanged exactly up to its first zero byte. With a zero among the first
  three bytes, the bytes after it are whatever the stack held; with no zero byte in the source or in
  its first sixteen bytes the copy runs out of bounds.
\<close>

theorem target_address_copied:
  assumes "length ip0 = 16" and "4 \<le> length src"
  shows "let n = length (takeWhile (\<lambda>b. b \<noteq> 0) src) in
     (if n < length src \<and> n < 16
      then (\<exists>ip. strcpy_bytes ip0 src w = Inr (ip, w)
             \<and> sa_addr (fill_sockaddr (attr_ip_addr (rpc_rdma_attr ip port sz h)) port)
               = (if 3 \<le> n then take 4 src else take (Suc n) src @ drop (Suc n) (take 4 ip0)))
      else strcpy_bytes ip0 src w = Inl OutOfBounds)"
proof -
  let ?s = "takeWhile (\<lambda>b. b \<noteq> 0) src"
  have tk: "?s @ [0] = take (Suc (length ?s)) src" if "length ?s < length src"
    using that nth_length_takeWhile[of "\<lambda>b. b \<noteq> 0" src]
    by (simp add: take_Suc_conv_app_nth takeWhile_eq_take[symmetric])
  have eq: "?s @ 0 # drop (Suc (length ?s)) ip0 = take (Suc (length ?s)) src @ drop (Suc (length ?s)) ip0"
    if "length ?s < length src" using tk[OF that] by (metis append.assoc append_Cons append_Nil)
  have four: "take 4 (take (Suc n) src @ drop (Suc n) ip0) =
      (if 3 \<le> n then take 4 src else take (Suc n) src @ drop (Suc n) (take 4 ip0))" if "n < length src" for n
    using that assms(2) by (auto simp: min_def drop_take)
  show ?thesis
    using assms(1) four by (simp add: strcpy_bytes_def Let_def fill_sockaddr_def rpc_rdma_attr_def eq)
qed

theorem target_address_copied_witness:
  "\<exists>ip. strcpy_bytes (replicate 16 9) [10, 0, 0, 2, 0] empty_world = Inr (ip, empty_world)
     \<and> sa_addr (fill_sockaddr (attr_ip_addr (rpc_rdma_attr ip 7174 8 FnNull)) 7174) = [10, 0, 9, 9]"
proof -
  have "takeWhile (\<lambda>b. b \<noteq> 0) [10, 0, 0, 2, 0 :: byte] = [10]" by simp
  moreover have "take (Suc 1) [10, 0, 0, 2, 0 :: byte] @ drop (Suc 1) (take 4 (replicate 16 9)) = [10, 0, 9, 9]" by code_simp
  ultimately show ?thesis
    using target_address_copied[of "replicate 16 9" "[10, 0, 0, 2, 0]" empty_world 7174 8 FnNull] by (simp add: Let_def)
qed

end
