(* ===== verification/Kern_Module.thy ===== *)
theory Kern_Module
  imports Kern_World
begin

text \<open>
  What a module with a \<open>/proc\<close> entry uses: references on the module, the entry itself, and the write handler
  that \<^verbatim>\<open>rpc_client_test.c\<close> and \<^verbatim>\<open>bak/krping.c\<close> have in common. What the kernel returns (\<open>in4_pton\<close>,
  \<open>try_module_get\<close>, \<open>copy_from_user\<close>, \<open>proc_create\<close>) is the record \<open>testapi\<close>, a parameter.
\<close>

section \<open>The interface\<close>

record testapi =
  in4_pton :: "byte list \<Rightarrow> byte list option"
  try_module_get :: "world \<Rightarrow> bool"
  copy_from_user :: "world \<Rightarrow> addr \<Rightarrow> u64 \<Rightarrow> byte list option"
  proc_create_ok :: "world \<Rightarrow> bool"

definition module_get :: "testapi \<Rightarrow> (world, bool) kern" where
  "module_get ta =
     bindK (getK (try_module_get ta)) (\<lambda>ok.
     thenK (whenK ok (modifyK (\<lambda>w. w\<lparr>w_refs := Suc (w_refs w)\<rparr>))) (returnK ok))"

definition module_put :: "(world, unit) kern" where
  "module_put = bindK (getK w_refs) (\<lambda>n. if n = 0 then failK BadFree else modifyK (\<lambda>w. w\<lparr>w_refs := n - 1\<rparr>))"

section \<open>Writing to the entry\<close>

text \<open>
  The handler copies the command in and runs \<open>doit\<close> on its address; \<open>junk\<close> is the contents of a fresh
  \<open>kmalloc\<close>. \<open>cmd[count - 1] = 0\<close>: with \<open>count\<close> zero this is a write before the array. The result is an
  \<open>ssize_t\<close>: an error code is sign-extended, and the count is first cut to an \<open>int\<close>.
\<close>

definition proc_write ::
    "kapi \<Rightarrow> testapi \<Rightarrow> (nat \<Rightarrow> byte list) \<Rightarrow> (addr \<Rightarrow> (world, c_int) kern) \<Rightarrow> addr \<Rightarrow> u64 \<Rightarrow> (world, 64 word) kern" where
  "proc_write api ta junk doit buffer count =
     bindK (module_get ta) (\<lambda>ok.
     if \<not> ok then returnK (scast (- 19 :: c_int))
     else
       bindK (kzalloc_obj api w_bytes w_bytes_update count (junk (unat count))) (\<lambda>cmd.
       if cmd = NULL then returnK (scast (- 12 :: c_int))
       else
         bindK (getK (\<lambda>w. copy_from_user ta w buffer count)) (\<lambda>r.
         case r of
           None \<Rightarrow> thenK (free_at w_bytes w_bytes_update cmd) (returnK (scast (- 14 :: c_int)))
         | Some bs \<Rightarrow>
             thenK (modify_at w_bytes w_bytes_update cmd (\<lambda>_. bs))
             (if count = 0 then failK OutOfBounds
              else
                thenK (modify_at w_bytes w_bytes_update cmd (\<lambda>b. b[unat (count - 1) := 0]))
                (bindK (doit cmd) (\<lambda>rc.
                 thenK (free_at w_bytes w_bytes_update cmd)
                 (thenK module_put
                 (returnK (if rc \<noteq> 0 then scast rc else scast (ucast count :: c_int))))))))))"

text \<open>The entry: \<open>proc_create\<close> may fail; removal cannot.\<close>

definition proc_entry_add :: "testapi \<Rightarrow> (world, c_int) kern" where
  "proc_entry_add ta =
     bindK (getK (proc_create_ok ta)) (\<lambda>ok.
     if \<not> ok then returnK (- ENOMEM) else thenK (modifyK (\<lambda>w. w\<lparr>w_proc := True\<rparr>)) (returnK 0))"

definition proc_entry_remove :: "(world, unit) kern" where
  "proc_entry_remove = modifyK (\<lambda>w. w\<lparr>w_proc := False\<rparr>)"

lemma proc_write_errors:
  assumes "alloc_sound api"
  shows "(\<not> try_module_get ta w \<longrightarrow> proc_write api ta junk doit buffer count w = Inr (scast (- 19 :: c_int), w))
     \<and> (try_module_get ta w \<longrightarrow>
          (let w1 = w\<lparr>w_refs := Suc (w_refs w)\<rparr>; cmd = kzalloc_ret api w1 count;
               w2 = w1\<lparr>w_trace := EvAlloc cmd count # w_trace w\<rparr>;
               w3 = w2\<lparr>w_bytes := (w_bytes w)(cmd \<mapsto> junk (unat count))\<rparr> in
           (cmd = NULL \<longrightarrow> proc_write api ta junk doit buffer count w = Inr (scast (- 12 :: c_int), w2))
           \<and> (cmd \<noteq> NULL \<and> copy_from_user ta w3 buffer count = None \<longrightarrow>
                proc_write api ta junk doit buffer count w = Inr (scast (- 14 :: c_int), w2))
           \<and> (cmd \<noteq> NULL \<and> copy_from_user ta w3 buffer count \<noteq> None \<and> count = 0 \<longrightarrow>
                proc_write api ta junk doit buffer count w = Inl OutOfBounds)))"
proof -
  have "kzalloc_ret api (w\<lparr>w_refs := Suc (w_refs w)\<rparr>) count \<noteq> 0 \<Longrightarrow> w_bytes w (kzalloc_ret api (w\<lparr>w_refs := Suc (w_refs w)\<rparr>) count) = None"
    using alloc_fresh(6)[OF assms refl] by fastforce
  then show ?thesis
    by (auto simp: proc_write_def module_get_def run_simps Let_def whenK_def fun_upd_idem)
qed

text \<open>A command that is copied in and run: the handler returns the reference and the memory it took.\<close>

lemma proc_write_run:
  assumes as: "alloc_sound api" and get: "try_module_get ta w" and n: "count \<noteq> 0"
    and cmd: "cmd = kzalloc_ret api (w\<lparr>w_refs := Suc (w_refs w)\<rparr>) count" "cmd \<noteq> NULL"
    and cp: "copy_from_user ta (w\<lparr>w_refs := Suc (w_refs w), w_trace := EvAlloc cmd count # w_trace w, w_bytes := (w_bytes w)(cmd \<mapsto> junk (unat count))\<rparr>) buffer count = Some bs"
    and doit: "doit cmd (w\<lparr>w_refs := Suc (w_refs w), w_trace := EvAlloc cmd count # w_trace w, w_bytes := (w_bytes w)(cmd \<mapsto> bs[unat (count - 1) := 0])\<rparr>) = Inr (rc, w1)"
    and keep: "w_bytes w1 cmd \<noteq> None" "w_refs w1 = Suc (w_refs w)"
  shows "proc_write api ta junk doit buffer count w =
     Inr (if rc \<noteq> 0 then scast rc else scast (ucast count :: c_int), w1\<lparr>w_bytes := (w_bytes w1)(cmd := None), w_refs := w_refs w\<rparr>)"
proof -
  obtain b where b: "w_bytes w1 cmd = Some b" using keep(1) by blast
  show ?thesis
    using get n cmd(2) cp b keep(2) cmd(1)[symmetric]
    by (simp add: proc_write_def module_get_def module_put_def run_simps Let_def whenK_def bindK_Inr[where m = "doit cmd", OF doit])
qed

end
