(* ===== verification/Client_Test.thy ===== *)
theory Client_Test
  imports Rpc_Client Kern_Module
begin

text \<open>
  The test client (\<^verbatim>\<open>rpc_client_test.c\<close>): the message handler it registers, the test that opens a channel,
  sends one message and closes the channel, and the \<open>/proc\<close> entry that starts it. What the kernel
  returns is the record \<open>testapi\<close>, a parameter; uninitialised memory is a parameter too.
\<close>

section \<open>The handlers\<close>

definition client_rdma_msg_handler :: "addr \<Rightarrow> (world, unit) kern" where
  "client_rdma_msg_handler arg =
     bindK (load w_mhs arg) (\<lambda>param. let msg = mh_msg param in
     bindK (load w_rmsgs msg) (\<lambda>m. let sem = hdr_sem (rpc_header m) in
     thenK (wake_up_interruptible_sem sem)
     (thenK (kfree_rpc_msg msg)
     (free_at w_mhs w_mhs_update arg))))"

text \<open>The handler for the shared-memory channel only reads the message to print it.\<close>

definition rpc_shmem_client_handler :: "addr \<Rightarrow> (world, unit) kern" where
  "rpc_shmem_client_handler arg = thenK (load w_rmsgs arg) (returnK ())"

definition test_users :: "nat \<Rightarrow> addr \<Rightarrow> (world, unit) kern" where
  "test_users n = (if n = 0 then client_rdma_msg_handler else rpc_shmem_client_handler)"

section \<open>The test\<close>

definition MAX_MSG_DATA_SIZE :: c_int where
  "MAX_MSG_DATA_SIZE = 4096"

definition g_port :: c_int where
  "g_port = 7174"

text \<open>The string literal, with its terminating zero.\<close>

definition hello_world :: "byte list" where
  "hello_world = [104, 101, 108, 108, 111, 32, 119, 111, 114, 108, 100, 0]"

text \<open>
  Memory the functions start from: the contents of a fresh \<open>kmalloc\<close> of a given size, the
  uninitialised array in \<open>init_rpc_client\<close>, and the addresses of the statics and of the wait queue on
  the stack.
\<close>

record test_mem =
  junk :: "nat \<Rightarrow> byte list"
  stack_ip :: "byte list"
  g_ip_addr :: addr
  data_lit :: addr
  stack_sem :: addr

definition test_connect ::
    "kapi \<Rightarrow> testapi \<Rightarrow> (env_event \<Rightarrow> (world, unit) kern) \<Rightarrow> test_mem \<Rightarrow> (world, addr) kern" where
  "test_connect api ta intr tm =
     bindK (kzalloc_obj api w_bytes w_bytes_update 16 (junk tm 16)) (\<lambda>g_ip_addr_res.
     bindK (load w_bytes (g_ip_addr tm)) (\<lambda>s.
     thenK (case in4_pton ta s of
              None \<Rightarrow> returnK ()
            | Some a \<Rightarrow> modify_at w_bytes w_bytes_update g_ip_addr_res (\<lambda>b. take 4 a @ drop 4 b))
     (init_rpc_client api intr (stack_ip tm) RPC_CH_RDMA g_ip_addr_res g_port MAX_MSG_DATA_SIZE (Fn_user 0))))"

text \<open>
  The wait queue is a local variable: its life ends when the function returns. The wait for the
  response is commented out in the source.
\<close>

definition test_main ::
    "kapi \<Rightarrow> testapi \<Rightarrow> (env_event \<Rightarrow> (world, unit) kern) \<Rightarrow> test_mem \<Rightarrow> (world, c_int) kern" where
  "test_main api ta intr tm =
     bindK (test_connect api ta intr tm) (\<lambda>rpc_cli_ch.
     thenK (create_at w_waitqs w_waitqs_update (stack_sem tm) ())
     (thenK (send_rpc_msg_to_server api intr
         \<lparr>req_rpc_ch = rpc_cli_ch, req_data = data_lit tm, req_sem = stack_sem tm\<rparr>)
     (bindK (if rpc_cli_ch = NULL then returnK (- 1) else thenK (destroy_rpc_client rpc_cli_ch) (returnK 0)) (\<lambda>ret.
      thenK (release w_waitqs w_waitqs_update (stack_sem tm)) (returnK ret)))))"

section \<open>The proc entry\<close>

definition krping_read_proc :: "testapi \<Rightarrow> (world, c_int) kern" where
  "krping_read_proc ta =
     bindK (module_get ta) (\<lambda>ok.
     if \<not> ok then returnK (- 19) else thenK module_put (returnK 0))"

text \<open>The write handler ignores the command and runs the test.\<close>

definition krping_write_proc ::
    "kapi \<Rightarrow> testapi \<Rightarrow> (env_event \<Rightarrow> (world, unit) kern) \<Rightarrow> test_mem \<Rightarrow> addr \<Rightarrow> u64 \<Rightarrow> (world, 64 word) kern" where
  "krping_write_proc api ta intr tm = proc_write api ta (junk tm) (\<lambda>cmd. test_main api ta intr tm)"

definition krping_init :: "testapi \<Rightarrow> (world, c_int) kern" where
  "krping_init = proc_entry_add"

definition krping_exit :: "(world, unit) kern" where
  "krping_exit = proc_entry_remove"

section \<open>The handler keeps the RPC layer's contract\<close>

interpretation test_handler: response_handler client_rdma_msg_handler
proof unfold_locales
  fix pa :: addr and w :: world and mp :: msg_handler_param and m :: rpc_msg and u :: unit
  assume "pa \<noteq> 0" "w_mhs w pa = Some mp" "mh_msg mp \<noteq> 0" "w_rmsgs w (mh_msg mp) = Some m"
    "hdr_sem (rpc_header m) \<noteq> 0" "w_waitqs w (hdr_sem (rpc_header m)) = Some u"
  then show "client_rdma_msg_handler pa w = Inr ((), rx_state w (EvWake (hdr_sem (rpc_header m)) # w_trace w)
       ((w_rmsgs w)(mh_msg mp := None)) ((w_mhs w)(pa := None)) (w_rhs w))"
    by (simp add: client_rdma_msg_handler_def Let_def run_simps wake_up_interruptible_sem_def kfree_rpc_msg_def rx_state_def
        thenK_def bindK_def free_at_def release_def load_def)
qed

section \<open>What the test does\<close>

lemma null_channel_send: "send_rpc_msg_to_server api intr \<lparr>req_rpc_ch = 0, req_data = d, req_sem = q\<rparr> w = Inl NullDeref"
proof -
  have t: "alloc_try 0 b w = Inl NullDeref" for b
    by (simp add: alloc_try_def spin_lock_def thenK_def bindK_def load_def)
  have "alloc_msgbuf_id intr 0 w = Inl NullDeref"
    by (cases "w_pending w") (simp_all add: alloc_msgbuf_id_def bindK_def t)
  then show ?thesis by (simp add: send_rpc_msg_to_server_def Let_def bindK_Inl)
qed

lemma short_request:
  assumes rdy: "rpc_ready p ch bs cbp cb cs pdv w" and i: "clear_slot bs = Some i"
    and data: "data \<noteq> 0" "data \<noteq> msgbuf_bitmap ch" "w_bytes w data = Some src" "length src < data_len cb"
  shows "send_rpc_msg_to_server api intr \<lparr>req_rpc_ch = p, req_data = data, req_sem = sem\<rparr> w = Inl OutOfBounds"
proof -
  have ch: "channel_ok p ch bs w" "p \<noteq> 0" "w_rpcs w p = Some ch" "ch_type ch = RPC_CH_RDMA" "ch_cb ch = cbp" "wf_bitmap bs"
    and cnt: "cb_msgbuf_cnt cb = RPC_MSG_BUF_NUM"
    using rdy by (auto simp: rpc_ready_def channel_ok_def)
  let ?w1 = "with_bitmap ch (set_slot i bs) w"
  have "i \<in> slots" using bitmap.find_Some[OF ch(6) i] by simp
  note n = slot_int[OF this]
  have ok1: "buffers_ok cbp cb cs pdv ?w1" using rdy by (intro buffers_ok_bytes) (simp add: rpc_ready_def)
  have "send_rdma_msg api cbp p data sem (ucast i) 0 ?w1 = Inl OutOfBounds"
    using data n cnt by (intro send_short_run[OF ok1]) (simp_all add: RPC_MSG_BUF_NUM_def)
  then show ?thesis
    using ch by (simp add: send_rpc_msg_to_server_def bindK_Inr[where m = "alloc_msgbuf_id intr p", OF alloc_now[OF ch(1) i]]
        run_simps Let_def thenK_Inl)
qed

lemma rpc_ready_waitqs: "rpc_ready p ch bs cbp cb cs pdv w \<Longrightarrow> rpc_ready p ch bs cbp cb cs pdv (w\<lparr>w_waitqs := h\<rparr>)"
  using buffers_ok_frame[of cbp cb cs pdv w "w\<lparr>w_waitqs := h\<rparr>"] by (simp add: rpc_ready_def channel_ok_def)

section \<open>Properties\<close>

text \<open>
  A response completes a request: when a message that names the RPC channel and a live wait
  queue arrives in buffer \<open>i\<close>, its delivery either runs out of memory and changes nothing but the
  record of calls, or marks buffer \<open>i\<close> free and no other, wakes the wait queue, releases the message
  and both parameter objects and moves the channel to \<open>WORKING\<close>; nothing else changes.
\<close>

theorem response_completes_request:
  assumes "alloc_sound api" and "rpc_ready p ch bs cbp cb cs pdv w" and "i \<in> slots"
    and "cb_user_msg_handler_cb cb = Fn_user 0"
    and "wc_wr_id wc = i" "wc_byte_len wc = cb_msgbuf_size cb"
    and "w_msgs w (recv_buf (cs ! unat i)) = Some m" "ntohll api (rpc_ch_addr m) = p"
    and "ntohll api (sem_addr m) = sem" "sem \<noteq> NULL" "w_waitqs w sem = Some u"
  shows "\<exists>t bs'. receive_msg api (rpc_callf test_users) cbp wc w = Inr (- ENOMEM, w\<lparr>w_trace := t\<rparr>)
     \<or> used bs' = used bs - {i} \<and> wf_bitmap bs'
       \<and> receive_msg api (rpc_callf test_users) cbp wc w = Inr (0, (with_bitmap ch bs' w)\<lparr>
          w_cbs := (w_cbs w)(cbp \<mapsto> (if cb_state cb \<le> CONNECTED then cb\<lparr>cb_state := WORKING\<rparr> else cb)),
          w_trace := EvWake sem # t\<rparr>)"
proof -
  have wf: "wf_bitmap bs" using assms(2) by (simp add: rpc_ready_def channel_ok_def)
  have "test_users 0 = client_rdma_msg_handler" by (simp add: test_users_def)
  from test_handler.delivery_run[where users = test_users and n = 0, OF assms(1-4) this assms(5-11)]
  show ?thesis using bitmap.in_use_give[OF wf] bitmap.invar_give[OF wf] by metis
qed

definition sample_reply :: rdma_msg where
  "sample_reply = wire_msg sample_api 2 0x8000 0x9000 [8, 7, 6, 5, 4, 3, 2, 1]"

theorem response_completes_request_witness:
  "\<exists>t bs'. receive_msg sample_api (rpc_callf test_users) 64 (sample_recv_wc\<lparr>wc_wr_id := 2\<rparr>) (sample_rpc [1, 1, 1, 1] sample_reply)
        = Inr (- ENOMEM, (sample_rpc [1, 1, 1, 1] sample_reply)\<lparr>w_trace := t\<rparr>)
     \<or> used bs' = used [1, 1, 1, 1] - {2} \<and> wf_bitmap bs'
       \<and> receive_msg sample_api (rpc_callf test_users) 64 (sample_recv_wc\<lparr>wc_wr_id := 2\<rparr>) (sample_rpc [1, 1, 1, 1] sample_reply)
        = Inr (0, (with_bitmap \<lparr>ch_type = RPC_CH_RDMA, ch_cb = 64, msgbuf_bitmap = 0x8100, msgbuf_bitmap_lock = False\<rparr> bs'
            (sample_rpc [1, 1, 1, 1] sample_reply))\<lparr>
          w_cbs := (w_cbs (sample_rpc [1, 1, 1, 1] sample_reply))(64 \<mapsto> (if cb_state sample_req_cb \<le> CONNECTED
             then sample_req_cb\<lparr>cb_state := WORKING\<rparr> else sample_req_cb)),
          w_trace := EvWake 0x9000 # t\<rparr>)"
proof -
  have l: "length (msg_data sample_reply) = 8" "length [1, 1, 1, 1 :: byte] = 4" by (simp_all add: sample_reply_def wire_msg_def)
  have inv: "ntohll sample_api (htonll sample_api x) = x" for x by (simp add: ntohll_def htonll_def sample_api_sel bswap64_twice)
  show ?thesis
    by (rule response_completes_request[OF sample_alloc_sound sample_rpc_ready[OF l], where m = sample_reply])
      (simp_all add: sample_req_cb_sel sample_recv_wc_def slots_eq sample_rpc_sel sample_req_ctxs_def sample_req_ctx_sel
        sample_reply_def wire_msg_def inv)
qed

text \<open>
  The test cannot succeed. When no channel could be opened, it sends through the NULL pointer
  before it tests for it. When the channel is ready, it sends a string of 12 bytes through a channel
  whose messages have 4096 data bytes, so the copy reads past the end of the string.
\<close>

theorem test_main_faults:
  assumes con: "test_connect api ta intr tm w = Inr (p, w1)"
  shows "(p = NULL \<longrightarrow> test_main api ta intr tm w = Inl NullDeref)
     \<and> (rpc_ready p ch bs cbp cb cs pdv w1 \<and> used bs \<noteq> slots \<and> cb_msgdata_size cb = MAX_MSG_DATA_SIZE
          \<and> data_lit tm \<noteq> NULL \<and> data_lit tm \<noteq> msgbuf_bitmap ch \<and> w_bytes w1 (data_lit tm) = Some hello_world
        \<longrightarrow> test_main api ta intr tm w = Inl OutOfBounds)"
proof (intro conjI impI; (elim conjE)?)
  let ?w = "w1\<lparr>w_waitqs := (w_waitqs w1)(stack_sem tm \<mapsto> ())\<rparr>"
  have run: "test_main api ta intr tm w = Inl e"
    if "send_rpc_msg_to_server api intr \<lparr>req_rpc_ch = p, req_data = data_lit tm, req_sem = stack_sem tm\<rparr> ?w = Inl e" for e
    using that by (simp add: test_main_def bindK_Inr[where m = "test_connect api ta intr tm", OF con] run_simps thenK_Inl)
  show "test_main api ta intr tm w = Inl NullDeref" if "p = 0"
    using that by (intro run) (simp add: null_channel_send)
  assume r: "rpc_ready p ch bs cbp cb cs pdv w1" "used bs \<noteq> slots" "cb_msgdata_size cb = MAX_MSG_DATA_SIZE"
    and d: "data_lit tm \<noteq> 0" "data_lit tm \<noteq> msgbuf_bitmap ch" "w_bytes w1 (data_lit tm) = Some hello_world"
  have "wf_bitmap bs" using r(1) by (simp add: rpc_ready_def channel_ok_def)
  then obtain i where "clear_slot bs = Some i" using r(2) bitmap.find_None by blast
  from short_request[OF rpc_ready_waitqs[OF r(1)] this] d r(3)
  show "test_main api ta intr tm w = Inl OutOfBounds"
    by (intro run) (simp add: hello_world_def data_len_def size_of_int_def MAX_MSG_DATA_SIZE_def)
qed

definition sample_testapi :: testapi where
  "sample_testapi = \<lparr>in4_pton = (\<lambda>s. Some [10, 1, 1, 2]), try_module_get = (\<lambda>w. True),
     copy_from_user = (\<lambda>w p n. Some (replicate (unat n) 97)), proc_create_ok = (\<lambda>w. True)\<rparr>"

definition sample_mem :: test_mem where
  "sample_mem = \<lparr>junk = (\<lambda>n. replicate n 0), stack_ip = replicate 16 9, g_ip_addr = 0x7100, data_lit = 0x7200, stack_sem = 0x7300\<rparr>"

definition no_id_api :: kapi where
  "no_id_api = sample_api\<lparr>rdma_create_id_ret := \<lambda>w. 0xFFFFFFFFFFFFFFF4\<rparr>"

definition sample_test_world :: world where
  "sample_test_world = empty_world\<lparr>w_bytes := [0x7100 \<mapsto> [49, 0], 0x7200 \<mapsto> hello_world]\<rparr>"

theorem test_main_faults_witness:
  "test_main no_id_api sample_testapi sample_intr sample_mem sample_test_world = Inl NullDeref"
proof -
  have "case test_connect no_id_api sample_testapi sample_intr sample_mem sample_test_world of
      Inl _ \<Rightarrow> False | Inr (p, w) \<Rightarrow> p = 0" by code_simp
  then obtain w1 where "test_connect no_id_api sample_testapi sample_intr sample_mem sample_test_world = Inr (0, w1)"
    by (auto split: sum.splits)
  from test_main_faults[OF this] show ?thesis by simp
qed

text \<open>
  The error paths of a write to the \<open>/proc\<close> entry. Without a module reference nothing happens.
  When the command cannot be allocated or copied in, the error is returned and the command freed,
  but the reference taken on the module is kept, so that it can never be unloaded. A write of zero
  bytes stores before the start of the command.
\<close>

theorem write_proc_error_paths:
  assumes "alloc_sound api"
  shows "(\<not> try_module_get ta w \<longrightarrow> krping_write_proc api ta intr tm buffer count w = Inr (scast (- 19 :: c_int), w))
     \<and> (try_module_get ta w \<longrightarrow>
          (let w1 = w\<lparr>w_refs := Suc (w_refs w)\<rparr>; cmd = kzalloc_ret api w1 count;
               w2 = w1\<lparr>w_trace := EvAlloc cmd count # w_trace w\<rparr>;
               w3 = w2\<lparr>w_bytes := (w_bytes w)(cmd \<mapsto> junk tm (unat count))\<rparr> in
           (cmd = NULL \<longrightarrow> krping_write_proc api ta intr tm buffer count w = Inr (scast (- 12 :: c_int), w2))
           \<and> (cmd \<noteq> NULL \<and> copy_from_user ta w3 buffer count = None \<longrightarrow>
                krping_write_proc api ta intr tm buffer count w = Inr (scast (- 14 :: c_int), w2))
           \<and> (cmd \<noteq> NULL \<and> copy_from_user ta w3 buffer count \<noteq> None \<and> count = 0 \<longrightarrow>
                krping_write_proc api ta intr tm buffer count w = Inl OutOfBounds)))"
  unfolding krping_write_proc_def by (rule proc_write_errors[OF assms])

theorem write_proc_error_paths_witness:
  "krping_write_proc sample_api sample_testapi sample_intr sample_mem 0 0 sample_test_world = Inl OutOfBounds"
proof -
  have "kzalloc_ret sample_api (sample_test_world\<lparr>w_refs := Suc (w_refs sample_test_world)\<rparr>) 0 = 16"
    by (simp add: sample_api_sel sample_alloc_def sample_test_world_def empty_world_def live_def Let_def)
  then show ?thesis
    using write_proc_error_paths[OF sample_alloc_sound, of sample_testapi sample_test_world sample_intr sample_mem 0 0]
    by (simp add: sample_testapi_def Let_def)
qed

end
