(* ===== verification/Kern_Trace.thy ===== *)
theory Kern_Trace
  imports Kern_Prelude
begin

text \<open>
  Sequences of labelled steps, and their simulation by a deterministic specification: a specification
  maps an action and an abstract state to the next abstract state, or to \<open>None\<close> when it does not allow
  the action. The locale \<open>simulation\<close> carries a one-step simulation over to whole sequences.
\<close>

inductive steps :: "('a \<Rightarrow> 's \<Rightarrow> 's \<Rightarrow> bool) \<Rightarrow> 'a list \<Rightarrow> 's \<Rightarrow> 's \<Rightarrow> bool" for step where
  steps_Nil [intro!]: "steps step [] s s"
| steps_Cons: "step a s s' \<Longrightarrow> steps step as s' s'' \<Longrightarrow> steps step (a # as) s s''"

inductive_simps steps_Nil_iff [simp]: "steps step [] s s'"
inductive_simps steps_Cons_iff: "steps step (a # as) s s'"

lemma steps_append: "steps step (as @ bs) s s'' \<longleftrightarrow> (\<exists>s'. steps step as s s' \<and> steps step bs s' s'')"
  by (induction as arbitrary: s) (auto simp: steps_Cons_iff)

fun run_spec :: "('a \<Rightarrow> 't \<Rightarrow> 't option) \<Rightarrow> 'a list \<Rightarrow> 't \<Rightarrow> 't option" where
  "run_spec spec [] t = Some t"
| "run_spec spec (a # as) t = (case spec a t of None \<Rightarrow> None | Some t' \<Rightarrow> run_spec spec as t')"

lemma run_spec_append:
  "run_spec spec (as @ bs) t = (case run_spec spec as t of None \<Rightarrow> None | Some t' \<Rightarrow> run_spec spec bs t')"
  by (induction as arbitrary: t) (auto split: option.splits)

lemma run_spec_snoc:
  "run_spec spec (as @ [a]) t = Some t'' \<longleftrightarrow> (\<exists>t'. run_spec spec as t = Some t' \<and> spec a t' = Some t'')"
  by (auto simp: run_spec_append split: option.splits)

locale simulation =
  fixes step :: "'a \<Rightarrow> 's \<Rightarrow> 's \<Rightarrow> bool" and spec :: "'a \<Rightarrow> 't \<Rightarrow> 't option" and rel :: "'t \<Rightarrow> 's \<Rightarrow> bool"
  assumes simulates: "rel t s \<Longrightarrow> step a s s' \<Longrightarrow> \<exists>t'. spec a t = Some t' \<and> rel t' s'"
begin

lemma steps_simulated: "steps step as s s' \<Longrightarrow> rel t s \<Longrightarrow> \<exists>t'. run_spec spec as t = Some t' \<and> rel t' s'"
proof (induction arbitrary: t rule: steps.induct)
  case (steps_Cons a s s' as s'')
  from simulates[OF steps_Cons.prems steps_Cons.hyps(1)] obtain t' where "spec a t = Some t'" "rel t' s'" by blast
  with steps_Cons.IH show ?case by auto
qed simp

lemma steps_keep:
  assumes keeps: "\<And>t s a s'. rel t s \<Longrightarrow> step a s s' \<Longrightarrow> f s' = f s"
  shows "steps step as s s' \<Longrightarrow> rel t s \<Longrightarrow> f s' = f s"
proof (induction arbitrary: t rule: steps.induct)
  case (steps_Cons a s s' as s'')
  from simulates[OF steps_Cons.prems steps_Cons.hyps(1)] obtain t' where "rel t' s'" by blast
  then show ?case using steps_Cons.IH keeps[OF steps_Cons.prems steps_Cons.hyps(1)] by simp
qed simp

end

end
