(* ===== verification/Rpc_Session.thy ===== *)
theory Rpc_Session
  imports Client_Test Kern_Trace
begin

text \<open>
  Sessions of an RPC channel: any sequence of requests by the application, completions the device
  reports and connection events, as steps of the code of \<^verbatim>\<open>rpc_client.c\<close> and \<^verbatim>\<open>rdma.c\<close>. The steps refine a
  specification whose only state is the map of outstanding requests, from message buffer to the
  requester's wait queue.
\<close>

section \<open>Steps of a session\<close>

text \<open>
  What can be observed of a step: a request that was given buffer \<open>i\<close>, the response to it and whether
  the buffer was given back, and everything else.
\<close>

datatype rpc_act = Request u64 addr | Response u64 addr bool | Internal

definition given_back :: "addr \<Rightarrow> u64 \<Rightarrow> world \<Rightarrow> bool" where
  "given_back p i w = (case w_rpcs w p of
     None \<Rightarrow> False
   | Some ch \<Rightarrow> (case w_bytes w (msgbuf_bitmap ch) of
        None \<Rightarrow> False
      | Some bs \<Rightarrow> unat i < length bs \<and> bs ! unat i = 0))"

text \<open>A completion that \<open>cq_event_handler\<close> passes on to the RPC layer.\<close>

definition delivers :: "rdma_ch_cb \<Rightarrow> c_int \<Rightarrow> ib_wc \<Rightarrow> bool" where
  "delivers cb r wc \<longleftrightarrow> r = 1 \<and> wc_status wc = IB_WC_SUCCESS \<and> wc_opcode wc = IB_WC_RECV
     \<and> wc_byte_len wc = cb_msgbuf_size cb"

text \<open>
  The caller of a request owes live data of the channel's size and a live wait queue. The device
  writes into receive buffers only, and the server answers a request in the buffer it came from, with
  the channel and wait-queue words of the request. Completions are handled by one iteration of the
  polling loop; of connection events those are steps after which the connection manager keeps the id.
\<close>

inductive rpc_step ::
    "kapi \<Rightarrow> (env_event \<Rightarrow> (world, unit) kern) \<Rightarrow> (nat \<Rightarrow> addr \<Rightarrow> (world, unit) kern) \<Rightarrow> addr
     \<Rightarrow> rpc_act \<Rightarrow> world \<Rightarrow> world \<Rightarrow> bool" for api intr users p where
  request: "w_rpcs w p = Some ch \<Longrightarrow> w_cbs w (ch_cb ch) = Some cb \<Longrightarrow>
     data \<noteq> NULL \<Longrightarrow> data \<noteq> msgbuf_bitmap ch \<Longrightarrow> w_bytes w data = Some src \<Longrightarrow> data_len cb \<le> length src \<Longrightarrow>
     sem \<noteq> NULL \<Longrightarrow> w_waitqs w sem \<noteq> None \<Longrightarrow>
     send_rpc_msg_to_server api intr \<lparr>req_rpc_ch = p, req_data = data, req_sem = sem\<rparr> w = Inr (r, w') \<Longrightarrow>
     rpc_step api intr users p (Request (scast r) sem) w w'"
| response: "w_rpcs w p = Some ch \<Longrightarrow> w_cbs w (ch_cb ch) = Some cb \<Longrightarrow> w_ctxs w (cb_buf_ctxs cb) = Some cs \<Longrightarrow>
     w_bytes w (msgbuf_bitmap ch) = Some bs \<Longrightarrow> i \<in> used bs \<Longrightarrow>
     ib_poll_cq_ret api w (cb_cq cb) = (r, wc, fills) \<Longrightarrow> fst ` set fills \<subseteq> recv_buf ` set cs \<Longrightarrow>
     delivers cb r wc \<Longrightarrow> wc_wr_id wc = i \<Longrightarrow>
     w_msgs w (send_buf (cs ! unat i)) = Some q \<Longrightarrow>
     fold dma_fill fills (w_msgs w) (recv_buf (cs ! unat i)) = Some m \<Longrightarrow>
     rpc_ch_addr m = rpc_ch_addr q \<Longrightarrow> sem_addr m = sem_addr q \<Longrightarrow>
     cq_once api (rpc_callf users) (ch_cb ch) fl w = Inr (x, w') \<Longrightarrow>
     rpc_step api intr users p (Response i (ntohll api (sem_addr m)) (given_back p i w')) w w'"
| completion: "w_rpcs w p = Some ch \<Longrightarrow> w_cbs w (ch_cb ch) = Some cb \<Longrightarrow> w_ctxs w (cb_buf_ctxs cb) = Some cs \<Longrightarrow>
     ib_poll_cq_ret api w (cb_cq cb) = (r, wc, fills) \<Longrightarrow> fst ` set fills \<subseteq> recv_buf ` set cs \<Longrightarrow>
     \<not> delivers cb r wc \<Longrightarrow>
     cq_once api (rpc_callf users) (ch_cb ch) fl w = Inr (x, w') \<Longrightarrow>
     rpc_step api intr users p Internal w w'"
| connection: "w_rpcs w p = Some ch \<Longrightarrow> cid \<noteq> NULL \<Longrightarrow> w_cmids w cid = Some idr \<Longrightarrow> id_context idr = ch_cb ch \<Longrightarrow>
     cma_event_handler api cid ev w = Inr (0, w') \<Longrightarrow>
     rpc_step api intr users p Internal w w'"

fun is_request :: "rpc_act \<Rightarrow> bool" where
  "is_request (Request i sem) = True"
| "is_request _ = False"

section \<open>The specification\<close>

text \<open>
  Outstanding requests. A request is given the lowest buffer with no request outstanding, a response
  answers an outstanding request, and ends it if it could be delivered.
\<close>

type_synonym requests = "u64 \<rightharpoonup> addr"

definition lowest_free :: "requests \<Rightarrow> u64 option" where
  "lowest_free out = find (\<lambda>i. out i = None) [0, 1, 2, 3]"

fun requests_spec :: "rpc_act \<Rightarrow> requests \<Rightarrow> requests option" where
  "requests_spec (Request i sem) out = (if lowest_free out = Some i then Some (out(i \<mapsto> sem)) else None)"
| "requests_spec (Response i sem ok) out =
     (if out i = Some sem then Some (if ok then out(i := None) else out) else None)"
| "requests_spec Internal out = Some out"

lemma lowest_free_eq:
  assumes "dom out = used bs" and "wf_bitmap bs"
  shows "lowest_free out = clear_slot bs"
proof (cases "clear_slot bs")
  case None
  then have "dom out = {0, 1, 2, 3}" using bitmap.find_None[OF assms(2)] assms(1) by (simp add: slots_eq)
  then have "out i \<noteq> None" if "i \<in> {0, 1, 2, 3}" for i using that by (auto simp: dom_def)
  then show ?thesis using None by (simp add: lowest_free_def)
next
  case (Some i)
  from bitmap.find_Some[OF assms(2) this] have "i \<in> {0, 1, 2, 3}" "out i = None" "\<And>j. j < i \<Longrightarrow> out j \<noteq> None"
    unfolding assms(1)[symmetric] by (auto simp: slots_eq dom_def)
  then consider "i = 0" "out 0 = None" | "i = 1" "out 1 = None" "out 0 \<noteq> None"
    | "i = 2" "out 2 = None" "out 0 \<noteq> None" "out 1 \<noteq> None"
    | "i = 3" "out 3 = None" "out 0 \<noteq> None" "out 1 \<noteq> None" "out 2 \<noteq> None" by force
  then show ?thesis using Some by cases (simp_all add: lowest_free_def)
qed

section \<open>The state of a session\<close>

text \<open>
  What stays the same in a session: the channel, its control block up to the connection state and
  the child id, the message buffers and their mappings.
\<close>

record session =
  ses_rpc :: addr
  ses_ch :: rpc_ch_info
  ses_cb :: rdma_ch_cb
  ses_ctxs :: "msgbuf_ctx list"
  ses_pd :: ib_pd

abbreviation (input) ses_cbp :: "session \<Rightarrow> addr" where
  "ses_cbp S \<equiv> ch_cb (ses_ch S)"

definition same_conn :: "rdma_ch_cb \<Rightarrow> rdma_ch_cb \<Rightarrow> bool" where
  "same_conn cb cb' \<longleftrightarrow> cb' = cb\<lparr>cb_state := cb_state cb', cb_child_cm_id := cb_child_cm_id cb'\<rparr>"

definition session_up :: "session \<Rightarrow> byte list \<Rightarrow> rdma_ch_cb \<Rightarrow> msgbuf_ctx list \<Rightarrow> world \<Rightarrow> bool" where
  "session_up S bs cb cs w \<longleftrightarrow>
     rpc_ready (ses_rpc S) (ses_ch S) bs (ses_cbp S) cb cs (ses_pd S) w
     \<and> channel_ready (ses_cbp S) cb cs (ses_pd S) w
     \<and> same_conn (ses_cb S) cb \<and> bufs cs = bufs (ses_ctxs S) \<and> maps cs = maps (ses_ctxs S)"

text \<open>Every outstanding request is still in its send buffer, and its requester still waits.\<close>

definition outstanding :: "kapi \<Rightarrow> session \<Rightarrow> requests \<Rightarrow> world \<Rightarrow> bool" where
  "outstanding api S out w \<longleftrightarrow> (\<forall>i sem. out i = Some sem \<longrightarrow> sem \<noteq> NULL \<and> w_waitqs w sem \<noteq> None
     \<and> (\<exists>q. w_msgs w (send_buf (ses_ctxs S ! unat i)) = Some q
           \<and> rpc_ch_addr q = htonll api (ses_rpc S) \<and> sem_addr q = htonll api sem))"

definition channel_inv :: "kapi \<Rightarrow> session \<Rightarrow> requests \<Rightarrow> world \<Rightarrow> bool" where
  "channel_inv api S out w \<longleftrightarrow> alloc_sound api \<and> be64_involution api \<and> cb_user_msg_handler_cb (ses_cb S) = Fn_user 0
     \<and> outstanding api S out w \<and> (\<exists>bs cb cs. dom out = used bs \<and> session_up S bs cb cs w)"

text \<open>Between the steps of a session no event is waiting: every event is a step of its own.\<close>

definition session_inv :: "kapi \<Rightarrow> session \<Rightarrow> requests \<Rightarrow> world \<Rightarrow> bool" where
  "session_inv api S out w \<longleftrightarrow> channel_inv api S out w \<and> w_pending w = []"

text \<open>The world without the memory a session writes to.\<close>

definition elsewhere :: "session \<Rightarrow> world \<Rightarrow> world" where
  "elsewhere S w = w\<lparr>w_cbs := (w_cbs w)(ses_cbp S := None), w_ctxs := (w_ctxs w)(cb_buf_ctxs (ses_cb S) := None),
     w_msgs := del_all (bufs (ses_ctxs S)) (w_msgs w), w_bytes := (w_bytes w)(msgbuf_bitmap (ses_ch S) := None), w_trace := []\<rparr>"

lemma same_connE:
  assumes "same_conn cb cb'"
  obtains st ch where "cb' = cb\<lparr>cb_state := st, cb_child_cm_id := ch\<rparr>"
  using assms by (auto simp: same_conn_def)

lemma same_conn_state [simp]: "same_conn cb cb" "same_conn cb (cb\<lparr>cb_state := st\<rparr>)" "same_conn cb (cb_after cid ev st cb)"
  by (simp_all add: same_conn_def cb_after_def)

lemma same_conn_trans: "same_conn a b \<Longrightarrow> same_conn b c \<Longrightarrow> same_conn a c"
  by (elim same_connE) (simp add: same_conn_def)

lemma same_conn_sel:
  assumes "same_conn cb cb'"
  shows "cb_buf_ctxs cb' = cb_buf_ctxs cb" "data_len cb' = data_len cb" "cb_cq cb' = cb_cq cb" "cb_qp cb' = cb_qp cb"
    "cb_pd cb' = cb_pd cb" "cb_cm_id cb' = cb_cm_id cb" "cb_msgbuf_size cb' = cb_msgbuf_size cb"
    "cb_user_msg_handler_cb cb' = cb_user_msg_handler_cb cb" "cb_msgbuf_cnt cb' = cb_msgbuf_cnt cb"
  using assms by (auto elim!: same_connE simp: data_len_def)

subsection \<open>Buffers of different contexts\<close>

lemma bufs_nth:
  assumes "k < length cs"
  shows "bufs cs ! (2 * k) = recv_buf (cs ! k)" "bufs cs ! (2 * k + 1) = send_buf (cs ! k)" "length (bufs cs) = 2 * length cs"
proof -
  have len: "length (bufs xs) = 2 * length xs" for xs by (induction xs) (simp_all add: bufs_def)
  have "bufs cs ! (2 * k) = recv_buf (cs ! k) \<and> bufs cs ! (2 * k + 1) = send_buf (cs ! k)" using assms
  proof (induction cs arbitrary: k)
    case (Cons c cs)
    then show ?case by (cases k) (simp_all add: bufs_def)
  qed simp
  with len show "bufs cs ! (2 * k) = recv_buf (cs ! k)" "bufs cs ! (2 * k + 1) = send_buf (cs ! k)" "length (bufs cs) = 2 * length cs"
    by simp_all
qed

lemma bufs_distinct:
  assumes "distinct (bufs cs)" "j < length cs" "k < length cs"
  shows "send_buf (cs ! j) = send_buf (cs ! k) \<longleftrightarrow> j = k" "send_buf (cs ! j) \<noteq> recv_buf (cs ! k)"
  using nth_eq_iff_index_eq[OF assms(1), of "2 * j + 1" "2 * k + 1"] nth_eq_iff_index_eq[OF assms(1), of "2 * j + 1" "2 * k"]
    bufs_nth[OF assms(2)] bufs_nth[OF assms(3)] assms(2,3) by auto

lemma same_bufs:
  assumes "bufs cs = bufs cs'" "length cs = length cs'" "k < length cs"
  shows "send_buf (cs ! k) = send_buf (cs' ! k)" "recv_buf (cs ! k) = recv_buf (cs' ! k)"
  using bufs_nth[of k cs] bufs_nth[of k cs'] assms by simp_all

lemma bufs_mem: "k < length cs \<Longrightarrow> send_buf (cs ! k) \<in> set (bufs cs)" "k < length cs \<Longrightarrow> recv_buf (cs ! k) \<in> set (bufs cs)"
  by (auto simp: bufs_def)

lemma del_all_absorb: "q \<noteq> 0 \<Longrightarrow> q \<in> set ks \<Longrightarrow> del_all ks (h(q \<mapsto> v)) = del_all ks h"
  by (auto simp: del_all_def fun_eq_iff)

subsection \<open>What the device writes\<close>

lemma dma_fill_other: "fst pm \<noteq> q \<Longrightarrow> dma_fill pm h q = h q"
  by (auto simp: dma_fill_def split: option.splits)

lemma fills_other: "q \<notin> fst ` set fills \<Longrightarrow> fold dma_fill fills h q = h q"
  by (induction fills arbitrary: h) (auto simp: dma_fill_other)

lemma fills_size:
  "(\<exists>m. h q = Some m \<and> length (msg_data m) = n) \<Longrightarrow> \<exists>m. fold dma_fill fills h q = Some m \<and> length (msg_data m) = n"
proof (induction fills arbitrary: h)
  case (Cons pm fills)
  have "\<exists>m. dma_fill pm h q = Some m \<and> length (msg_data m) = n"
    using Cons.prems by (auto simp: dma_fill_def split: option.splits)
  then show ?case using Cons.IH[of "dma_fill pm h"] by simp
qed simp

subsection \<open>What keeps a session up\<close>

lemma session_upD:
  assumes "session_up S bs cb cs w"
  shows "ses_rpc S \<noteq> 0" "w_rpcs w (ses_rpc S) = Some (ses_ch S)" "w_bytes w (msgbuf_bitmap (ses_ch S)) = Some bs" "wf_bitmap bs"
    "ses_cbp S \<noteq> 0" "w_cbs w (ses_cbp S) = Some cb" "cb_buf_ctxs cb \<noteq> 0" "w_ctxs w (cb_buf_ctxs cb) = Some cs"
    "cb_cq cb \<noteq> 0" "\<exists>c. w_cqs w (cb_cq cb) = Some c" "same_conn (ses_cb S) cb" "bufs cs = bufs (ses_ctxs S)"
    "distinct (bufs cs)" "0 \<notin> set (bufs cs)" "length cs = 4"
  using assms by (auto simp: session_up_def rpc_ready_def channel_ok_def channel_ready_def buffers_ok_def buf_pre_def
      qp_ready_def RPC_MSG_BUF_NUM_def iters_def)

lemma session_up_sized: "session_up S bs cb cs w \<Longrightarrow> q \<in> set (bufs cs) \<Longrightarrow> \<exists>m. w_msgs w q = Some m \<and> length (msg_data m) = data_len cb"
  unfolding session_up_def channel_ready_def buffers_ok_def by blast

lemma session_up_ctxs:
  assumes "session_up S bs cb cs w" "k < 4"
  shows "send_buf (cs ! k) = send_buf (ses_ctxs S ! k)" "recv_buf (cs ! k) = recv_buf (ses_ctxs S ! k)" "length (ses_ctxs S) = 4"
proof -
  have len: "length (bufs xs) = 2 * length xs" for xs by (induction xs) (simp_all add: bufs_def)
  have b: "bufs cs = bufs (ses_ctxs S)" "length cs = 4" using session_upD[OF assms(1)] by simp_all
  then show l: "length (ses_ctxs S) = 4" using len[of cs] len[of "ses_ctxs S"] by simp
  show "send_buf (cs ! k) = send_buf (ses_ctxs S ! k)" "recv_buf (cs ! k) = recv_buf (ses_ctxs S ! k)"
    using same_bufs[OF b(1), of k] b(2) l assms(2) by simp_all
qed

lemma qp_ready_conn: "qp_ready cbp cb w \<Longrightarrow> same_conn cb cb' \<Longrightarrow> qp_ready cbp cb' w"
  by (elim same_connE) (simp add: qp_ready_def qp_init_attr_def)

lemma buffers_ok_conn:
  assumes "buffers_ok cbp cb cs pdv w" "same_conn cb cb'"
  shows "buffers_ok cbp cb' cs pdv (w\<lparr>w_cbs := (w_cbs w)(cbp \<mapsto> cb')\<rparr>)"
  using assms(1) by (rule_tac same_connE[OF assms(2)]) (simp add: buffers_ok_def buf_pre_def data_len_def ctx_wired_def)

lemma session_up_conn:
  assumes "session_up S bs cb cs w" "same_conn cb cb'"
  shows "session_up S bs cb' cs (w\<lparr>w_cbs := (w_cbs w)(ses_cbp S \<mapsto> cb')\<rparr>)"
proof -
  let ?w = "w\<lparr>w_cbs := (w_cbs w)(ses_cbp S \<mapsto> cb')\<rparr>"
  have "buffers_ok (ses_cbp S) cb' cs (ses_pd S) ?w" "qp_ready (ses_cbp S) cb' ?w"
    using assms buffers_ok_conn[of "ses_cbp S" cb cs "ses_pd S" w cb'] qp_ready_conn[of "ses_cbp S" cb w cb']
      qp_ready_frame[of "ses_cbp S" cb' w ?w]
    by (simp_all add: session_up_def channel_ready_def)
  moreover have "same_conn (ses_cb S) cb'" using assms same_conn_trans by (auto simp: session_up_def)
  moreover have "cb_msgbuf_cnt cb' = cb_msgbuf_cnt cb" "cb_rpc_msg_handler_cb cb' = cb_rpc_msg_handler_cb cb" "cb_qp cb' = cb_qp cb"
    "cb_server cb' = cb_server cb" "cb_cm_id cb' = cb_cm_id cb"
    using assms(2) by (auto elim: same_connE)
  ultimately show ?thesis
    using assms(1) by (simp add: session_up_def rpc_ready_def channel_ready_def channel_ok_def)
qed

lemma session_up_trace [simp]: "session_up S bs cb cs (w\<lparr>w_trace := t\<rparr>) \<longleftrightarrow> session_up S bs cb cs w"
proof -
  have "rpc_ready p ch bs cbp cb cs pdv (w\<lparr>w_trace := t\<rparr>) \<longleftrightarrow> rpc_ready p ch bs cbp cb cs pdv w"
    "channel_ready cbp cb cs pdv (w\<lparr>w_trace := t\<rparr>) \<longleftrightarrow> channel_ready cbp cb cs pdv w" for p ch cbp pdv
    by (simp_all add: rpc_ready_def channel_ok_def channel_ready_def buffers_ok_def buf_pre_def qp_ready_def)
  then show ?thesis by (simp add: session_up_def)
qed

lemma buffers_ok_fills: "buffers_ok cbp cb cs pdv w \<Longrightarrow> buffers_ok cbp cb cs pdv (w\<lparr>w_msgs := fold dma_fill fills (w_msgs w)\<rparr>)"
  by (simp add: buffers_ok_def buf_pre_def fills_size)

lemma session_up_fills:
  assumes "session_up S bs cb cs w"
  shows "session_up S bs cb cs (w\<lparr>w_msgs := fold dma_fill fills (w_msgs w)\<rparr>)"
  using assms buffers_ok_fills[of "ses_cbp S" cb cs "ses_pd S" w fills]
    qp_ready_frame[of "ses_cbp S" cb w "w\<lparr>w_msgs := fold dma_fill fills (w_msgs w)\<rparr>"]
  by (simp add: session_up_def rpc_ready_def channel_ok_def channel_ready_def)

lemma session_up_bitmap:
  assumes "session_up S bs cb cs w" "wf_bitmap bs'"
  shows "session_up S bs' cb cs (with_bitmap (ses_ch S) bs' w)"
  using assms buffers_ok_bytes[of "ses_cbp S" cb cs "ses_pd S" w]
    qp_ready_frame[of "ses_cbp S" cb w "with_bitmap (ses_ch S) bs' w"]
  by (simp add: session_up_def rpc_ready_def channel_ok_def channel_ready_def)

lemma given_back_up: "session_up S bs cb cs w \<Longrightarrow> i \<in> slots \<Longrightarrow> given_back (ses_rpc S) i w \<longleftrightarrow> i \<notin> used bs"
  using session_upD(2-4)[of S bs cb cs w] by (auto simp: given_back_def used_def slots_def wf_bitmap_def)

lemma outstanding_frame:
  "outstanding api S out w \<Longrightarrow> w_waitqs w' = w_waitqs w \<Longrightarrow>
   (\<And>i. i \<in> dom out \<Longrightarrow> w_msgs w' (send_buf (ses_ctxs S ! unat i)) = w_msgs w (send_buf (ses_ctxs S ! unat i))) \<Longrightarrow> outstanding api S out w'"
  unfolding outstanding_def by (metis domI)

lemma outstandingD:
  "outstanding api S out w \<Longrightarrow> out i = Some sem \<Longrightarrow> w_msgs w (send_buf (ses_ctxs S ! unat i)) = Some q \<Longrightarrow>
   rpc_ch_addr q = htonll api (ses_rpc S) \<and> sem_addr q = htonll api sem \<and> sem \<noteq> 0 \<and> w_waitqs w sem \<noteq> None"
  unfolding outstanding_def by fastforce

section \<open>Completions\<close>

text \<open>A poll of the channel's queue.\<close>

lemma poll_run:
  assumes "session_up S bs cb cs w" "ib_poll_cq_ret api w (cb_cq cb) = (r, wc, fills)"
  shows "bindK (ib_poll_cq api (cb_cq cb)) f w =
     f (r, wc) (w\<lparr>w_msgs := fold dma_fill fills (w_msgs w), w_trace := EvPoll (cb_cq cb) r # w_trace w\<rparr>)"
  using session_upD(9,10)[OF assms(1)] assms(2) by (cases w) (auto simp: ib_poll_cq_def run_simps)

lemma cq_error_run:
  assumes "session_up S bs cb cs w"
  shows "cq_error (ses_cbp S) e w = Inr (e, w\<lparr>w_cbs := (w_cbs w)(ses_cbp S \<mapsto> cb\<lparr>cb_state := ERROR\<rparr>),
     w_trace := EvWake (ses_cbp S) # w_trace w\<rparr>)"
  using session_upD(5,6)[OF assms] by (simp add: cq_error_def wake_up_interruptible_cb_def run_simps)

lemma cq_once_run:
  assumes "session_up S bs cb cs w" "ib_poll_cq_ret api w (cb_cq cb) = (r, wc, fills)"
    and w1: "w1 = w\<lparr>w_msgs := fold dma_fill fills (w_msgs w), w_trace := EvPoll (cb_cq cb) r # w_trace w\<rparr>"
  shows "cq_once api callf (ses_cbp S) fl w =
     (if r \<noteq> 1 then
       (if r \<noteq> 0 then bindK (cq_error (ses_cbp S) r) (\<lambda>r. returnK (Inl r)) else returnK (Inl fl))
     else case wc_status wc of
       IB_WC_WR_FLUSH_ERR \<Rightarrow> returnK (Inr 1)
     | IB_WC_OTHER_ERR _ \<Rightarrow> bindK (cq_error (ses_cbp S) (- 1)) (\<lambda>r. returnK (Inl r))
     | IB_WC_SUCCESS \<Rightarrow>
         bindK (handle_wc api callf (ses_cbp S) wc) (\<lambda>e.
         case e of
           Some ret \<Rightarrow> bindK (cq_error (ses_cbp S) ret) (\<lambda>r. returnK (Inl r))
         | None \<Rightarrow> returnK (Inr fl))) w1"
  using session_upD(5,6)[OF assms(1)] unfolding cq_once_def w1
  by (simp add: run_simps poll_run[OF assms(1,2)])

text \<open>
  What an iteration that delivers nothing leaves: the received messages and, after an error, the
  state \<open>ERROR\<close>.
\<close>

definition polled :: "session \<Rightarrow> rdma_ch_cb \<Rightarrow> (addr \<times> rdma_msg) list \<Rightarrow> event list \<Rightarrow> world \<Rightarrow> world" where
  "polled S cb fills t w = w\<lparr>w_msgs := fold dma_fill fills (w_msgs w), w_trace := t, w_cbs := (w_cbs w)(ses_cbp S \<mapsto> cb)\<rparr>"

lemma session_up_polled: "session_up S bs cb cs w \<Longrightarrow> same_conn cb cb' \<Longrightarrow> session_up S bs cb' cs (polled S cb' fills t w)"
  unfolding polled_def by (drule session_up_conn[OF session_up_trace[THEN iffD2, OF session_up_fills]]) auto

lemma cq_error_after:
  assumes "session_up S bs cb cs w" "same_conn cb cb'"
  shows "\<exists>t' cb''. same_conn cb cb'' \<and> cb_state cb'' = ERROR \<and> bindK (cq_error (ses_cbp S) e) (\<lambda>r. returnK (Inl r)) (polled S cb' fills t w)
     = Inr (Inl e, polled S cb'' fills t' w)"
  using cq_error_run[OF session_up_polled[OF assms, of fills t], of e] assms(2)
  by (intro exI[of _ "EvWake (ses_cbp S) # t"] exI[of _ "cb'\<lparr>cb_state := ERROR\<rparr>"])
    (auto simp: bindK_Inr polled_def intro: same_conn_trans)

lemma quiet_once:
  assumes up: "session_up S bs cb cs w" and poll: "ib_poll_cq_ret api w (cb_cq cb) = (r, wc, fills)"
    and quiet: "\<not> delivers cb r wc"
  shows "\<exists>x t cb'. same_conn cb cb' \<and> cq_once api callf (ses_cbp S) fl w = Inr (x, polled S cb' fills t w)"
proof -
  let ?t = "EvPoll (cb_cq cb) r # w_trace w"
  let ?w1 = "w\<lparr>w_msgs := fold dma_fill fills (w_msgs w), w_trace := ?t\<rparr>"
  have P: "ses_cbp S \<noteq> 0" "w_cbs w (ses_cbp S) = Some cb" using session_upD[OF up] by simp_all
  have w1: "?w1 = polled S cb fills ?t w" using P by (cases w) (simp add: polled_def fun_upd_idem)
  note once = cq_once_run[OF up poll refl, unfolded w1, where callf = callf and fl = fl]
  note err = cq_error_after[OF up same_conn_state(1), of _ fills ?t]
  have fin: ?thesis if "cq_once api callf (ses_cbp S) fl w = Inr (x, polled S cb fills ?t w)" for x
    using that same_conn_state(1)[of cb] by blast
  have fail: ?thesis if "cq_once api callf (ses_cbp S) fl w = bindK (cq_error (ses_cbp S) e) (\<lambda>r. returnK (Inl r)) (polled S cb fills ?t w)" for e
    using that err[of e] by auto
  show ?thesis
  proof (cases "r = 1 \<and> wc_status wc = IB_WC_SUCCESS")
    case False
    then show ?thesis
      using once fin[of "Inl fl"] fin[of "Inr 1"] fail[of r] fail[of "- 1"]
      by (cases "wc_status wc") (auto split: if_splits)
  next
    case True
    show ?thesis
    proof (cases "wc_opcode wc")
      case IB_WC_RECV
      then have "receive_msg api callf (ses_cbp S) wc (polled S cb fills ?t w) = Inr (- 1, polled S cb fills ?t w)"
        using P quiet True by (simp add: delivers_def receive_msg_def run_simps polled_def)
      then show ?thesis
        using once True IB_WC_RECV by (intro fail[of "- 1"]) (simp add: handle_wc_def cq_recv_def bindK_Inr bindK_def)
    qed (use once True fin[of "Inr fl"] fail[of "- 1"] in \<open>simp_all add: handle_wc_def\<close>)
  qed
qed

text \<open>The receive posted again after a delivery, and the end of the iteration.\<close>

lemma repost_run:
  assumes up: "session_up S bs cb cs w" and i: "unat i < 4" and d: "receive_msg api callf (ses_cbp S) wc w0 = Inr (0, w)"
    and wc: "wc_opcode wc = IB_WC_RECV" "wc_wr_id wc = i"
  shows "\<exists>x t cb'. same_conn cb cb' \<and> set (w_trace w) \<subseteq> set t \<and> bindK (handle_wc api callf (ses_cbp S) wc) (\<lambda>e.
         case e of
           Some ret \<Rightarrow> bindK (cq_error (ses_cbp S) ret) (\<lambda>r. returnK (Inl r))
         | None \<Rightarrow> returnK (Inr fl)) w0 = Inr (x, w\<lparr>w_cbs := (w_cbs w)(ses_cbp S \<mapsto> cb'), w_trace := t\<rparr>)"
proof -
  have P: "ses_cbp S \<noteq> 0" "w_cbs w (ses_cbp S) = Some cb" "cb_buf_ctxs cb \<noteq> 0" "w_ctxs w (cb_buf_ctxs cb) = Some cs" "length cs = 4"
    using session_upD[OF up] by simp_all
  obtain q where q: "cb_qp cb \<noteq> 0" "w_qps w (cb_qp cb) = Some q" using up by (auto simp: session_up_def rpc_ready_def)
  define r where "r = ib_post_recv_ret api w (cb_qp cb) (rq_wr (cs ! unat i))"
  define t where "t = (if r = 0 then EvPostRecv (cb_qp cb) (rq_wr (cs ! unat i)) # w_trace w else w_trace w)"
  have "cq_recv api callf (ses_cbp S) wc w0 = Inr (r, w\<lparr>w_trace := t\<rparr>)"
    using P q i wc by (simp add: cq_recv_def bindK_Inr[where m = "receive_msg api callf (ses_cbp S) wc", OF d] run_simps ib_post_recv_def whenK_def r_def[symmetric] t_def)
  then have h: "handle_wc api callf (ses_cbp S) wc w0 = Inr (if r \<noteq> 0 then Some r else None, w\<lparr>w_trace := t\<rparr>)"
    using wc by (simp add: handle_wc_def bindK_Inr)
  have sub: "set (w_trace w) \<subseteq> set t" by (auto simp: t_def)
  show ?thesis
  proof (cases "r = 0")
    case True
    then show ?thesis
      using h P sub by (intro exI[of _ "Inr fl"] exI[of _ t] exI[of _ cb]) (simp add: bindK_Inr fun_upd_idem)
  next
    case False
    have "cq_error (ses_cbp S) r (w\<lparr>w_trace := t\<rparr>) = Inr (r, w\<lparr>w_cbs := (w_cbs w)(ses_cbp S \<mapsto> cb\<lparr>cb_state := ERROR\<rparr>),
        w_trace := EvWake (ses_cbp S) # t\<rparr>)"
      using cq_error_run[of S bs cb cs "w\<lparr>w_trace := t\<rparr>" r] up by simp
    then show ?thesis
      using False h sub
      by (intro exI[of _ "Inl r"] exI[of _ "EvWake (ses_cbp S) # t"] exI[of _ "cb\<lparr>cb_state := ERROR\<rparr>"]) (auto simp: bindK_Inr)
  qed
qed

lemma requested_sel [simp]:
  "w_waitqs (requested api p ch bs cb cs i sem src w) = w_waitqs w" "w_rmsgs (requested api p ch bs cb cs i sem src w) = w_rmsgs w"
  "w_mhs (requested api p ch bs cb cs i sem src w) = w_mhs w" "w_rhs (requested api p ch bs cb cs i sem src w) = w_rhs w"
  "w_msgs (requested api p ch bs cb cs i sem src w) =
     (w_msgs w)(send_buf (cs ! unat i) \<mapsto> wire_msg api (ctx_seqn (cs ! unat i) + 1) p sem (take (data_len cb) src))"
  by (simp_all add: requested_def sent_state_def sent_seqn_def)

section \<open>Steps keep the invariant\<close>

lemma channel_invE:
  assumes "channel_inv api S out w"
  obtains bs cb cs where "dom out = used bs" "session_up S bs cb cs w" "outstanding api S out w"
    "alloc_sound api" "be64_involution api" "cb_user_msg_handler_cb cb = Fn_user 0"
  using assms same_conn_sel(8) session_upD(11) by (fastforce simp: channel_inv_def)

lemma channel_invI:
  "channel_inv api S out w \<Longrightarrow> dom out' = used bs \<Longrightarrow> session_up S bs cb cs w' \<Longrightarrow> outstanding api S out' w' \<Longrightarrow>
   channel_inv api S out' w'"
  unfolding channel_inv_def by blast

text \<open>Events that wait are not the session's: what keeps the rest of the world keeps them.\<close>

lemma elsewhere_eqD:
  assumes "elsewhere S w = elsewhere S w'"
  shows "(w_cbs w)(ses_cbp S := None) = (w_cbs w')(ses_cbp S := None)"
    "(w_ctxs w)(cb_buf_ctxs (ses_cb S) := None) = (w_ctxs w')(cb_buf_ctxs (ses_cb S) := None)"
    "del_all (bufs (ses_ctxs S)) (w_msgs w) = del_all (bufs (ses_ctxs S)) (w_msgs w')"
    "(w_bytes w)(msgbuf_bitmap (ses_ch S) := None) = (w_bytes w')(msgbuf_bitmap (ses_ch S) := None)"
    "w_rmsgs w = w_rmsgs w'" "w_rpcs w = w_rpcs w'" "w_mhs w = w_mhs w'" "w_rhs w = w_rhs w'" "w_waitqs w = w_waitqs w'"
    "w_cmids w = w_cmids w'" "w_pds w = w_pds w'" "w_cqs w = w_cqs w'" "w_qps w = w_qps w'" "w_mrs w = w_mrs w'" "w_dmas w = w_dmas w'"
    "w_pending w = w_pending w'"
proof -
  have f: "f (elsewhere S w) = f (elsewhere S w')" for f :: "world \<Rightarrow> 'x" using assms by simp
  show "(w_cbs w)(ses_cbp S := None) = (w_cbs w')(ses_cbp S := None)" using f[of w_cbs] by (simp add: elsewhere_def)
  show "(w_ctxs w)(cb_buf_ctxs (ses_cb S) := None) = (w_ctxs w')(cb_buf_ctxs (ses_cb S) := None)"
    using f[of w_ctxs] by (simp add: elsewhere_def)
  show "del_all (bufs (ses_ctxs S)) (w_msgs w) = del_all (bufs (ses_ctxs S)) (w_msgs w')" using f[of w_msgs] by (simp add: elsewhere_def)
  show "(w_bytes w)(msgbuf_bitmap (ses_ch S) := None) = (w_bytes w')(msgbuf_bitmap (ses_ch S) := None)"
    using f[of w_bytes] by (simp add: elsewhere_def)
  show "w_rmsgs w = w_rmsgs w'" "w_rpcs w = w_rpcs w'" "w_mhs w = w_mhs w'" "w_rhs w = w_rhs w'" "w_waitqs w = w_waitqs w'"
    "w_cmids w = w_cmids w'" "w_pds w = w_pds w'" "w_cqs w = w_cqs w'" "w_qps w = w_qps w'" "w_mrs w = w_mrs w'" "w_dmas w = w_dmas w'"
    "w_pending w = w_pending w'"
    using f[of w_rmsgs] f[of w_rpcs] f[of w_mhs] f[of w_rhs] f[of w_waitqs] f[of w_cmids] f[of w_pds] f[of w_cqs] f[of w_qps]
      f[of w_mrs] f[of w_dmas] f[of w_pending] by (simp_all add: elsewhere_def)
qed

lemma session_invD: "session_inv api S out w \<Longrightarrow> channel_inv api S out w" "session_inv api S out w \<Longrightarrow> w_pending w = []"
  by (simp_all add: session_inv_def)

lemma used_slot: "session_up S bs cb cs w \<Longrightarrow> i \<in> used bs \<Longrightarrow> i \<in> slots \<and> unat i < 4"
  using used_subset[OF session_upD(4)] slot_int by blast

lemma fills_elsewhere: "fst ` set fills \<subseteq> set ks \<Longrightarrow> 0 \<notin> set ks \<Longrightarrow> del_all ks (fold dma_fill fills h) = del_all ks h"
  using fills_other[of _ fills h] by (fastforce simp: del_all_def fun_eq_iff)

lemma recv_bufs_subset: "recv_buf ` set cs \<subseteq> set (bufs cs)"
  by (auto simp: bufs_def)

lemma polled_inv:
  assumes inv: "channel_inv api S out w" and up: "session_up S bs cb cs w" and sc: "same_conn cb cb'"
    and fills: "fst ` set fills \<subseteq> recv_buf ` set cs" and dom: "dom out = used bs"
  shows "channel_inv api S out (polled S cb' fills t w) \<and> elsewhere S (polled S cb' fills t w) = elsewhere S w"
proof -
  have kept: "fold dma_fill fills (w_msgs w) (send_buf (ses_ctxs S ! unat i)) = w_msgs w (send_buf (ses_ctxs S ! unat i))"
    if "i \<in> dom out" for i
  proof -
    have i: "unat i < 4" using used_slot[OF up] that dom by blast
    have "send_buf (cs ! unat i) \<noteq> recv_buf c" if "c \<in> set cs" for c
      using that bufs_distinct(2)[OF session_upD(13)[OF up]] i session_upD(15)[OF up] by (metis in_set_conv_nth)
    then have "send_buf (ses_ctxs S ! unat i) \<notin> fst ` set fills" using fills session_up_ctxs(1)[OF up i] by auto
    then show ?thesis by (rule fills_other)
  qed
  have "outstanding api S out w" using inv by (simp add: channel_inv_def)
  then have "outstanding api S out (polled S cb' fills t w)"
    by (rule outstanding_frame) (simp_all add: polled_def kept)
  then have "channel_inv api S out (polled S cb' fills t w)"
    by (rule channel_invI[OF inv dom session_up_polled[OF up sc]])
  moreover have "fst ` set fills \<subseteq> set (bufs (ses_ctxs S))" "0 \<notin> set (bufs (ses_ctxs S))"
    using fills recv_bufs_subset[of cs] session_upD(12,14)[OF up] by auto
  ultimately show ?thesis by (simp add: elsewhere_def polled_def fills_elsewhere)
qed

lemma request_inv:
  assumes inv: "channel_inv api S out w"
    and look: "w_rpcs w (ses_rpc S) = Some ch" "w_cbs w (ch_cb ch) = Some cb"
    and data: "data \<noteq> 0" "data \<noteq> msgbuf_bitmap ch" "w_bytes w data = Some src" "data_len cb \<le> length src"
    and sem: "sem \<noteq> 0" "w_waitqs w sem \<noteq> None"
  shows "case lowest_free out of
     None \<Rightarrow> w_pending w = [] \<longrightarrow> send_rpc_msg_to_server api intr \<lparr>req_rpc_ch = ses_rpc S, req_data = data, req_sem = sem\<rparr> w = Inl Blocked
   | Some i \<Rightarrow> scast (ucast i :: c_int) = i \<and> (\<exists>w'. send_rpc_msg_to_server api intr \<lparr>req_rpc_ch = ses_rpc S, req_data = data, req_sem = sem\<rparr> w = Inr (ucast i, w')
        \<and> channel_inv api S (out(i \<mapsto> sem)) w' \<and> elsewhere S w' = elsewhere S w)"
  using inv
proof (cases rule: channel_invE)
  case (1 bs cb' cs)
  note up = 1(2) and D = session_upD[OF 1(2)]
  have ch: "ch = ses_ch S" "cb' = cb" using look D by simp_all
  have rdy: "rpc_ready (ses_rpc S) ch bs (ses_cbp S) cb cs (ses_pd S) w" using up ch by (simp add: session_up_def)
  have low: "lowest_free out = clear_slot bs" using lowest_free_eq[OF 1(1) D(4)] .
  show ?thesis
  proof (cases "clear_slot bs")
    case None
    then show ?thesis using blocked_when_full[OF rdy] low by simp
  next
    case (Some i)
    have i: "i \<in> slots" "i \<notin> used bs" using bitmap.find_Some[OF D(4) Some] by simp_all
    note n = slot_int[OF i(1)]
    have k: "unat i < length cs" using n D(15) by simp
    from rdy data Some obtain t w' where run: "send_rpc_msg_to_server api intr \<lparr>req_rpc_ch = ses_rpc S, req_data = data, req_sem = sem\<rparr> w = Inr (ucast i, w')"
      and w': "w' = (requested api (ses_rpc S) ch bs cb cs i sem src w)\<lparr>w_trace := t\<rparr>"
      and r: "rpc_ready (ses_rpc S) ch (set_slot i bs) (ses_cbp S) cb (sent_ctxs cs (unat i) 0) (ses_pd S) w'"
      by (rule request_step)
    have tabs: "w_cqs w' = w_cqs w" "w_qps w' = w_qps w" "w_pds w' = w_pds w" "w_cmids w' = w_cmids w"
      by (simp_all add: w' requested_def sent_state_def)
    have up': "session_up S (set_slot i bs) cb (sent_ctxs cs (unat i) 0) w'"
      using r up ch sent_ctxs_kept[OF k, of 0] by (simp add: session_up_def channel_ready_def qp_ready_def rpc_ready_def tabs)
    have dom: "dom (out(i \<mapsto> sem)) = used (set_slot i bs)" using bitmap.in_use_take[OF D(4) i(1)] 1(1) by simp
    have "outstanding api S (out(i \<mapsto> sem)) w'"
      unfolding outstanding_def
    proof (intro allI impI)
      fix j sm assume j: "(out(i \<mapsto> sem)) j = Some sm"
      have js: "unat j < 4" using j i n used_slot[OF up] 1(1) by (auto split: if_splits)
      note b = session_up_ctxs(1)[OF up js]
      show "sm \<noteq> NULL \<and> w_waitqs w' sm \<noteq> None \<and> (\<exists>q. w_msgs w' (send_buf (ses_ctxs S ! unat j)) = Some q
           \<and> rpc_ch_addr q = htonll api (ses_rpc S) \<and> sem_addr q = htonll api sm)"
      proof (cases "j = i")
        case True
        then show ?thesis using j sem b by (simp add: w' wire_msg_def)
      next
        case False
        then have "send_buf (cs ! unat j) \<noteq> send_buf (cs ! unat i)"
          using bufs_distinct(1)[OF D(13) _ k, of "unat j"] js D(15) by (simp add: word_unat_eq_iff)
        then show ?thesis using j False 1(3) b by (simp add: w' outstanding_def)
      qed
    qed
    then have "channel_inv api S (out(i \<mapsto> sem)) w'" by (rule channel_invI[OF inv dom up'])
    moreover have "send_buf (cs ! unat i) \<in> set (bufs (ses_ctxs S))" "send_buf (cs ! unat i) \<noteq> 0"
      using bufs_mem(1)[OF k] D(12,14) by auto
    then have "elsewhere S w' = elsewhere S w"
      using same_conn_sel(1)[OF D(11)] ch
      by (simp add: elsewhere_def w' requested_def sent_state_def buf_state_def del_all_absorb)
    ultimately show ?thesis using run n low Some by auto
  qed
qed

lemma connection_inv:
  assumes inv: "channel_inv api S out w"
    and look: "cid \<noteq> 0" "w_cmids w cid = Some idr" "id_context idr = ses_cbp S"
  shows "\<exists>ret w'. cma_event_handler api cid ev w = Inr (ret, w') \<and> channel_inv api S out w' \<and> elsewhere S w' = elsewhere S w"
  using inv
proof (cases rule: channel_invE)
  case (1 bs cb cs)
  note D = session_upD[OF 1(2)]
  have "conn_ok cid (ses_cbp S) idr cb w" using look D by (simp add: conn_ok_def)
  moreover obtain st woken ret where "cm_next (cb_server cb = 0) (route_result api cid (ses_cbp S) cb w) (cb_state cb) ev = (st, woken, ret)"
    using prod_cases3 by blast
  ultimately have run: "cma_event_handler api cid ev w = Inr (ret, after_event cid (ses_cbp S) cb ev st woken w)"
    by (rule handler_run)
  have w': "after_event cid (ses_cbp S) cb ev st woken w =
      polled S (cb_after cid ev st cb) [] (trace_after cid (ses_cbp S) ev woken @ w_trace w) w"
    by (cases w) (simp add: after_event_def polled_def)
  show ?thesis using run polled_inv[OF inv 1(2) _ _ 1(1), of "cb_after cid ev st cb" "[]"] unfolding w' by auto
qed

context response_handler
begin

lemma response_once:
  assumes as: "alloc_sound api" and up: "session_up S bs cb cs w" and poll: "ib_poll_cq_ret api w (cb_cq cb) = (r, wc, fills)"
    and del: "delivers cb r wc" and i: "wc_wr_id wc = i" "i \<in> slots"
    and user: "cb_user_msg_handler_cb cb = Fn_user n" "users n = handler"
    and m: "fold dma_fill fills (w_msgs w) (recv_buf (cs ! unat i)) = Some m" "ntohll api (rpc_ch_addr m) = ses_rpc S"
    and sem: "ntohll api (sem_addr m) = sem" "sem \<noteq> NULL" "w_waitqs w sem = Some u"
  shows "\<exists>x t cb'. same_conn cb cb' \<and> (cb_state cb' = ERROR \<and> x = Inl (- 12) \<and> cq_once api (rpc_callf users) (ses_cbp S) fl w = Inr (x, polled S cb' fills t w)
     \<or> EvWake sem \<in> set t \<and> cq_once api (rpc_callf users) (ses_cbp S) fl w
         = Inr (x, with_bitmap (ses_ch S) (free_slot i bs) (polled S cb' fills t w)))"
proof -
  let ?t = "EvPoll (cb_cq cb) r # w_trace w"
  let ?w1 = "polled S cb fills ?t w"
  have P: "ses_cbp S \<noteq> 0" "w_cbs w (ses_cbp S) = Some cb" using session_upD[OF up] by simp_all
  have w1: "w\<lparr>w_msgs := fold dma_fill fills (w_msgs w), w_trace := ?t\<rparr> = ?w1"
    using P by (cases w) (simp add: polled_def fun_upd_idem)
  have wc: "r = 1" "wc_status wc = IB_WC_SUCCESS" "wc_opcode wc = IB_WC_RECV" "wc_byte_len wc = cb_msgbuf_size cb"
    using del by (simp_all add: delivers_def)
  have once: "cq_once api (rpc_callf users) (ses_cbp S) fl w = bindK (handle_wc api (rpc_callf users) (ses_cbp S) wc) (\<lambda>e.
         case e of
           Some ret \<Rightarrow> bindK (cq_error (ses_cbp S) ret) (\<lambda>r. returnK (Inl r))
         | None \<Rightarrow> returnK (Inr fl)) ?w1"
    using cq_once_run[OF up poll refl, unfolded w1, where callf = "rpc_callf users" and fl = fl] wc by simp
  have up1: "session_up S bs cb cs ?w1" by (rule session_up_polled[OF up]) simp
  then have rdy: "rpc_ready (ses_rpc S) (ses_ch S) bs (ses_cbp S) cb cs (ses_pd S) ?w1" by (simp add: session_up_def)
  have m1: "w_msgs ?w1 (recv_buf (cs ! unat i)) = Some m" "w_waitqs ?w1 sem = Some u" using m(1) sem(3) by (simp_all add: polled_def)
  let ?cb = "if cb_state cb \<le> CONNECTED then cb\<lparr>cb_state := WORKING\<rparr> else cb"
  from delivery_run[where users = users and n = n, OF as rdy i(2) user i(1) wc(4) m1(1) m(2) sem(1,2) m1(2)]
  obtain t where d: "receive_msg api (rpc_callf users) (ses_cbp S) wc ?w1 = Inr (- 12, ?w1\<lparr>w_trace := t\<rparr>)
     \<or> receive_msg api (rpc_callf users) (ses_cbp S) wc ?w1 = Inr (0, (with_bitmap (ses_ch S) (free_slot i bs) ?w1)\<lparr>
          w_cbs := (w_cbs ?w1)(ses_cbp S \<mapsto> ?cb), w_trace := EvWake sem # t\<rparr>)" by auto
  show ?thesis
    using d
  proof
    assume nomem: "receive_msg api (rpc_callf users) (ses_cbp S) wc ?w1 = Inr (- 12, ?w1\<lparr>w_trace := t\<rparr>)"
    have "?w1\<lparr>w_trace := t\<rparr> = polled S cb fills t w" by (simp add: polled_def)
    with nomem have "handle_wc api (rpc_callf users) (ses_cbp S) wc ?w1 = Inr (Some (- 12), polled S cb fills t w)"
      using wc(3) by (simp add: handle_wc_def cq_recv_def bindK_Inr bindK_def)
    then show ?thesis using cq_error_after[OF up same_conn_state(1), of "- 12" fills t] unfolding once by (auto simp: bindK_Inr)
  next
    let ?w2 = "with_bitmap (ses_ch S) (free_slot i bs) (polled S ?cb fills (EvWake sem # t) w)"
    assume "receive_msg api (rpc_callf users) (ses_cbp S) wc ?w1 = Inr (0, (with_bitmap (ses_ch S) (free_slot i bs) ?w1)\<lparr>
          w_cbs := (w_cbs ?w1)(ses_cbp S \<mapsto> ?cb), w_trace := EvWake sem # t\<rparr>)"
    moreover have "(with_bitmap (ses_ch S) (free_slot i bs) ?w1)\<lparr>
          w_cbs := (w_cbs ?w1)(ses_cbp S \<mapsto> ?cb), w_trace := EvWake sem # t\<rparr> = ?w2" by (simp add: polled_def)
    ultimately have ok: "receive_msg api (rpc_callf users) (ses_cbp S) wc ?w1 = Inr (0, ?w2)" by simp
    have sc: "same_conn cb ?cb" by simp
    have "session_up S (free_slot i bs) ?cb cs ?w2"
      by (rule session_up_bitmap[OF session_up_polled[OF up sc] wf_free_slot[OF session_upD(4)[OF up]]])
    from repost_run[OF this _ ok wc(3) i(1), of fl] slot_int[OF i(2)]
    obtain x t' cb' where "same_conn ?cb cb'" "set (w_trace ?w2) \<subseteq> set t'" "cq_once api (rpc_callf users) (ses_cbp S) fl w =
        Inr (x, ?w2\<lparr>w_cbs := (w_cbs ?w2)(ses_cbp S \<mapsto> cb'), w_trace := t'\<rparr>)" unfolding once by blast
    then show ?thesis
      using same_conn_trans[OF sc] by (intro exI[of _ x] exI[of _ t'] exI[of _ cb']) (simp add: polled_def)
  qed
qed

lemma response_inv:
  assumes inv: "channel_inv api S out w" and user: "users 0 = handler"
    and look: "w_rpcs w (ses_rpc S) = Some ch" "w_cbs w (ch_cb ch) = Some cb" "w_ctxs w (cb_buf_ctxs cb) = Some cs"
      "w_bytes w (msgbuf_bitmap ch) = Some bs" "i \<in> used bs"
    and poll: "ib_poll_cq_ret api w (cb_cq cb) = (r, wc, fills)" "fst ` set fills \<subseteq> recv_buf ` set cs" "delivers cb r wc" "wc_wr_id wc = i"
    and echo: "w_msgs w (send_buf (cs ! unat i)) = Some q" "fold dma_fill fills (w_msgs w) (recv_buf (cs ! unat i)) = Some m"
      "rpc_ch_addr m = rpc_ch_addr q" "sem_addr m = sem_addr q"
  shows "\<exists>x w' out'. cq_once api (rpc_callf users) (ch_cb ch) fl w = Inr (x, w')
     \<and> requests_spec (Response i (ntohll api (sem_addr m)) (given_back (ses_rpc S) i w')) out = Some out'
     \<and> (if given_back (ses_rpc S) i w' then EvWake (ntohll api (sem_addr m)) \<in> set (w_trace w')
         else x = Inl (- 12) \<and> (\<exists>cb'. w_cbs w' (ch_cb ch) = Some cb' \<and> same_conn cb cb' \<and> cb_state cb' = ERROR))
     \<and> channel_inv api S out' w' \<and> elsewhere S w' = elsewhere S w"
  using inv
proof (cases rule: channel_invE)
  case (1 bs' cb' cs')
  note D = session_upD[OF 1(2)]
  have eqs: "ch = ses_ch S" "cb' = cb" "cs' = cs" "bs' = bs" using look D by simp_all
  note up = 1(2)[unfolded eqs]
  have i: "i \<in> slots" "unat i < 4" using used_slot[OF up look(5)] by simp_all
  from look(5) 1(1) eqs obtain sem where sem: "out i = Some sem" by (auto simp: dom_def)
  from outstandingD[OF 1(3) this, of q] session_up_ctxs(1)[OF up i(2)] echo(1)
  have q: "rpc_ch_addr q = htonll api (ses_rpc S)" "sem_addr q = htonll api sem" "sem \<noteq> 0" "w_waitqs w sem \<noteq> None"
    by simp_all
  have be: "ntohll api (htonll api x) = x" for x using 1(5) by (simp add: ntohll_def htonll_def be64_involution_def)
  obtain u where u: "w_waitqs w sem = Some u" using q(4) by blast
  have hdr: "ntohll api (rpc_ch_addr m) = ses_rpc S" "ntohll api (sem_addr m) = sem" using echo q be by simp_all
  from response_once[where users = users and n = 0 and fl = fl, OF 1(4) up poll(1,3,4) i(1) 1(6)[unfolded eqs(2)] user echo(2) hdr q(3) u]
  obtain x t cb2 where sc: "same_conn cb cb2" and run: "cb_state cb2 = ERROR \<and> x = Inl (- 12) \<and> cq_once api (rpc_callf users) (ses_cbp S) fl w = Inr (x, polled S cb2 fills t w)
     \<or> EvWake sem \<in> set t \<and> cq_once api (rpc_callf users) (ses_cbp S) fl w
         = Inr (x, with_bitmap (ses_ch S) (free_slot i bs) (polled S cb2 fills t w))" by blast
  let ?w1 = "polled S cb2 fills t w"
  let ?w2 = "with_bitmap (ses_ch S) (free_slot i bs) ?w1"
  have dom: "dom out = used bs" using 1(1) eqs by simp
  have p1: "channel_inv api S out ?w1" "elsewhere S ?w1 = elsewhere S w" using polled_inv[OF inv up sc poll(2) dom] by simp_all
  have up1: "session_up S bs cb2 cs ?w1" by (rule session_up_polled[OF up sc])
  have wf: "wf_bitmap bs" using session_upD(4)[OF up] .
  have up2: "session_up S (free_slot i bs) cb2 cs ?w2" by (rule session_up_bitmap[OF up1 wf_free_slot[OF wf]])
  show ?thesis
    using run
  proof (elim disjE conjE)
    assume r: "cq_once api (rpc_callf users) (ses_cbp S) fl w = Inr (x, ?w1)" and err: "cb_state cb2 = ERROR" "x = Inl (- 12)"
    have "\<not> given_back (ses_rpc S) i ?w1" using given_back_up[OF up1 i(1)] look(5) by simp
    then show ?thesis using r p1 sem hdr eqs(1) err sc by (intro exI[of _ x] exI[of _ ?w1] exI[of _ out]) (simp add: polled_def)
  next
    assume r: "cq_once api (rpc_callf users) (ses_cbp S) fl w = Inr (x, ?w2)" and wake: "EvWake sem \<in> set t"
    have dom2: "dom (out(i := None)) = used (free_slot i bs)" using bitmap.in_use_give[OF wf] dom by simp
    have gb: "given_back (ses_rpc S) i ?w2" using given_back_up[OF up2 i(1)] bitmap.in_use_give[OF wf] by simp
    have "outstanding api S (out(i := None)) ?w2"
      using p1(1) by (auto simp: channel_inv_def outstanding_def)
    then have "channel_inv api S (out(i := None)) ?w2" by (rule channel_invI[OF p1(1) dom2 up2])
    moreover have "elsewhere S ?w2 = elsewhere S w" using p1(2) by (simp add: elsewhere_def polled_def)
    moreover have "EvWake sem \<in> set (w_trace ?w2)" using wake by (simp add: polled_def)
    ultimately show ?thesis using r gb sem hdr eqs(1) by (intro exI[of _ x] exI[of _ ?w2] exI[of _ "out(i := None)"]) simp
  qed
qed

lemma session_step:
  assumes inv: "channel_inv api S out w" and user: "users 0 = handler"
    and step: "rpc_step api intr users (ses_rpc S) a w w'" and pend: "is_request a \<Longrightarrow> w_pending w = []"
  shows "(\<exists>out'. requests_spec a out = Some out' \<and> channel_inv api S out' w') \<and> elsewhere S w' = elsewhere S w"
  using step
proof cases
  case (request ch cb data src sem r)
  from request_inv[OF inv request(2-9), of intr] request(10) pend show ?thesis
    unfolding request(1) by (cases "lowest_free out") auto
next
  case (response ch cb cs bs i r wc fills q m fl x)
  from response_inv[where users = users, OF inv user response(2-14), of fl] response(15) show ?thesis
    unfolding response(1) by (auto simp del: requests_spec.simps)
next
  case (completion ch cb cs r wc fills fl x)
  show ?thesis using inv
  proof (cases rule: channel_invE)
    case (1 bs cb' cs')
    have eqs: "ch = ses_ch S" "cb' = cb" "cs' = cs" using completion session_upD[OF 1(2)] by simp_all
    note up = 1(2)[unfolded eqs]
    from quiet_once[OF up completion(5,7), of "rpc_callf users" fl] completion(8) obtain t cb2
      where "same_conn cb cb2" "w' = polled S cb2 fills t w" unfolding eqs(1) by auto
    then show ?thesis using polled_inv[OF inv up _ completion(6) 1(1)] completion(1) by simp
  qed
next
  case (connection ch cid idr ev)
  from inv have "ch = ses_ch S" using connection by (auto elim!: channel_invE dest: session_upD)
  then show ?thesis using connection_inv[OF inv connection(3,4), of ev] connection by auto
qed

end

section \<open>Whole sessions\<close>

lemma test_channel_step:
  assumes "channel_inv api S out w" and "rpc_step api intr test_users (ses_rpc S) a w w'" and "is_request a \<Longrightarrow> w_pending w = []"
  shows "(\<exists>out'. requests_spec a out = Some out' \<and> channel_inv api S out' w') \<and> elsewhere S w' = elsewhere S w"
  using test_handler.session_step[where users = test_users, OF assms(1) _ assms(2,3)] by (simp add: test_users_def)

lemma test_session_step:
  assumes "session_inv api S out w" and "rpc_step api intr test_users (ses_rpc S) a w w'"
  shows "(\<exists>out'. requests_spec a out = Some out' \<and> session_inv api S out' w') \<and> elsewhere S w' = elsewhere S w"
  using test_channel_step[OF session_invD(1)[OF assms(1)] assms(2) session_invD(2)[OF assms(1)]]
    elsewhere_eqD(16)[of S w' w] session_invD(2)[OF assms(1)] by (auto simp: session_inv_def)

interpretation session_sim: simulation "rpc_step api intr test_users (ses_rpc S)" requests_spec "session_inv api S"
  for api intr S
  by unfold_locales (use test_session_step in blast)

lemma session_elsewhere:
  assumes "session_inv api S out w" and "steps (rpc_step api intr test_users (ses_rpc S)) acts w w'"
  shows "elsewhere S w' = elsewhere S w"
  using session_sim.steps_keep[where f = "elsewhere S", OF _ assms(2,1)] test_session_step by blast

text \<open>A channel that came up, with no request outstanding, starts a session.\<close>

lemma session_start:
  assumes "alloc_sound api" "be64_involution api" "rpc_ready p ch (replicate 4 0) (ch_cb ch) cb cs pdv w"
    and "channel_ready (ch_cb ch) cb cs pdv w" "cb_user_msg_handler_cb cb = Fn_user 0" "w_pending w = []"
  shows "session_inv api \<lparr>ses_rpc = p, ses_ch = ch, ses_cb = cb, ses_ctxs = cs, ses_pd = pdv\<rparr> Map.empty w"
proof -
  let ?S = "\<lparr>ses_rpc = p, ses_ch = ch, ses_cb = cb, ses_ctxs = cs, ses_pd = pdv\<rparr>"
  have "used (replicate 4 0) = {}" by (auto simp: used_def)
  moreover have "session_up ?S (replicate 4 0) cb cs w" using assms by (simp add: session_up_def)
  ultimately show ?thesis using assms by (fastforce simp: session_inv_def channel_inv_def outstanding_def)
qed

subsection \<open>What the specification promises\<close>

lemma outstanding_request:
  "run_spec requests_spec acts Map.empty = Some out \<Longrightarrow> out i = Some sem \<Longrightarrow>
   \<exists>us vs. acts = us @ Request i sem # vs \<and> (\<forall>sm. Request i sm \<notin> set vs \<and> Response i sm True \<notin> set vs)"
proof (induction acts arbitrary: out rule: rev_induct)
  case (snoc a acts)
  then obtain out1 where r: "run_spec requests_spec acts Map.empty = Some out1" "requests_spec a out1 = Some out"
    by (auto simp: run_spec_snoc)
  show ?case
  proof (cases "a = Request i sem")
    case True
    then show ?thesis by (intro exI[of _ acts] exI[of _ "[]"]) simp
  next
    case False
    then have "out1 i = Some sem" "\<And>sm. a \<noteq> Request i sm \<and> a \<noteq> Response i sm True"
      using r(2) snoc.prems(2) by (cases a; auto split: if_splits)+
    moreover from snoc.IH[OF r(1) this(1)] obtain us vs where "acts = us @ Request i sem # vs"
        "\<forall>sm. Request i sm \<notin> set vs \<and> Response i sm True \<notin> set vs" by blast
    ultimately show ?thesis by (intro exI[of _ us] exI[of _ "vs @ [a]"]) auto
  qed
qed simp

fun is_answer :: "rpc_act \<Rightarrow> bool" where
  "is_answer (Response i sem ok) = ok"
| "is_answer _ = False"

lemma lowest_free_Some: "lowest_free out = Some i \<Longrightarrow> out i = None \<and> i \<in> slots"
  by (auto simp: lowest_free_def slots_eq split: if_splits)

lemma requests_counted:
  "run_spec requests_spec acts Map.empty = Some out \<Longrightarrow>
   finite (dom out) \<and> length (filter is_request acts) = length (filter is_answer acts) + card (dom out)"
proof (induction acts arbitrary: out rule: rev_induct)
  case (snoc a acts)
  then obtain out1 where r: "run_spec requests_spec acts Map.empty = Some out1" "requests_spec a out1 = Some out"
    by (auto simp: run_spec_snoc)
  from snoc.IH[OF r(1)] have IH: "finite (dom out1)"
    "length (filter is_request acts) = length (filter is_answer acts) + card (dom out1)" by simp_all
  show ?case
  proof (cases a)
    case (Request i sem)
    then have "dom out = insert i (dom out1)" "i \<notin> dom out1" using r(2) lowest_free_Some[of out1 i] by (auto split: if_splits)
    then show ?thesis using IH Request by simp
  next
    case (Response i sem ok)
    then have "out = (if ok then out1(i := None) else out1)" "i \<in> dom out1" using r(2) by (auto split: if_splits)
    then show ?thesis using IH Response card_Suc_Diff1[of "dom out1" i] by auto
  next
    case Internal
    then show ?thesis using IH r(2) by simp
  qed
qed simp

text \<open>Destroying a channel after a session, with whatever requests are still outstanding.\<close>

lemma session_destroy:
  assumes inv: "session_inv api S out w" and rest: "elsewhere S w = elsewhere S w0"
  obtains w' where "destroy_rpc_client (ses_rpc S) w = Inr ((), w')"
    "w_cbs w' = (w_cbs w0)(ses_cbp S := None)" "w_ctxs w' = (w_ctxs w0)(cb_buf_ctxs (ses_cb S) := None)"
    "w_msgs w' = del_all (bufs (ses_ctxs S)) (w_msgs w0)" "w_bytes w' = (w_bytes w0)(msgbuf_bitmap (ses_ch S) := None)"
    "w_rpcs w' = (w_rpcs w0)(ses_rpc S := None)" "w_dmas w' = del_all (maps (ses_ctxs S)) (w_dmas w0)"
    "w_pds w' = (w_pds w0)(cb_pd (ses_cb S) := None)" "w_cqs w' = (w_cqs w0)(cb_cq (ses_cb S) := None)"
    "w_qps w' = (w_qps w0)(cb_qp (ses_cb S) := None)" "w_cmids w' = (w_cmids w0)(cb_cm_id (ses_cb S) := None)"
    "w_rmsgs w' = w_rmsgs w0" "w_mhs w' = w_mhs w0" "w_rhs w' = w_rhs w0" "w_waitqs w' = w_waitqs w0" "w_mrs w' = w_mrs w0"
  using session_invD(1)[OF inv]
proof (cases rule: channel_invE)
  case (1 bs cb cs)
  note D = session_upD[OF 1(2)]
  have c: "ch_type (ses_ch S) = RPC_CH_RDMA" "channel_ready (ses_cbp S) cb cs (ses_pd S) w" "msgbuf_bitmap (ses_ch S) \<noteq> 0"
    "maps cs = maps (ses_ctxs S)"
    using 1(2) by (simp_all add: session_up_def rpc_ready_def channel_ok_def)
  from D(1,2) c(1,2,3) D(3) obtain w1 where t: "torn_down cb (ses_cbp S) cs w w1" and d: "destroy_rpc_client (ses_rpc S) w =
      Inr ((), w1\<lparr>w_bytes := (w_bytes w)(msgbuf_bitmap (ses_ch S) := None), w_rpcs := (w_rpcs w)(ses_rpc S := None)\<rparr>)"
    by (rule destroy_rpc_run)
  show thesis
    by (rule that[OF d])
      (use t elsewhere_eqD[OF rest] same_conn_sel[OF D(11)] D(12) c(4) in \<open>simp_all add: torn_down_def\<close>)
qed

subsection \<open>What a session can do next\<close>

text \<open>The obligations of a caller, and of the device and the server, in terms of what stays the same in a session.\<close>

definition request_allowed :: "session \<Rightarrow> addr \<Rightarrow> addr \<Rightarrow> world \<Rightarrow> bool" where
  "request_allowed S data sem w \<longleftrightarrow> data \<noteq> NULL \<and> data \<noteq> msgbuf_bitmap (ses_ch S)
     \<and> (\<exists>src. w_bytes w data = Some src \<and> data_len (ses_cb S) \<le> length src) \<and> sem \<noteq> NULL \<and> w_waitqs w sem \<noteq> None"

definition poll_allowed :: "kapi \<Rightarrow> session \<Rightarrow> requests \<Rightarrow> world \<Rightarrow> bool" where
  "poll_allowed api S out w \<longleftrightarrow> (case ib_poll_cq_ret api w (cb_cq (ses_cb S)) of (r, wc, fills) \<Rightarrow>
     fst ` set fills \<subseteq> recv_buf ` set (ses_ctxs S)
     \<and> (delivers (ses_cb S) r wc \<longrightarrow> (let i = wc_wr_id wc in i \<in> dom out \<and> (\<exists>q m. w_msgs w (send_buf (ses_ctxs S ! unat i)) = Some q
          \<and> fold dma_fill fills (w_msgs w) (recv_buf (ses_ctxs S ! unat i)) = Some m
          \<and> rpc_ch_addr m = rpc_ch_addr q \<and> sem_addr m = sem_addr q))))"

lemma request_progress:
  assumes inv: "session_inv api S out w" and ok: "request_allowed S data sem w"
  shows "case lowest_free out of
     None \<Rightarrow> send_rpc_msg_to_server api intr \<lparr>req_rpc_ch = ses_rpc S, req_data = data, req_sem = sem\<rparr> w = Inl Blocked
   | Some i \<Rightarrow> \<exists>w'. send_rpc_msg_to_server api intr \<lparr>req_rpc_ch = ses_rpc S, req_data = data, req_sem = sem\<rparr> w = Inr (ucast i, w')"
  using session_invD(1)[OF inv]
proof (cases rule: channel_invE)
  case (1 bs cb cs)
  note D = session_upD[OF 1(2)]
  obtain src where "w_bytes w data = Some src" "data_len cb \<le> length src"
    using ok same_conn_sel(2)[OF D(11)] by (auto simp: request_allowed_def)
  from request_inv[OF session_invD(1)[OF inv] D(2,6) _ _ this, of sem intr] ok session_invD(2)[OF inv] show ?thesis
    by (auto simp: request_allowed_def split: option.splits)
qed

lemma poll_allowedD:
  assumes up: "session_up S bs cb cs w" "dom out = used bs" and ok: "poll_allowed api S out w"
    and poll: "ib_poll_cq_ret api w (cb_cq cb) = (r, wc, fills)"
  shows "fst ` set fills \<subseteq> recv_buf ` set cs" "delivers cb r wc \<Longrightarrow> wc_wr_id wc \<in> used bs"
    "delivers cb r wc \<Longrightarrow> \<exists>q m. w_msgs w (send_buf (cs ! unat (wc_wr_id wc))) = Some q
       \<and> fold dma_fill fills (w_msgs w) (recv_buf (cs ! unat (wc_wr_id wc))) = Some m
       \<and> rpc_ch_addr m = rpc_ch_addr q \<and> sem_addr m = sem_addr q"
proof -
  note D = session_upD[OF up(1)] and b = session_up_ctxs[OF up(1)]
  have "map recv_buf (ses_ctxs S) = map recv_buf cs"
    using b(2) b(3)[of 0] D(15) by (intro nth_equalityI) simp_all
  then have bufs: "recv_buf ` set (ses_ctxs S) = recv_buf ` set cs" by (metis set_map)
  have eqs: "cb_cq cb = cb_cq (ses_cb S)" "delivers (ses_cb S) r wc = delivers cb r wc"
    using same_conn_sel[OF D(11)] by (simp_all add: delivers_def)
  show "fst ` set fills \<subseteq> recv_buf ` set cs" using ok poll by (simp add: poll_allowed_def eqs(1)[symmetric] bufs)
  show d: "wc_wr_id wc \<in> used bs" if "delivers cb r wc"
    using ok poll that up(2) by (auto simp: poll_allowed_def eqs[symmetric] Let_def)
  show "\<exists>q m. w_msgs w (send_buf (cs ! unat (wc_wr_id wc))) = Some q
       \<and> fold dma_fill fills (w_msgs w) (recv_buf (cs ! unat (wc_wr_id wc))) = Some m
       \<and> rpc_ch_addr m = rpc_ch_addr q \<and> sem_addr m = sem_addr q" if "delivers cb r wc"
  proof -
    have "unat (wc_wr_id wc) < 4" using used_slot[OF up(1) d[OF that]] by simp
    then show ?thesis using ok poll that b(1,2) by (auto simp: poll_allowed_def eqs[symmetric] Let_def)
  qed
qed

text \<open>An allowed completion that is delivered is a response to an outstanding request.\<close>

lemma response_progress:
  assumes inv: "channel_inv api S out w" and ok: "poll_allowed api S out w" and cb: "w_cbs w (ses_cbp S) = Some cb"
    and poll: "ib_poll_cq_ret api w (cb_cq cb) = (r, wc, fills)" and del: "delivers cb r wc"
  obtains x w' sem out' where "cq_once api (rpc_callf test_users) (ses_cbp S) fl w = Inr (x, w')"
    "rpc_step api intr test_users (ses_rpc S) (Response (wc_wr_id wc) sem (given_back (ses_rpc S) (wc_wr_id wc) w')) w w'"
    "wc_wr_id wc \<in> dom out"
    "requests_spec (Response (wc_wr_id wc) sem (given_back (ses_rpc S) (wc_wr_id wc) w')) out = Some out'"
    "if given_back (ses_rpc S) (wc_wr_id wc) w' then EvWake sem \<in> set (w_trace w')
       else x = Inl (- 12) \<and> (\<exists>cb'. w_cbs w' (ses_cbp S) = Some cb' \<and> same_conn cb cb' \<and> cb_state cb' = ERROR)"
    "channel_inv api S out' w'"
  using inv
proof (cases rule: channel_invE)
  case (1 bs cb' cs)
  note D = session_upD[OF 1(2)]
  have eq: "cb' = cb" using D(6) cb by simp
  note up = 1(2)[unfolded eq] and D = D[unfolded eq]
  note a = poll_allowedD[OF up 1(1) ok poll]
  obtain q m where m: "w_msgs w (send_buf (cs ! unat (wc_wr_id wc))) = Some q"
      "fold dma_fill fills (w_msgs w) (recv_buf (cs ! unat (wc_wr_id wc))) = Some m" "rpc_ch_addr m = rpc_ch_addr q" "sem_addr m = sem_addr q"
    using a(3)[OF del] by blast
  have u: "test_users 0 = client_rdma_msg_handler" by (simp add: test_users_def)
  from test_handler.response_inv[where users = test_users and fl = fl, OF inv u D(2,6,8,3) a(2)[OF del] poll a(1) del refl m]
  obtain x w' out' where run: "cq_once api (rpc_callf test_users) (ses_cbp S) fl w = Inr (x, w')"
    and r: "requests_spec (Response (wc_wr_id wc) (ntohll api (sem_addr m)) (given_back (ses_rpc S) (wc_wr_id wc) w')) out = Some out'"
      "if given_back (ses_rpc S) (wc_wr_id wc) w' then EvWake (ntohll api (sem_addr m)) \<in> set (w_trace w')
       else x = Inl (- 12) \<and> (\<exists>cb'. w_cbs w' (ses_cbp S) = Some cb' \<and> same_conn cb cb' \<and> cb_state cb' = ERROR)"
      "channel_inv api S out' w'" by blast
  show thesis
    using that[OF run rpc_step.response[OF D(2,6,8,3) a(2)[OF del] poll a(1) del refl m run] _ r] a(2)[OF del] 1(1) by simp
qed

lemma poll_progress:
  assumes inv: "channel_inv api S out w" and ok: "poll_allowed api S out w"
  shows "\<exists>x w' a. cq_once api (rpc_callf test_users) (ses_cbp S) fl w = Inr (x, w')
     \<and> rpc_step api intr test_users (ses_rpc S) a w w' \<and> \<not> is_request a"
  using inv
proof (cases rule: channel_invE)
  case (1 bs cb cs)
  note D = session_upD[OF 1(2)]
  obtain r wc fills where poll: "ib_poll_cq_ret api w (cb_cq cb) = (r, wc, fills)" by (metis prod_cases3)
  show ?thesis
  proof (cases "delivers cb r wc")
    case False
    with quiet_once[OF 1(2) poll, of "rpc_callf test_users" fl] obtain x w'
      where q: "cq_once api (rpc_callf test_users) (ses_cbp S) fl w = Inr (x, w')" by blast
    from rpc_step.completion[OF D(2,6,8) poll poll_allowedD(1)[OF 1(2,1) ok poll] False q, of intr] q show ?thesis
      by (intro exI[of _ x] exI[of _ w'] exI[of _ Internal]) simp
  next
    case True
    from response_progress[OF inv ok D(6) poll True, of fl intr] obtain x w' sem b where
      "cq_once api (rpc_callf test_users) (ses_cbp S) fl w = Inr (x, w')" "rpc_step api intr test_users (ses_rpc S) (Response (wc_wr_id wc) sem b) w w'" .
    then show ?thesis by (intro exI[of _ x] exI[of _ w'] exI[of _ "Response (wc_wr_id wc) sem b"]) simp
  qed
qed

text \<open>
  A completion interrupt: the polling loop is a session without requests. Such a session can run
  while other events wait.
\<close>

lemma cq_loop_channel:
  assumes device: "\<And>out w'. channel_inv api S out w' \<Longrightarrow> w_pending w' = es \<Longrightarrow> poll_allowed api S out w'"
  shows "channel_inv api S out w \<Longrightarrow> w_pending w = es \<Longrightarrow> case cq_loop n api (rpc_callf test_users) (ses_cbp S) fl w of
     Inl e \<Rightarrow> e = OutOfFuel
   | Inr (r, w') \<Rightarrow> \<exists>acts out'. steps (rpc_step api intr test_users (ses_rpc S)) acts w w' \<and> (\<forall>a\<in>set acts. \<not> is_request a)
       \<and> run_spec requests_spec acts out = Some out' \<and> channel_inv api S out' w' \<and> elsewhere S w' = elsewhere S w"
proof (induction n arbitrary: out w fl)
  case (Suc n)
  note dev = device[OF Suc.prems]
  from poll_progress[OF Suc.prems(1) dev, of fl intr] obtain x w1 a where
    once: "cq_once api (rpc_callf test_users) (ses_cbp S) fl w = Inr (x, w1)"
    and st: "rpc_step api intr test_users (ses_rpc S) a w w1" "\<not> is_request a" by blast
  from test_channel_step[OF Suc.prems(1) st(1)] st(2) obtain out1 where
    one: "requests_spec a out = Some out1" "channel_inv api S out1 w1" "elsewhere S w1 = elsewhere S w" by blast
  show ?case
  proof (cases x)
    case (Inl r)
    then show ?thesis
      using st one by (auto simp: bindK_Inr[where m = "cq_once api (rpc_callf test_users) (ses_cbp S) fl", OF once] steps_Cons_iff intro!: exI[of _ "[a]"])
  next
    case (Inr fl')
    have loop: "cq_loop (Suc n) api (rpc_callf test_users) (ses_cbp S) fl w = cq_loop n api (rpc_callf test_users) (ses_cbp S) fl' w1"
      by (simp add: bindK_Inr[where m = "cq_once api (rpc_callf test_users) (ses_cbp S) fl", OF once] Inr)
    have "w_pending w1 = es" using elsewhere_eqD(16)[OF one(3)] Suc.prems(2) by simp
    from Suc.IH[OF one(2) this, of fl'] st one(1,3) show ?thesis
      unfolding loop by (auto simp: steps_Cons_iff split: sum.splits intro!: exI[of _ "a # _"])
  qed
qed simp

section \<open>A concrete session\<close>

text \<open>A machine whose device sends the request in buffer 0 back as its response.\<close>

definition echo_api :: kapi where
  "echo_api = sample_api\<lparr>ib_poll_cq_ret := \<lambda>w q.
       (case (w_bytes w 0x8100, w_msgs w 32) of
          (Some (b # bs), Some q) \<Rightarrow> if b = 0 then (0, sample_wc, []) else (1, sample_recv_wc, [(16, q)])
        | _ \<Rightarrow> (0, sample_wc, [])),
     kzalloc_ret := \<lambda>w n. let a = 0xA000 + of_nat (16 * length (w_trace w)) in if live w a then NULL else a\<rparr>"

definition echo_world :: world where
  "echo_world = (sample_rpc [0, 0, 0, 0] (zero_msg 8))\<lparr>w_cmids := [0x6000 \<mapsto> \<lparr>id_context = 64, id_qp = 0x5000\<rparr>]\<rparr>"

definition echo_session :: session where
  "echo_session = \<lparr>ses_rpc = 0x8000, ses_ch = \<lparr>ch_type = RPC_CH_RDMA, ch_cb = 64, msgbuf_bitmap = 0x8100, msgbuf_bitmap_lock = False\<rparr>,
     ses_cb = sample_req_cb, ses_ctxs = sample_req_ctxs, ses_pd = \<lparr>pd_device = 0x2000, local_dma_lkey = 7\<rparr>\<rparr>"

lemma echo_inv: "session_inv echo_api echo_session Map.empty echo_world"
proof -
  let ?ch = "\<lparr>ch_type = RPC_CH_RDMA, ch_cb = 64, msgbuf_bitmap = 0x8100, msgbuf_bitmap_lock = False\<rparr>"
  have l: "length (msg_data (zero_msg 8)) = 8" "length [0, 0, 0, 0 :: byte] = 4" by (simp_all add: zero_msg_def)
  have z: "replicate 4 (0 :: byte) = [0, 0, 0, 0]" by (simp add: numeral_eq_Suc)
  have cmid: "cb_cm_id sample_req_cb = 0x6000" "cb_cq sample_req_cb = 0x4000" "cb_server sample_req_cb = 0"
    by (simp_all add: sample_req_cb_def sample_cb_def zero_cb_def)
  have rdy: "rpc_ready 0x8000 ?ch [0, 0, 0, 0] (ch_cb ?ch) sample_req_cb sample_req_ctxs \<lparr>pd_device = 0x2000, local_dma_lkey = 7\<rparr> echo_world"
    using sample_rpc_ready[OF l] buffers_ok_frame[of 64 sample_req_cb sample_req_ctxs "\<lparr>pd_device = 0x2000, local_dma_lkey = 7\<rparr>" "sample_rpc [0, 0, 0, 0] (zero_msg 8)" echo_world]
    by (simp add: rpc_ready_def channel_ok_def echo_world_def)
  moreover have "qp_ready 64 sample_req_cb echo_world"
    by (simp add: qp_ready_def echo_world_def sample_rpc_def sample_req_cb_sel cmid)
  ultimately have "channel_ready (ch_cb ?ch) sample_req_cb sample_req_ctxs \<lparr>pd_device = 0x2000, local_dma_lkey = 7\<rparr> echo_world"
    by (simp add: channel_ready_def rpc_ready_def cmid echo_world_def)
  moreover have "alloc_sound echo_api" "be64_involution echo_api" "w_pending echo_world = []"
    using sample_alloc_sound sample_be64_involution
    by (simp_all add: alloc_sound_def be64_involution_def echo_api_def echo_world_def sample_rpc_def empty_world_def Let_def)
  ultimately show ?thesis
    unfolding echo_session_def using rdy by (intro session_start) (simp_all add: z sample_req_cb_sel)
qed

lemma echo_answered:
  "case send_rpc_msg_to_server echo_api sample_intr \<lparr>req_rpc_ch = 0x8000, req_data = 0x7000, req_sem = 0x9000\<rparr> echo_world of
     Inl e \<Rightarrow> False
   | Inr (r, w1) \<Rightarrow> (case cq_once echo_api (rpc_callf test_users) 64 0 w1 of Inl e \<Rightarrow> False | Inr (x, w2) \<Rightarrow> given_back 0x8000 0 w2)"
  by code_simp

lemma echo_steps:
  "\<exists>w'. steps (rpc_step echo_api sample_intr test_users (ses_rpc echo_session)) [Request 0 0x9000, Response 0 0x9000 True] echo_world w'"
proof -
  let ?ch = "\<lparr>ch_type = RPC_CH_RDMA, ch_cb = 64, msgbuf_bitmap = 0x8100, msgbuf_bitmap_lock = False\<rparr>"
  let ?src = "[1, 2, 3, 4, 5, 6, 7, 8] :: byte list"
  let ?p = "0x8000 :: addr"
  have sel: "ses_rpc echo_session = ?p" "ses_ch echo_session = ?ch" by (simp_all add: echo_session_def)
  have data: "w_rpcs echo_world ?p = Some ?ch" "w_cbs echo_world (ch_cb ?ch) = Some sample_req_cb" "(0x7000 :: addr) \<noteq> 0"
    "0x7000 \<noteq> msgbuf_bitmap ?ch" "w_bytes echo_world 0x7000 = Some ?src" "data_len sample_req_cb \<le> length ?src"
    "(0x9000 :: addr) \<noteq> 0" "w_waitqs echo_world 0x9000 \<noteq> None"
    by (simp_all add: echo_world_def sample_rpc_def sample_req_cb_sel)
  have cs0: "clear_slot [0, 0, 0, 0] = Some 0" "set_slot 0 [0, 0, 0, 0] = [1, 0, 0, 0]" by code_simp+
  from session_invD(1)[OF echo_inv] show ?thesis
  proof (cases rule: channel_invE)
    case (1 bs cb cs)
    note D = session_upD[OF 1(2)]
    have eqs: "bs = [0, 0, 0, 0]" "cb = sample_req_cb" "cs = sample_req_ctxs"
      using D(3,6,8) by (simp_all add: sel echo_world_def sample_rpc_def sample_req_cb_sel)
    have rdy: "rpc_ready ?p ?ch [0, 0, 0, 0] 64 sample_req_cb sample_req_ctxs (ses_pd echo_session) echo_world"
      using 1(2) by (simp add: session_up_def sel eqs)
    from rdy data(3-6) cs0(1) obtain t w1 where run: "send_rpc_msg_to_server echo_api sample_intr \<lparr>req_rpc_ch = ?p, req_data = 0x7000, req_sem = 0x9000\<rparr> echo_world = Inr (ucast (0 :: u64), w1)"
      and w1: "w1 = (requested echo_api ?p ?ch [0, 0, 0, 0] sample_req_cb sample_req_ctxs 0 0x9000 ?src echo_world)\<lparr>w_trace := t\<rparr>"
      by (rule request_step[where api = echo_api and intr = sample_intr and sem = "0x9000"])
    have step: "rpc_step echo_api sample_intr test_users ?p (Request 0 0x9000) echo_world w1"
      using rpc_step.request[OF data run, of test_users] by simp
    have inv1: "session_inv echo_api echo_session [0 \<mapsto> 0x9000] w1"
      using test_session_step[OF echo_inv, of sample_intr "Request 0 0x9000" w1] step by (simp add: sel lowest_free_def)
    let ?cs = "sent_ctxs sample_req_ctxs 0 0"
    have look: "w_rpcs w1 (ses_rpc echo_session) = Some ?ch" "w_cbs w1 (ch_cb ?ch) = Some sample_req_cb"
      "w_ctxs w1 (cb_buf_ctxs sample_req_cb) = Some ?cs" "w_bytes w1 (msgbuf_bitmap ?ch) = Some [1, 0, 0, 0]" "0 \<in> used [1, 0, 0, 0]"
      by (simp_all add: w1 requested_def sent_state_def cs0 sel echo_world_def sample_rpc_def used_def)
    have bufs: "recv_buf (?cs ! unat (0 :: u64)) = 16" "send_buf (?cs ! unat (0 :: u64)) = 32" "16 \<in> recv_buf ` set ?cs"
      by (simp_all add: sent_ctxs_def sample_req_ctxs_def sample_req_ctx_sel)
    let ?q = "wire_msg echo_api 2 ?p 0x9000 ?src"
    have sent: "w_msgs w1 32 = Some ?q"
      by (simp add: w1 sample_req_ctxs_def sample_req_ctx_sel sample_req_ctx_def wr_of_def Let_def sample_req_cb_sel)
    have poll: "ib_poll_cq_ret echo_api w1 (cb_cq sample_req_cb) = (1, sample_recv_wc, [(16, ?q)])"
      "fst ` set [(16, ?q)] \<subseteq> recv_buf ` set ?cs" "delivers sample_req_cb 1 sample_recv_wc" "wc_wr_id sample_recv_wc = 0"
      using look(4) bufs sent by (simp_all add: echo_api_def delivers_def sample_recv_wc_def sample_req_cb_sel)
    have old: "\<exists>m0. w_msgs w1 16 = Some m0 \<and> length (msg_data m0) = 8"
      by (simp add: w1 echo_world_def sample_rpc_def sample_req_ctxs_def sample_req_ctx_sel buf_objs_def bufs_def put_new_def zero_msg_def)
    have echo: "w_msgs w1 (send_buf (?cs ! unat (0 :: u64))) = Some ?q"
      "fold dma_fill [(16, ?q)] (w_msgs w1) (recv_buf (?cs ! unat (0 :: u64))) = Some ?q"
      "rpc_ch_addr ?q = rpc_ch_addr ?q" "sem_addr ?q = sem_addr ?q"
      using old sent unfolding bufs by (auto simp: dma_fill_def wire_msg_def)
    have sem: "ntohll echo_api (sem_addr ?q) = 0x9000"
      by (simp add: wire_msg_def ntohll_def htonll_def echo_api_def sample_api_sel bswap64_twice)
    have u: "test_users 0 = client_rdma_msg_handler" by (simp add: test_users_def)
    from test_handler.response_inv[where users = test_users and fl = 0, OF session_invD(1)[OF inv1] u look poll echo] obtain x w2
      where once: "cq_once echo_api (rpc_callf test_users) (ch_cb ?ch) 0 w1 = Inr (x, w2)" by blast
    then have "given_back ?p 0 w2" using echo_answered run by simp
    with rpc_step.response[OF look poll echo once, of sample_intr] sem step
    show ?thesis by (auto simp: steps_Cons_iff sel)
  qed
qed

lemma echo_device:
  assumes "channel_inv echo_api echo_session out w"
  shows "poll_allowed echo_api echo_session out w"
  using assms
proof (cases rule: channel_invE)
  case (1 bs cb cs)
  note D = session_upD[OF 1(2)]
  have bs: "w_bytes w 0x8100 = Some bs" "length bs = 4" using D(3,4) by (simp_all add: echo_session_def wf_bitmap_def BIT_ARR_SIZE_def)
  have keys: "bufs cs = bufs sample_req_ctxs" using D(12) by (simp add: echo_session_def)
  have at: "recv_buf (sample_req_ctxs ! 0) = 16" "send_buf (sample_req_ctxs ! 0) = 32" "16 \<in> recv_buf ` set sample_req_ctxs"
    by (simp_all add: sample_req_ctxs_def sample_req_ctx_sel)
  have "16 \<in> set (bufs cs)" "32 \<in> set (bufs cs)"
    unfolding keys by (simp_all add: bufs_def sample_req_ctxs_def sample_req_ctx_sel)
  then obtain q m where q: "w_msgs w 32 = Some q" "w_msgs w 16 = Some m" "length (msg_data q) = length (msg_data m)"
    using session_up_sized[OF 1(2)] by (metis (full_types))
  have "0 \<in> dom out" if "hd bs \<noteq> 0" using that bs(2) 1(1) by (cases bs) (simp_all add: used_def)
  then show ?thesis
    using bs q at by (cases bs) (auto simp: poll_allowed_def echo_api_def echo_session_def sample_recv_wc_def delivers_def dma_fill_def Let_def)
qed

section \<open>Properties\<close>





text \<open>
  At most four requests are in flight: in every session from a channel with no request
  outstanding, the requests made are at most four more than the responses delivered.
\<close>

theorem requests_in_flight_bounded:
  assumes "session_inv api S Map.empty w" and "steps (rpc_step api intr test_users (ses_rpc S)) acts w w'"
  shows "length (filter is_request acts) \<le> length (filter is_answer acts) + 4"
proof -
  obtain out where out: "run_spec requests_spec acts Map.empty = Some out" "session_inv api S out w'"
    using session_sim.steps_simulated[OF assms(2,1)] by blast
  from out(2) obtain bs where "dom out = used bs" "wf_bitmap bs" by (auto simp: session_inv_def elim!: channel_invE dest: session_upD)
  then have "card (dom out) \<le> card slots" using used_subset card_mono[of slots] by (simp add: slots_eq)
  then show ?thesis using requests_counted[OF out(1)] by (simp add: slots_eq)
qed

theorem requests_in_flight_bounded_witness:
  "length (filter is_request [Request 0 0x9000, Response 0 0x9000 True]) \<le> length (filter is_answer [Request 0 0x9000, Response 0 0x9000 True]) + 4"
  using echo_steps requests_in_flight_bounded[OF echo_inv] by blast


lemma echo_request_allowed:
  assumes "elsewhere echo_session w' = elsewhere echo_session echo_world"
  shows "request_allowed echo_session 0x7000 0x9000 w'"
proof -
  have "(w_bytes w')(0x8100 := None) = (w_bytes echo_world)(0x8100 := None)" "w_waitqs w' = w_waitqs echo_world"
    using elsewhere_eqD(4,9)[OF assms] by (simp_all add: echo_session_def)
  from fun_cong[OF this(1), of "0x7000"] this(2) show ?thesis
    by (simp add: request_allowed_def echo_session_def echo_world_def sample_rpc_def sample_req_cb_sel)
qed



definition session_start_world :: world where
  "session_start_world = sample_start\<lparr>w_bytes := [0x7000 \<mapsto> [10, 1, 1, 2, 0, 0, 0, 0]], w_waitqs := [0x9000 \<mapsto> ()]\<rparr>"

definition session_opens :: "fault + addr \<times> world \<Rightarrow> bool" where
  "session_opens r = (rpc_up r \<and> (case r of Inl _ \<Rightarrow> False | Inr (p, w) \<Rightarrow> w_pending w = [] \<and> w_waitqs w 0x9000 = Some ()
     \<and> w_bytes w 0x7000 = Some [10, 1, 1, 2, 0, 0, 0, 0] \<and> (case w_rpcs w p of None \<Rightarrow> False | Some ch \<Rightarrow> msgbuf_bitmap ch \<noteq> 0x7000
         \<and> (case w_cbs w (ch_cb ch) of None \<Rightarrow> False | Some cb \<Rightarrow> data_len cb = 8))))"

lemma session_opensE:
  assumes "session_opens r"
  obtains p w ch cb where "r = Inr (p, w)" "p \<noteq> 0" "w_rpcs w p = Some ch" "msgbuf_bitmap ch \<noteq> 0" "channel_up (Inr (ch_cb ch, w))"
    "w_pending w = []" "w_waitqs w 0x9000 = Some ()" "w_bytes w 0x7000 = Some [10, 1, 1, 2, 0, 0, 0, 0]" "msgbuf_bitmap ch \<noteq> 0x7000"
    "w_cbs w (ch_cb ch) = Some cb" "data_len cb = 8"
proof (cases r)
  case (Inr x)
  obtain p w where x: "x = (p, w)" by fastforce
  from assms obtain ch where "w_rpcs w p = Some ch" unfolding Inr x session_opens_def by (auto simp: rpc_up_def split: option.splits)
  moreover from assms this obtain cb where "w_cbs w (ch_cb ch) = Some cb"
    unfolding Inr x session_opens_def by (auto split: option.splits)
  ultimately show thesis using assms that[of p w ch cb] unfolding Inr x session_opens_def by (simp add: rpc_up_def)
qed (use assms in \<open>simp add: session_opens_def\<close>)

lemma sample_session_opens:
  "session_opens (init_rpc_client sample_api sample_intr (replicate 16 9) RPC_CH_RDMA 0x7000 7174 8 (Fn_user 0) session_start_world)"
  by code_simp




end
