(* ===== verification/Rpc_Progress.thy ===== *)
theory Rpc_Progress
  imports Rpc_Session
begin

text \<open>
  Requests that have to wait. When every message buffer is in use, \<open>send_rpc_msg_to_server\<close> spins in
  \<open>alloc_msgbuf_id\<close>, and only a completion interrupt can help it: \<open>cq_thread\<close> polls the queue, delivers the
  responses and gives their buffers back. Here the spinning request and the interrupt run together:
  a response that is delivered lets the request go on, a response that is dropped for lack of memory
  shuts the channel's interrupt down.
\<close>

section \<open>The RPC layer's callbacks end\<close>

lemma fuel_safe_free_id [fuel_rules]: "fuel_safe (free_msgbuf_id p i)"
proof -
  have w: "fuel_safe (bit_array_clear_bit q i)" for q
    unfolding bit_array_clear_bit_def bit_array_write_def
    by (auto simp: fuel_safe_def bindK_def load_def modify_at_def put_bit_def polls_def split: sum.splits option.splits if_splits)
  show ?thesis
    unfolding free_msgbuf_id_def spin_lock_def spin_unlock_def by (intro fuel_rules w; simp)
qed

lemma fuel_safe_kfree_rpc_msg [fuel_rules]: "fuel_safe (kfree_rpc_msg p)"
  by (auto simp: fuel_safe_def kfree_rpc_msg_def free_at_def release_def polls_def split: option.splits)

lemma fuel_safe_users: "fuel_safe (test_users n a)"
proof -
  have "fuel_safe (client_rdma_msg_handler a)" "fuel_safe (rpc_shmem_client_handler a)"
    unfolding client_rdma_msg_handler_def rpc_shmem_client_handler_def wake_up_interruptible_sem_def Let_def
    by (intro fuel_rules; simp)+
  then show ?thesis by (simp add: test_users_def)
qed

lemma test_calls_safe: "calls_safe (rpc_callf test_users)"
proof -
  have call: "fuel_safe (case f of Fn_user n \<Rightarrow> test_users n a | _ \<Rightarrow> failK NullDeref)" for f a
    by (cases f) (simp_all add: fuel_safe_users fuel_safe_return)
  have "fuel_safe (client_rpc_rdma_msg_handler test_users a)" for a
    unfolding client_rpc_rdma_msg_handler_def by (intro fuel_rules call; simp)
  then have "fuel_safe (rpc_callf test_users f a)" for f a
    by (cases f) (simp_all add: rpc_callf_def fuel_safe_users fuel_safe_return)
  then show ?thesis by (simp add: calls_safe_def)
qed

section \<open>The interrupt of a channel in use\<close>

lemma channel_inv_frame:
  "channel_inv api S out (w\<lparr>w_pending := es\<rparr>) \<longleftrightarrow> channel_inv api S out w"
  "channel_inv api S out (w\<lparr>w_trace := t\<rparr>) \<longleftrightarrow> channel_inv api S out w"
  by (simp_all add: channel_inv_def outstanding_def session_up_def rpc_ready_def channel_ok_def channel_ready_def
      buffers_ok_def buf_pre_def qp_ready_def)

lemma elsewhere_pending: "elsewhere S (w\<lparr>w_pending := es\<rparr>) = (elsewhere S w)\<lparr>w_pending := es\<rparr>"
  by (cases w) (simp add: elsewhere_def)

lemma channel_inv_up:
  assumes inv: "channel_inv api S out w" and cb: "w_cbs w (ses_cbp S) = Some cb"
  obtains bs cs where "session_up S bs cb cs w" "dom out = used bs"
  using inv
proof (cases rule: channel_invE)
  case (1 bs cb' cs)
  moreover have "cb' = cb" using session_upD(6)[OF 1(2)] cb by simp
  ultimately show thesis using that by blast
qed

lemma cq_thread_run:
  assumes "session_up S bs cb cs w" and w1: "w1 = w\<lparr>w_trace := EvNotify (cb_cq cb) # w_trace w\<rparr>"
  shows "module_intr fuel api callf garbage (CqEvent (cb_cq cb)) w =
     (if cb_state cb = ERROR then Inr ((), w)
      else if garbage \<noteq> 0 then Inr ((), w1)
      else thenK (cq_event_handler fuel api callf (ses_cbp S)) (returnK ()) w1)"
proof -
  have "w_cqs w (cb_cq cb) = Some \<lparr>cq_context = ses_cbp S\<rparr>"
    using assms(1) by (simp add: session_up_def channel_ready_def qp_ready_def)
  then show ?thesis
    using session_upD(5,6,9)[OF assms(1)] by (simp add: module_intr_def cq_thread_def run_simps ib_req_notify_cq_def w1)
qed

text \<open>Without requests the outstanding requests only become fewer.\<close>

lemma responses_shrink: "run_spec requests_spec acts out = Some out' \<Longrightarrow> \<forall>a\<in>set acts. \<not> is_request a \<Longrightarrow> out' \<subseteq>\<^sub>m out"
proof (induction acts arbitrary: out)
  case (Cons a acts)
  have "out1 \<subseteq>\<^sub>m out" if "requests_spec a out = Some out1" for out1
    using that Cons.prems(2) by (cases a) (auto simp: map_le_def split: if_splits)
  then show ?case using Cons by (auto split: option.splits intro: map_le_trans)
qed simp

lemma given_back_iff:
  assumes "channel_inv api S out w" "i \<in> slots"
  shows "given_back (ses_rpc S) i w \<longleftrightarrow> out i = None"
  using assms(1) by (cases rule: channel_invE) (use given_back_up[of S _ _ _ w i] assms(2) in auto)

lemma lowest_free_le:
  assumes "out j = None" "j \<in> slots"
  obtains i where "lowest_free out = Some i" "i \<le> j" "i \<in> slots" "out i = None"
proof -
  have "j \<in> {0, 1, 2, 3}" using assms(2) by (simp add: slots_eq)
  then have "\<exists>i. lowest_free out = Some i \<and> i \<le> j \<and> i \<in> slots \<and> out i = None"
    using assms(1) by (cases "out 0"; cases "out 1"; cases "out 2") (auto simp: lowest_free_def slots_eq)
  then show thesis using that by blast
qed

text \<open>A spinning request continues from the state the first useful interrupt leaves.\<close>

lemma request_after_interrupt:
  assumes full: "channel_ok p ch bs w" "clear_slot bs = None" and ev: "w_pending w = e # es" "intr e w = Inr (u, w1)"
    and free: "channel_ok p ch bs1 w1" "clear_slot bs1 = Some i"
  shows "send_rpc_msg_to_server api intr \<lparr>req_rpc_ch = p, req_data = data, req_sem = sem\<rparr> w =
     send_rpc_msg_to_server api intr \<lparr>req_rpc_ch = p, req_data = data, req_sem = sem\<rparr> (w1\<lparr>w_pending := es\<rparr>)"
proof -
  have ok: "channel_ok p ch bs1 (w1\<lparr>w_pending := es\<rparr>)" using free(1) by (simp add: channel_ok_def)
  have "used bs = slots" using full bitmap.find_None[of bs] by (simp add: channel_ok_def)
  from alloc_spin[where intr = intr, OF full(1) this ev(2), of 0 es]
  have "alloc_loop intr p 0 (e # es) w = Inr (i, with_bitmap ch (set_slot i bs1) w1\<lparr>w_pending := es\<rparr>)"
    using alloc_try_run[OF free(1), of 0] free(2) by (cases es) simp_all
  then have "alloc_msgbuf_id intr p w = Inr (i, with_bitmap ch (set_slot i bs1) w1\<lparr>w_pending := es\<rparr>)"
    by (simp add: alloc_msgbuf_id_def bindK_def ev)
  then have "alloc_msgbuf_id intr p w = alloc_msgbuf_id intr p (w1\<lparr>w_pending := es\<rparr>)"
    using alloc_now[OF ok free(2), of intr] by simp
  then show ?thesis by (simp add: send_rpc_msg_to_server_def bindK_def Let_def)
qed

text \<open>
  An interrupt whose first poll delivers a response: the polling loop ends, and with it at least one
  buffer has been given back.
\<close>

lemma serving_interrupt:
  assumes device: "\<And>out w'. channel_inv api S out w' \<Longrightarrow> w_pending w' = w_pending w \<Longrightarrow> poll_allowed api S out w'"
    and drain: "\<And>w q. K \<le> polls w \<Longrightarrow> fst (ib_poll_cq_ret api w q) \<noteq> 1" "K < fuel"
    and inv: "channel_inv api S out w"
    and cb: "w_cbs w (ses_cbp S) = Some cb" "cb_state cb \<noteq> ERROR"
    and once: "cq_once api (rpc_callf test_users) (ses_cbp S) 0 (w\<lparr>w_trace := EvNotify (cb_cq cb) # w_trace w\<rparr>) = Inr (x, w1)"
      "given_back (ses_rpc S) j w1" "j \<in> slots"
  obtains w2 out2 where "module_intr fuel api (rpc_callf test_users) 0 (CqEvent (cb_cq cb)) w = Inr ((), w2)"
    "channel_inv api S out2 w2" "out2 \<subseteq>\<^sub>m out" "out2 j = None" "elsewhere S w2 = elsewhere S w"
proof -
  let ?w = "w\<lparr>w_trace := EvNotify (cb_cq cb) # w_trace w\<rparr>" and ?callf = "rpc_callf test_users"
  from channel_inv_up[OF inv cb(1)] obtain bs cs where up: "session_up S bs cb cs w" .
  have inv0: "channel_inv api S out ?w" "w_pending ?w = w_pending w" using inv by (simp_all add: channel_inv_frame)
  obtain n where n: "fuel = Suc n" using drain(2) by (cases fuel) simp_all
  from poll_progress[OF inv0(1) device[OF inv0], of 0] once(1) obtain a where
    st: "rpc_step api (\<lambda>_. returnK ()) test_users (ses_rpc S) a ?w w1" "\<not> is_request a" by auto
  from test_channel_step[OF inv0(1) st(1)] st(2) obtain out1 where
    o1: "requests_spec a out = Some out1" "channel_inv api S out1 w1" "elsewhere S w1 = elsewhere S ?w" by blast
  have l1: "out1 \<subseteq>\<^sub>m out" using responses_shrink[of "[a]" out out1] o1(1) st(2) by simp
  have j1: "out1 j = None" using given_back_iff[OF o1(2) once(3)] once(2) by simp
  have p1: "w_pending w1 = w_pending w" using elsewhere_eqD(16)[OF o1(3)] by simp
  have e1: "elsewhere S ?w = elsewhere S w" by (simp add: elsewhere_def)
  have run: "module_intr fuel api ?callf 0 (CqEvent (cb_cq cb)) w = thenK (cq_event_handler fuel api ?callf (ses_cbp S)) (returnK ()) ?w"
    using cq_thread_run[OF up refl, where garbage = 0] cb(2) by simp
  have first: "cq_event_handler fuel api ?callf (ses_cbp S) ?w = (case x of Inl r \<Rightarrow> Inr (r, w1) | Inr fl \<Rightarrow> cq_loop n api ?callf (ses_cbp S) fl w1)"
    by (cases x) (simp_all add: cq_event_handler_def n bindK_Inr[where m = "cq_once api ?callf (ses_cbp S) 0", OF once(1)])
  show thesis
  proof (cases x)
    case (Inl r)
    then show thesis using that[OF _ o1(2) l1 j1] run first o1(3) e1 by (simp add: thenK_Inr)
  next
    case (Inr fl)
    have "cq_event_handler fuel api ?callf (ses_cbp S) ?w \<noteq> Inl OutOfFuel"
      unfolding cq_event_handler_def by (rule cq_loop_fuel[OF test_calls_safe drain(1)]) (use drain(2) in auto)
    then have fuel: "cq_loop n api ?callf (ses_cbp S) fl w1 \<noteq> Inl OutOfFuel" using first Inr by simp
    from cq_loop_channel[where n = n and fl = fl, OF device o1(2) p1] fuel obtain r w2 acts out2 where
      two: "cq_loop n api ?callf (ses_cbp S) fl w1 = Inr (r, w2)" "\<forall>a\<in>set acts. \<not> is_request a"
      "run_spec requests_spec acts out1 = Some out2" "channel_inv api S out2 w2" "elsewhere S w2 = elsewhere S w1"
      by (cases "cq_loop n api ?callf (ses_cbp S) fl w1") (fastforce split: prod.splits)+
    have l2: "out2 \<subseteq>\<^sub>m out1" using responses_shrink[OF two(3,2)] .
    then have "out2 j = None" using j1 by (force simp: map_le_def)
    then show thesis
      using that[OF _ two(4) map_le_trans[OF l2 l1]] run first Inr two(1,5) o1(3) e1 by (simp add: thenK_Inr)
  qed
qed

section \<open>A full channel\<close>

text \<open>
  The channel of the concrete session with a request outstanding in every buffer and an interrupt
  due; the device answers the request in buffer 0, once. In the second machine no memory is left.
\<close>

definition busy_requests :: requests where
  "busy_requests = [0 \<mapsto> 0x9000, 1 \<mapsto> 0x9000, 2 \<mapsto> 0x9000, 3 \<mapsto> 0x9000]"

definition busy_world :: world where
  "busy_world = (with_bitmap (ses_ch echo_session) [1, 1, 1, 1] echo_world)\<lparr>
     w_msgs := (w_msgs echo_world)(32 \<mapsto> sample_reply, 64 \<mapsto> sample_reply, 96 \<mapsto> sample_reply, 128 \<mapsto> sample_reply),
     w_pending := [CqEvent 0x4000]\<rparr>"

definition busy_api :: kapi where
  "busy_api = echo_api\<lparr>ib_poll_cq_ret := \<lambda>w q. if polls w = 0 then ib_poll_cq_ret echo_api w q else (0, sample_wc, [])\<rparr>"

definition no_memory_api :: kapi where
  "no_memory_api = echo_api\<lparr>kzalloc_ret := \<lambda>w n. NULL\<rparr>"

lemma busy_inv: "channel_inv echo_api echo_session busy_requests busy_world"
proof -
  from session_invD(1)[OF echo_inv] obtain bs cb cs where e: "session_up echo_session bs cb cs echo_world" "alloc_sound echo_api"
      "be64_involution echo_api" by (rule channel_invE)
  let ?w = "with_bitmap (ses_ch echo_session) [1, 1, 1, 1] echo_world" and ?r = sample_reply
  let ?fills = "[(32, ?r), (64, ?r), (96, ?r), (128, ?r)]"
  let ?w1 = "?w\<lparr>w_msgs := (w_msgs echo_world)(32 \<mapsto> ?r, 64 \<mapsto> ?r, 96 \<mapsto> ?r, 128 \<mapsto> ?r)\<rparr>"
  have "data_len cb = 8" using same_conn_sel(2)[OF session_upD(11)[OF e(1)]] by (simp add: echo_session_def sample_req_cb_sel)
  moreover have "set (bufs cs) = set (bufs sample_req_ctxs)" using session_upD(12)[OF e(1)] by (simp add: echo_session_def)
  moreover have "{32, 64, 96, 128} \<subseteq> set (bufs sample_req_ctxs)"
    by (simp add: bufs_def sample_req_ctxs_def sample_req_ctx_sel)
  ultimately have "\<exists>m. w_msgs echo_world k = Some m \<and> length (msg_data m) = 8" if "k \<in> {32, 64, 96, 128}" for k
    using session_up_sized[OF e(1), of k] that by auto
  then have sized: "\<exists>m. w_msgs echo_world 32 = Some m \<and> length (msg_data m) = 8" "\<exists>m. w_msgs echo_world 64 = Some m \<and> length (msg_data m) = 8"
    "\<exists>m. w_msgs echo_world 96 = Some m \<and> length (msg_data m) = 8" "\<exists>m. w_msgs echo_world 128 = Some m \<and> length (msg_data m) = 8" by blast+
  have "length (msg_data ?r) = 8" by (simp add: sample_reply_def wire_msg_def)
  with sized have fills: "fold dma_fill ?fills (w_msgs echo_world) = (w_msgs echo_world)(32 \<mapsto> ?r, 64 \<mapsto> ?r, 96 \<mapsto> ?r, 128 \<mapsto> ?r)"
    by (elim exE conjE) (simp add: dma_fill_def)
  have "session_up echo_session [1, 1, 1, 1] cb cs (?w\<lparr>w_msgs := fold dma_fill ?fills (w_msgs ?w)\<rparr>)"
    by (intro session_up_fills session_up_bitmap[OF e(1)]) (simp add: wf_bitmap_def BIT_ARR_SIZE_def)
  then have up: "session_up echo_session [1, 1, 1, 1] cb cs ?w1" using fills by simp
  have dom: "dom busy_requests = used [1, 1, 1, 1]" using used_samples by (auto simp: busy_requests_def slots_eq)
  have send: "send_buf (ses_ctxs echo_session ! unat i) \<in> {32, 64, 96, 128}" if "i \<in> {0, 1, 2, 3 :: u64}" for i
    using that by (auto simp: echo_session_def sample_req_ctxs_def sample_req_ctx_sel)
  have hdr: "rpc_ch_addr ?r = htonll echo_api (ses_rpc echo_session)" "sem_addr ?r = htonll echo_api 0x9000"
    by (simp_all add: sample_reply_def wire_msg_def htonll_def echo_api_def echo_session_def)
  have "w_msgs ?w1 (send_buf (ses_ctxs echo_session ! unat i)) = Some ?r" if "i \<in> {0, 1, 2, 3 :: u64}" for i
    using send[OF that] by auto
  moreover have "w_waitqs ?w1 0x9000 \<noteq> None" by (simp add: echo_world_def sample_rpc_def)
  moreover have "i \<in> {0, 1, 2, 3} \<and> sem = 0x9000" if "busy_requests i = Some sem" for i sem
    using that by (simp add: busy_requests_def split: if_splits)
  ultimately have "outstanding echo_api echo_session busy_requests ?w1"
    unfolding outstanding_def using hdr by (intro allI impI) fastforce
  then have "channel_inv echo_api echo_session busy_requests ?w1"
    using up dom e(2,3) by (auto simp: channel_inv_def echo_session_def sample_req_cb_sel)
  then show ?thesis unfolding busy_world_def by (simp add: channel_inv_frame)
qed

lemma busy_machines:
  "channel_inv busy_api S out w \<longleftrightarrow> channel_inv echo_api S out w"
  "channel_inv echo_api S out w \<Longrightarrow> channel_inv no_memory_api S out w"
  by (simp_all add: channel_inv_def alloc_sound_def be64_involution_def outstanding_def busy_api_def no_memory_api_def htonll_def)

lemma busy_device:
  assumes "channel_inv busy_api echo_session out w"
  shows "poll_allowed busy_api echo_session out w"
  using echo_device[of out w] assms by (simp add: busy_machines(1)) (auto simp: poll_allowed_def busy_api_def delivers_def sample_wc_def)

lemma busy_answered:
  "case cq_once busy_api (rpc_callf test_users) 64 0 (busy_world\<lparr>w_trace := EvNotify 0x4000 # w_trace busy_world\<rparr>) of
     Inl e \<Rightarrow> False | Inr (x, w1) \<Rightarrow> given_back 0x8000 0 w1"
  by code_simp

lemma busy_unanswered:
  "case cq_once no_memory_api (rpc_callf test_users) 64 0 busy_world of Inl e \<Rightarrow> False | Inr (x, w1) \<Rightarrow> \<not> given_back 0x8000 0 w1"
  by code_simp

section \<open>Properties\<close>



text \<open>
  C9. A response that cannot be delivered is lost for good: when the message that answers the
  request in buffer \<open>i\<close> has been polled but the buffer is not given back, memory ran out, the loop ends
  with \<open>-ENOMEM\<close>, the request is still outstanding although its answer is consumed, the channel is in state
  \<open>ERROR\<close>, and from then on a completion interrupt, with any fuel and any uninitialised result, does nothing
  at all: the buffer cannot come back.
\<close>

theorem undelivered_response_is_lost:
  assumes inv: "channel_inv api S out w" and ok: "poll_allowed api S out w"
    and poll: "ib_poll_cq_ret api w (cb_cq (ses_cb S)) = (r, wc, fills)" "delivers (ses_cb S) r wc"
    and run: "cq_once api (rpc_callf test_users) (ch_cb (ses_ch S)) fl w = Inr (x, w')"
      "\<not> given_back (ses_rpc S) (wc_wr_id wc) w'"
  shows "x = Inl (- ENOMEM) \<and> channel_inv api S out w' \<and> wc_wr_id wc \<in> dom out
     \<and> (\<exists>cb. w_cbs w' (ch_cb (ses_ch S)) = Some cb \<and> cb_state cb = ERROR)
     \<and> (\<forall>fuel garbage. module_intr fuel api (rpc_callf test_users) garbage (CqEvent (cb_cq (ses_cb S))) w' = Inr ((), w'))"
proof -
  obtain cb bs cs where up: "session_up S bs cb cs w" using inv by (rule channel_invE)
  note D = session_upD[OF up] and sc = same_conn_sel[OF session_upD(11)[OF up]]
  have poll': "ib_poll_cq_ret api w (cb_cq cb) = (r, wc, fills)" "delivers cb r wc" using poll sc by (simp_all add: delivers_def)
  obtain x' w1 sem out' where res: "cq_once api (rpc_callf test_users) (ses_cbp S) fl w = Inr (x', w1)" "wc_wr_id wc \<in> dom out"
      "requests_spec (Response (wc_wr_id wc) sem (given_back (ses_rpc S) (wc_wr_id wc) w1)) out = Some out'"
      "if given_back (ses_rpc S) (wc_wr_id wc) w1 then EvWake sem \<in> set (w_trace w1)
       else x' = Inl (- 12) \<and> (\<exists>cb'. w_cbs w1 (ses_cbp S) = Some cb' \<and> same_conn cb cb' \<and> cb_state cb' = ERROR)"
      "channel_inv api S out' w1"
    by (rule response_progress[OF inv ok D(6) poll', of fl "\<lambda>_. returnK ()"])
  have eqs: "x' = x" "w1 = w'" using res(1) run(1) by simp_all
  note inv' = res(5)[unfolded eqs]
  have err: "x = Inl (- 12)" "\<exists>cb'. w_cbs w' (ses_cbp S) = Some cb' \<and> same_conn cb cb' \<and> cb_state cb' = ERROR"
    and out: "out' = out" using res(3,4) run(2) by (simp_all add: eqs split: if_splits)
  from err(2) obtain cb' where cb': "w_cbs w' (ses_cbp S) = Some cb'" "same_conn cb cb'" "cb_state cb' = ERROR" by blast
  from channel_inv_up[OF inv' cb'(1)] obtain bs' cs' where up': "session_up S bs' cb' cs' w'" .
  have "module_intr fuel api (rpc_callf test_users) garbage (CqEvent (cb_cq (ses_cb S))) w' = Inr ((), w')" for fuel garbage
    using cq_thread_run[OF up' refl] cb'(3) same_conn_sel(3)[OF cb'(2)] sc(3) by simp
  then show ?thesis using err(1) inv' out res(2) cb' by auto
qed

theorem undelivered_response_is_lost_witness:
  "\<exists>w'. cq_once no_memory_api (rpc_callf test_users) 64 0 busy_world = Inr (Inl (- ENOMEM), w')
     \<and> (\<forall>fuel garbage. module_intr fuel no_memory_api (rpc_callf test_users) garbage (CqEvent 0x4000) w' = Inr ((), w'))"
proof -
  obtain x w' where once: "cq_once no_memory_api (rpc_callf test_users) 64 0 busy_world = Inr (x, w')" "\<not> given_back 0x8000 0 w'"
    using busy_unanswered by (auto split: sum.splits prod.splits)
  have S: "ses_rpc echo_session = 0x8000" "ch_cb (ses_ch echo_session) = 64" "cb_cq (ses_cb echo_session) = 0x4000"
    by (simp_all add: echo_session_def sample_req_cb_def sample_cb_def zero_cb_def)
  have poll: "ib_poll_cq_ret no_memory_api w q = ib_poll_cq_ret echo_api w q" for w q by (simp add: no_memory_api_def)
  have allowed: "poll_allowed no_memory_api echo_session busy_requests busy_world"
    using echo_device[OF busy_inv] by (simp add: poll_allowed_def poll)
  have first: "ib_poll_cq_ret no_memory_api busy_world (cb_cq (ses_cb echo_session)) = (1, sample_recv_wc, [(16, sample_reply)])"
    unfolding poll by (simp add: echo_api_def busy_world_def echo_session_def)
  have del: "delivers (ses_cb echo_session) 1 sample_recv_wc" "wc_wr_id sample_recv_wc = 0"
    by (simp_all add: delivers_def sample_recv_wc_def echo_session_def sample_req_cb_sel)
  from undelivered_response_is_lost[OF busy_machines(2)[OF busy_inv] allowed first del(1), of 0 x w'] once del(2)
  show ?thesis unfolding S by auto
qed

end
