(* ===== verification/Rdma_Sends.thy ===== *)
theory Rdma_Sends
  imports Rpc_Session
begin

text \<open>
  Requests of different threads run \<open>send_rdma_msg\<close> of \<^verbatim>\<open>rdma.c\<close> without a lock: the bitmap gives them different
  message buffers, and that is enough. Here is what two sends do to the state, in either order.
\<close>

section \<open>The effect of a send\<close>

text \<open>Whether or not the request could be posted, a send leaves the same memory.\<close>

lemma send_effect:
  assumes "buffers_ok cbp cb cs pdv w" "cb_qp cb \<noteq> 0" "w_qps w (cb_qp cb) \<noteq> None"
    "0 \<le> sint k" "sint k < sint (cb_msgbuf_cnt cb)" "data \<noteq> 0" "w_bytes w data = Some src" "data_len cb \<le> length src"
  obtains r t where "send_rdma_msg api cbp p data sem k s w = Inr (r, (sent_state api cb cs (nat (sint k)) s p sem src w)\<lparr>w_trace := t\<rparr>)"
proof -
  obtain q where "w_qps w (cb_qp cb) = Some q" using assms(3) by blast
  from send_run[OF assms(1,2) this assms(4-8), of api p sem s] that[of _ "w_trace (sent_state api cb cs (nat (sint k)) s p sem src w)"] that
  show thesis by (auto simp: Let_def split: if_splits)
qed

section \<open>Sends through different buffers\<close>

lemma sent_other:
  assumes "i \<noteq> j" "i < length cs" "j < length cs"
  shows "sent_ctxs cs i s ! j = cs ! j" "sent_seqn (sent_ctxs cs i s) j s' = sent_seqn cs j s'"
    "sent_ctxs (sent_ctxs cs i s) j s' = sent_ctxs (sent_ctxs cs j s') i s"
  using assms by (simp_all add: sent_ctxs_def sent_seqn_def list_update_swap)

lemma sent_states_commute:
  assumes ij: "i \<noteq> j" "i < length cs" "j < length cs" and d: "distinct (bufs cs)"
  shows "(sent_state api cb (sent_ctxs cs i s) j s' p' sem' src' ((sent_state api cb cs i s p sem src w)\<lparr>w_trace := t\<rparr>))\<lparr>w_trace := u\<rparr>
     = (sent_state api cb (sent_ctxs cs j s') i s p sem src ((sent_state api cb cs j s' p' sem' src' w)\<lparr>w_trace := t'\<rparr>))\<lparr>w_trace := u\<rparr>"
proof -
  have "send_buf (cs ! i) \<noteq> send_buf (cs ! j)" using bufs_distinct(1)[OF d ij(2,3)] ij(1) by simp
  then show ?thesis
    using sent_other[OF ij] sent_other(1,2)[OF ij(1)[symmetric] ij(3,2)]
    by (simp add: sent_state_def buf_state_def fun_upd_twist)
qed

section \<open>Properties\<close>

text \<open>
  C14. Sends through different message buffers do not interfere: on a channel that is set up,
  two sends with different ids and live data both return, in either order, and the whole state after
  them, apart from the record of calls, does not depend on the order: the messages, the sequence
  numbers of the contexts and everything else, also when one of them could not be posted.
\<close>

theorem sends_commute:
  assumes ok: "buffers_ok cbp cb cs pdv w" "cb_qp cb \<noteq> NULL" "w_qps w (cb_qp cb) \<noteq> None"
    and k: "k \<noteq> k'" "0 \<le> sint k" "sint k < sint (cb_msgbuf_cnt cb)" "0 \<le> sint k'" "sint k' < sint (cb_msgbuf_cnt cb)"
    and data: "data \<noteq> NULL" "w_bytes w data = Some src" "data_len cb \<le> length src"
    and data': "data' \<noteq> NULL" "w_bytes w data' = Some src'" "data_len cb \<le> length src'"
  shows "\<exists>x w1 y w2. thenK (send_rdma_msg api cbp p data sem k s) (send_rdma_msg api cbp p' data' sem' k' s') w = Inr (x, w1)
     \<and> thenK (send_rdma_msg api cbp p' data' sem' k' s') (send_rdma_msg api cbp p data sem k s) w = Inr (y, w2)
     \<and> w1\<lparr>w_trace := []\<rparr> = w2\<lparr>w_trace := []\<rparr>"
proof -
  let ?i = "nat (sint k)" and ?j = "nat (sint k')"
  have len: "iters (cb_msgbuf_cnt cb) = length cs" "distinct (bufs cs)" using ok(1) by (auto simp: buffers_ok_def buf_pre_def)
  have ij: "?i \<noteq> ?j" "?i < length cs" "?j < length cs"
    using k len(1) by (auto simp: iters_def nat_eq_iff signed_word_eqI)
  have later: "\<exists>y u. send_rdma_msg api cbp p2 d2 m2 k2 s2 ((sent_state api cb cs a s1 p1 m1 src1 w)\<lparr>w_trace := t\<rparr>)
      = Inr (y, (sent_state api cb (sent_ctxs cs a s1) (nat (sint k2)) s2 p2 m2 src2 ((sent_state api cb cs a s1 p1 m1 src1 w)\<lparr>w_trace := t\<rparr>))\<lparr>w_trace := u\<rparr>)"
    if "a < length cs" "data_len cb \<le> length src1" "0 \<le> sint k2" "sint k2 < sint (cb_msgbuf_cnt cb)" "d2 \<noteq> 0"
      "w_bytes w d2 = Some src2" "data_len cb \<le> length src2" for a s1 p1 m1 src1 t p2 d2 m2 k2 s2 src2
  proof -
    let ?w = "(sent_state api cb cs a s1 p1 m1 src1 w)\<lparr>w_trace := t\<rparr>"
    have "buffers_ok cbp cb (sent_ctxs cs a s1) pdv ?w"
      by (rule buffers_ok_frame[OF buffers_ok_sent[OF ok(1) that(1,2), of s1 api p1 m1]]) simp_all
    moreover have "w_qps ?w (cb_qp cb) \<noteq> None" "w_bytes ?w d2 = Some src2" using ok(3) that by (simp_all add: sent_state_def)
    ultimately show ?thesis using send_effect[of cbp cb "sent_ctxs cs a s1" pdv ?w k2 d2 src2 api p2 m2 s2] ok(2) that by blast
  qed
  obtain r t where a: "send_rdma_msg api cbp p data sem k s w = Inr (r, (sent_state api cb cs ?i s p sem src w)\<lparr>w_trace := t\<rparr>)"
    by (rule send_effect[OF ok k(2,3) data])
  obtain r' t' where b: "send_rdma_msg api cbp p' data' sem' k' s' w = Inr (r', (sent_state api cb cs ?j s' p' sem' src' w)\<lparr>w_trace := t'\<rparr>)"
    by (rule send_effect[OF ok k(4,5) data'])
  from later[OF ij(2) data(3) k(4,5) data'] obtain x u where a2: "send_rdma_msg api cbp p' data' sem' k' s' ((sent_state api cb cs ?i s p sem src w)\<lparr>w_trace := t\<rparr>)
      = Inr (x, (sent_state api cb (sent_ctxs cs ?i s) ?j s' p' sem' src' ((sent_state api cb cs ?i s p sem src w)\<lparr>w_trace := t\<rparr>))\<lparr>w_trace := u\<rparr>)" by blast
  from later[OF ij(3) data'(3) k(2,3) data] obtain y u' where b2: "send_rdma_msg api cbp p data sem k s ((sent_state api cb cs ?j s' p' sem' src' w)\<lparr>w_trace := t'\<rparr>)
      = Inr (y, (sent_state api cb (sent_ctxs cs ?j s') ?i s p sem src ((sent_state api cb cs ?j s' p' sem' src' w)\<lparr>w_trace := t'\<rparr>))\<lparr>w_trace := u'\<rparr>)" by blast
  show ?thesis
    using sent_states_commute[OF ij len(2), where u = "[]" and s = s and s' = s']
    by (simp add: thenK_Inr[where m = "send_rdma_msg api cbp p data sem k s", OF a] thenK_Inr[where m = "send_rdma_msg api cbp p' data' sem' k' s'", OF b] a2 b2)
qed

theorem sends_commute_witness:
  "\<exists>x w1 y w2. thenK (send_rdma_msg sample_api 64 0x8000 0x7000 0x9000 1 0) (send_rdma_msg sample_api 64 0x8000 0x7000 0x9000 3 7)
        (sample_rpc [0, 1, 0, 1] (zero_msg 8)) = Inr (x, w1)
     \<and> thenK (send_rdma_msg sample_api 64 0x8000 0x7000 0x9000 3 7) (send_rdma_msg sample_api 64 0x8000 0x7000 0x9000 1 0)
        (sample_rpc [0, 1, 0, 1] (zero_msg 8)) = Inr (y, w2)
     \<and> w1\<lparr>w_trace := []\<rparr> = w2\<lparr>w_trace := []\<rparr>"
proof -
  have l: "length (msg_data (zero_msg 8)) = 8" "length [0, 1, 0, 1 :: byte] = 4" by (simp_all add: zero_msg_def)
  let ?w = "sample_rpc [0, 1, 0, 1] (zero_msg 8)"
  have ok: "buffers_ok 64 sample_req_cb sample_req_ctxs \<lparr>pd_device = 0x2000, local_dma_lkey = 7\<rparr> ?w"
    using sample_rpc_ready[OF l] by (simp add: rpc_ready_def)
  have "cb_qp sample_req_cb \<noteq> 0" "w_qps ?w (cb_qp sample_req_cb) \<noteq> None" "(0x7000 :: addr) \<noteq> 0"
    "w_bytes ?w 0x7000 = Some [1, 2, 3, 4, 5, 6, 7, 8]" "data_len sample_req_cb \<le> length [1, 2, 3, 4, 5, 6, 7, 8 :: byte]"
    by (simp_all add: sample_req_cb_sel sample_rpc_def)
  moreover have "(1 :: c_int) \<noteq> 3" "0 \<le> sint (1 :: c_int)" "sint (1 :: c_int) < sint (cb_msgbuf_cnt sample_req_cb)"
    "0 \<le> sint (3 :: c_int)" "sint (3 :: c_int) < sint (cb_msgbuf_cnt sample_req_cb)"
    by (simp_all add: sample_req_cb_sel)
  ultimately show ?thesis by (intro sends_commute[OF ok]) assumption+
qed

end
