(* ===== verification/Krping_World.thy ===== *)
theory Krping_World
  imports Kern_Sample
begin

unbundle bit_operations_syntax

text \<open>
  The kernel interface of the ping module (\<^verbatim>\<open>bak/krping.c\<close>), as far as it goes beyond what the RPC client calls:
  coherent DMA memory, memory regions and their registration, chains of work requests, the
  capabilities of a device and look-ups. What the calls return is the record \<open>kpapi\<close>, a parameter.
\<close>

section \<open>The interface\<close>

text \<open>What the device wrote since the last poll: an advertisement, or the bytes of a coherent buffer.\<close>

datatype kfill = FillInfo addr krping_rdma_info | FillBytes addr "byte list"

record kpapi =
  htonl :: "u32 \<Rightarrow> u32"
  sizeof_krping_cb :: u64
  recv_buf_offset :: u64
  send_buf_offset :: u64
  page_shift :: nat
  device_cap_flags :: "world \<Rightarrow> addr \<Rightarrow> u64"
  coherent_ret :: "world \<Rightarrow> addr \<Rightarrow> u64 \<Rightarrow> addr \<times> u64 \<times> byte list"
  ib_alloc_mr_ret :: "world \<Rightarrow> addr \<Rightarrow> c_int \<Rightarrow> addr \<times> ib_mr"
  ib_map_mr_sg_ret :: "world \<Rightarrow> addr \<Rightarrow> u64 \<Rightarrow> c_int \<Rightarrow> c_int"
  fast_reg_key :: "u32 \<Rightarrow> byte \<Rightarrow> u32"
  post_wrs_ret :: "world \<Rightarrow> addr \<Rightarrow> posted_wr list \<Rightarrow> c_int"
  poll_ret :: "world \<Rightarrow> addr \<Rightarrow> c_int \<times> ib_wc \<times> kfill list"
  dev_ifindex :: "string \<Rightarrow> u32 option"
  pton4 :: "string \<Rightarrow> byte list option"
  strtoul :: "string \<Rightarrow> u64 \<times> string"

text \<open>
  What the code relies on: coherent memory and memory regions are new when they are handed out, and
  coherent memory has the requested size; conversion to network byte order is its own inverse;
  \<open>ib_update_fast_reg_key\<close> puts the new key into the low byte of the \<open>rkey\<close> and keeps the rest.
\<close>

definition kp_sound :: "kapi \<Rightarrow> kpapi \<Rightarrow> bool" where
  "kp_sound api kp \<longleftrightarrow>
     (\<forall>w d n. let (p, a, bs) = coherent_ret kp w d n in p \<noteq> NULL \<longrightarrow> w_bytes w p = None \<and> length bs = unat n)
     \<and> (\<forall>w pd n. let (p, mr) = ib_alloc_mr_ret kp w pd n in \<not> is_err api p \<longrightarrow> p \<noteq> NULL \<and> w_mrs w p = None)"

definition htonl_involution :: "kpapi \<Rightarrow> bool" where
  "htonl_involution kp \<longleftrightarrow> (\<forall>x. htonl kp (htonl kp x) = x)"

definition key_sound :: "kpapi \<Rightarrow> bool" where
  "key_sound kp \<longleftrightarrow> (\<forall>r k. take_bit 8 (fast_reg_key kp r k) = ucast k \<and> drop_bit 8 (fast_reg_key kp r k) = drop_bit 8 r)"

section \<open>Calls\<close>

abbreviation get_kcb :: "addr \<Rightarrow> (world, krping_cb) kern" where
  "get_kcb \<equiv> load w_kcbs"

abbreviation upd_kcb :: "addr \<Rightarrow> (krping_cb \<Rightarrow> krping_cb) \<Rightarrow> (world, unit) kern" where
  "upd_kcb \<equiv> modify_at w_kcbs w_kcbs_update"

definition wake_up_kcb :: "addr \<Rightarrow> (world, unit) kern" where
  "wake_up_kcb cbp = thenK (get_kcb cbp) (log_ev (EvWake cbp))"

definition kcond :: "addr \<Rightarrow> (test_state \<Rightarrow> bool) \<Rightarrow> world \<Rightarrow> bool" where
  "kcond cbp cond w = (case w_kcbs w cbp of Some cb \<Rightarrow> cond (kc_state cb) | None \<Rightarrow> False)"

definition wait_kcb ::
    "(env_event \<Rightarrow> (world, unit) kern) \<Rightarrow> addr \<Rightarrow> (test_state \<Rightarrow> bool) \<Rightarrow> (world, c_int) kern" where
  "wait_kcb intr cbp cond =
     bindK (get_kcb cbp) (\<lambda>_. bindK (getK w_pending) (\<lambda>es. wait_loop intr cbp (kcond cbp cond) True es))"

definition post_wrs :: "kpapi \<Rightarrow> addr \<Rightarrow> posted_wr list \<Rightarrow> (world, c_int) kern" where
  "post_wrs kp qp wrs =
     thenK (load w_qps qp)
     (bindK (getK (\<lambda>w. post_wrs_ret kp w qp wrs)) (\<lambda>r.
     thenK (whenK (r = 0) (log_ev (EvPostWrs qp wrs))) (returnK r)))"

definition apply_fill :: "kfill \<Rightarrow> world \<Rightarrow> world" where
  "apply_fill f w =
     (case f of
        FillInfo p i \<Rightarrow>
          (case w_kcbs w p of None \<Rightarrow> w | Some cb \<Rightarrow> w\<lparr>w_kcbs := (w_kcbs w)(p \<mapsto> cb\<lparr>kc_recv_buf := i\<rparr>)\<rparr>)
      | FillBytes p bs \<Rightarrow>
          (case w_bytes w p of None \<Rightarrow> w
           | Some b \<Rightarrow> if length bs = length b then w\<lparr>w_bytes := (w_bytes w)(p \<mapsto> bs)\<rparr> else w))"

definition poll_cq :: "kpapi \<Rightarrow> addr \<Rightarrow> (world, c_int \<times> ib_wc) kern" where
  "poll_cq kp cq =
     thenK (load w_cqs cq)
     (bindK (getK (\<lambda>w. poll_ret kp w cq)) (\<lambda>(r, wc, fills).
     thenK (modifyK (fold apply_fill fills))
     (thenK (log_ev (EvPoll cq r)) (returnK (r, wc)))))"

definition dma_alloc_coherent :: "kpapi \<Rightarrow> addr \<Rightarrow> u64 \<Rightarrow> (world, addr \<times> u64) kern" where
  "dma_alloc_coherent kp dev n =
     bindK (getK (\<lambda>w. coherent_ret kp w dev n)) (\<lambda>(p, a, bs).
     thenK (whenK (p \<noteq> NULL) (create_at w_bytes w_bytes_update p bs)) (returnK (p, a)))"

definition dma_free_coherent :: "addr \<Rightarrow> (world, unit) kern" where
  "dma_free_coherent = free_at w_bytes w_bytes_update"

definition ib_alloc_mr :: "kapi \<Rightarrow> kpapi \<Rightarrow> addr \<Rightarrow> c_int \<Rightarrow> (world, addr) kern" where
  "ib_alloc_mr api kp pd n =
     thenK (load w_pds pd)
     (bindK (getK (\<lambda>w. ib_alloc_mr_ret kp w pd n)) (\<lambda>(p, mr).
     thenK (whenK (\<not> is_err api p) (create_at w_mrs w_mrs_update p mr)) (returnK p)))"

definition ib_update_fast_reg_key :: "kpapi \<Rightarrow> addr \<Rightarrow> byte \<Rightarrow> (world, unit) kern" where
  "ib_update_fast_reg_key kp mr key =
     modify_at w_mrs w_mrs_update mr (\<lambda>m. m\<lparr>mr_rkey := fast_reg_key kp (mr_rkey m) key\<rparr>)"

definition rdma_set_service_type :: "addr \<Rightarrow> c_int \<Rightarrow> (world, unit) kern" where
  "rdma_set_service_type cm tos = thenK (load w_cmids cm) (log_ev (EvServiceType cm tos))"

section \<open>Executing the calls\<close>

lemma thenK_wake_up_kcb [run_simps]:
  "cbp \<noteq> 0 \<Longrightarrow> w_kcbs w cbp = Some cb \<Longrightarrow> thenK (wake_up_kcb cbp) m w = m (w\<lparr>w_trace := EvWake cbp # w_trace w\<rparr>)"
  by (simp add: wake_up_kcb_def run_simps)

lemma bindK_post_wrs [run_simps]:
  "qp \<noteq> 0 \<Longrightarrow> w_qps w qp = Some v \<Longrightarrow> bindK (post_wrs kp qp wrs) f w =
     (let r = post_wrs_ret kp w qp wrs in f r (if r = 0 then w\<lparr>w_trace := EvPostWrs qp wrs # w_trace w\<rparr> else w))"
  by (simp add: post_wrs_def run_simps Let_def whenK_def)

lemma bindK_poll_cq [run_simps]:
  "cq \<noteq> 0 \<Longrightarrow> w_cqs w cq = Some c \<Longrightarrow> poll_ret kp w cq = (r, wc, fills) \<Longrightarrow>
   bindK (poll_cq kp cq) f w = f (r, wc) ((fold apply_fill fills w)\<lparr>w_trace := EvPoll cq r # w_trace (fold apply_fill fills w)\<rparr>)"
  by (simp add: poll_cq_def run_simps)

lemma bindK_dma_alloc_coherent [run_simps]:
  "bindK (dma_alloc_coherent kp dev n) f w =
     (case coherent_ret kp w dev n of (p, a, bs) \<Rightarrow>
        f (p, a) (if p = NULL then w else w\<lparr>w_bytes := (w_bytes w)(p \<mapsto> bs)\<rparr>))"
  by (simp add: dma_alloc_coherent_def run_simps whenK_def create_at_def bindK_def split: prod.splits)

lemma bindK_ib_alloc_mr [run_simps]:
  "pd \<noteq> 0 \<Longrightarrow> w_pds w pd = Some v \<Longrightarrow> bindK (ib_alloc_mr api kp pd n) f w =
     (case ib_alloc_mr_ret kp w pd n of (p, mr) \<Rightarrow>
        f p (if is_err api p then w else w\<lparr>w_mrs := (w_mrs w)(p \<mapsto> mr)\<rparr>))"
  by (simp add: ib_alloc_mr_def run_simps whenK_def create_at_def bindK_def split: prod.splits)

lemma bindK_map_single [run_simps]:
  "bindK (ib_dma_map_single api dev buf n) f w =
     (let d = ib_dma_map_single_ret api w dev buf n
      in f d (if d = 0 then w else w\<lparr>w_dmas := (w_dmas w)(d \<mapsto> (buf, n))\<rparr>))"
  by (simp add: ib_dma_map_single_def run_simps whenK_def create_at_def bindK_def Let_def)

lemma kp_coherent: "kp_sound api kp \<Longrightarrow> coherent_ret kp w d n = (p, a, bs) \<Longrightarrow> p \<noteq> 0 \<Longrightarrow> w_bytes w p = None \<and> length bs = unat n"
  unfolding kp_sound_def by (metis (mono_tags, lifting) case_prod_conv)

lemma kp_mr: "kp_sound api kp \<Longrightarrow> ib_alloc_mr_ret kp w pd n = (p, mr) \<Longrightarrow> \<not> is_err api p \<Longrightarrow> p \<noteq> 0 \<and> w_mrs w p = None"
  unfolding kp_sound_def by (metis (mono_tags, lifting) case_prod_conv)

section \<open>A concrete interface\<close>

definition bswap32 :: "u32 \<Rightarrow> u32" where
  "bswap32 x = push_bit 24 (take_bit 8 x) OR push_bit 16 (take_bit 8 (drop_bit 8 x))
     OR push_bit 8 (take_bit 8 (drop_bit 16 x)) OR drop_bit 24 x"

definition sample_kp :: kpapi where
  "sample_kp = \<lparr>
     htonl = bswap32,
     sizeof_krping_cb = 1024,
     recv_buf_offset = 256,
     send_buf_offset = 384,
     page_shift = 12,
     device_cap_flags = (\<lambda>w d. 0x200000),
     coherent_ret = (\<lambda>w d n. let p = (if w_bytes w 0xA000 = None then 0xA000 else 0xB000)
        in if w_bytes w p = None then (p, p + 0x100000, replicate (unat n) 0) else (0, 0, [])),
     ib_alloc_mr_ret = (\<lambda>w pd n. if w_mrs w 0xC000 = None then (0xC000, \<lparr>mr_rkey = 0x1200\<rparr>) else (0xFFFFFFFFFFFFFFF4, \<lparr>mr_rkey = 0\<rparr>)),
     ib_map_mr_sg_ret = (\<lambda>w mr a n. 1),
     fast_reg_key = (\<lambda>r k. push_bit 8 (drop_bit 8 r) OR ucast k),
     post_wrs_ret = (\<lambda>w q wrs. 0),
     poll_ret = (\<lambda>w cq. (0, sample_wc, [])),
     dev_ifindex = (\<lambda>s. None),
     pton4 = (\<lambda>s. Some [10, 0, 0, 1]),
     strtoul = (\<lambda>s. (64, []))\<rparr>"

lemma bit_bswap32:
  "n < 8 \<Longrightarrow> bit (bswap32 x) n = bit x (n + 24)"
  "8 \<le> n \<Longrightarrow> n < 16 \<Longrightarrow> bit (bswap32 x) n = bit x (n + 8)"
  "16 \<le> n \<Longrightarrow> n < 24 \<Longrightarrow> bit (bswap32 x) n = bit x (n - 8)"
  "24 \<le> n \<Longrightarrow> n < 32 \<Longrightarrow> bit (bswap32 x) n = bit x (n - 24)"
proof -
  have top: "\<not> bit x (n + 24)" if "8 \<le> n" using that bit_imp_le_length[of x "n + 24"] by auto
  have d: "n - 8 < 8 \<longleftrightarrow> n < 16" "n - 16 < 8 \<longleftrightarrow> n < 24" "n - 24 < 8 \<longleftrightarrow> n < 32" by linarith+
  show "n < 8 \<Longrightarrow> bit (bswap32 x) n = bit x (n + 24)"
    "8 \<le> n \<Longrightarrow> n < 16 \<Longrightarrow> bit (bswap32 x) n = bit x (n + 8)"
    "16 \<le> n \<Longrightarrow> n < 24 \<Longrightarrow> bit (bswap32 x) n = bit x (n - 8)"
    "24 \<le> n \<Longrightarrow> n < 32 \<Longrightarrow> bit (bswap32 x) n = bit x (n - 24)"
    by (simp_all add: bswap32_def bit_simps add.commute d top)
qed

lemma bswap32_twice: "bswap32 (bswap32 x) = x"
proof (rule bit_word_eqI)
  fix n
  assume "n < LENGTH(32)"
  then consider "n < 8" | "8 \<le> n" "n < 16" | "16 \<le> n" "n < 24" | "24 \<le> n" "n < 32" by fastforce
  then show "bit (bswap32 (bswap32 x)) n = bit x n"
    by cases (simp_all add: bit_bswap32)
qed

lemma sample_kp_sound: "kp_sound sample_api sample_kp"
  by (simp add: kp_sound_def sample_kp_def sample_api_def Let_def)

lemma sample_htonl: "htonl_involution sample_kp"
  by (simp add: htonl_involution_def sample_kp_def bswap32_twice)

lemma sample_key_sound: "key_sound sample_kp"
proof -
  have k: "\<not> bit (k :: byte) n" if "8 \<le> n" for k n using that bit_imp_le_length[of k n] by auto
  have r: "bit (r :: u32) (8 + n) \<Longrightarrow> n < 24" for r n using bit_imp_le_length[of r "8 + n"] by auto
  show ?thesis
    by (auto simp: key_sound_def sample_kp_def bit_simps k r intro!: bit_word_eqI)
qed

end
