(* ===== verification/Krping_Conn.thy ===== *)
theory Krping_Conn
  imports Krping_World
begin

unbundle bit_operations_syntax

text \<open>
  Connection management of the ping module (\<^verbatim>\<open>bak/krping.c\<close>): the event handler of the connection manager and the
  operations that sleep until it reports a transition. Unlike the handler of \<^verbatim>\<open>rdma.c\<close> this one enters the
  error state on every error event, so that a waiting thread always gets to see it.
\<close>

section \<open>The event handler\<close>

abbreviation (input) kset_state :: "addr \<Rightarrow> test_state \<Rightarrow> (world, unit) kern" where
  "kset_state cbp st \<equiv> upd_kcb cbp (\<lambda>cb. cb\<lparr>kc_state := st\<rparr>)"

definition krping_cma_event_handler :: "kapi \<Rightarrow> addr \<Rightarrow> rdma_cm_event_type \<Rightarrow> (world, c_int) kern" where
  "krping_cma_event_handler api cma_id ev =
     bindK (load w_cmids cma_id) (\<lambda>idr. let cbp = id_context idr in
     thenK (case ev of
       RDMA_CM_EVENT_ADDR_RESOLVED \<Rightarrow>
         thenK (kset_state cbp TS_ADDR_RESOLVED)
         (bindK (rdma_resolve_route api cma_id) (\<lambda>ret. if ret \<noteq> 0 then wake_up_kcb cbp else returnK ()))
     | RDMA_CM_EVENT_ROUTE_RESOLVED \<Rightarrow> thenK (kset_state cbp TS_ROUTE_RESOLVED) (wake_up_kcb cbp)
     | RDMA_CM_EVENT_CONNECT_REQUEST \<Rightarrow>
         thenK (kset_state cbp TS_CONNECT_REQUEST)
         (thenK (upd_kcb cbp (\<lambda>cb. cb\<lparr>kc_child_cm_id := cma_id\<rparr>)) (wake_up_kcb cbp))
     | RDMA_CM_EVENT_ESTABLISHED \<Rightarrow>
         bindK (get_kcb cbp) (\<lambda>cb.
         thenK (if kc_server cb = 0 then kset_state cbp TS_CONNECTED else returnK ()) (wake_up_kcb cbp))
     | RDMA_CM_EVENT_ADDR_ERROR \<Rightarrow> thenK (kset_state cbp TS_ERROR) (wake_up_kcb cbp)
     | RDMA_CM_EVENT_ROUTE_ERROR \<Rightarrow> thenK (kset_state cbp TS_ERROR) (wake_up_kcb cbp)
     | RDMA_CM_EVENT_CONNECT_ERROR \<Rightarrow> thenK (kset_state cbp TS_ERROR) (wake_up_kcb cbp)
     | RDMA_CM_EVENT_UNREACHABLE \<Rightarrow> thenK (kset_state cbp TS_ERROR) (wake_up_kcb cbp)
     | RDMA_CM_EVENT_REJECTED \<Rightarrow> thenK (kset_state cbp TS_ERROR) (wake_up_kcb cbp)
     | RDMA_CM_EVENT_DISCONNECTED \<Rightarrow> thenK (kset_state cbp TS_ERROR) (wake_up_kcb cbp)
     | RDMA_CM_EVENT_DEVICE_REMOVAL \<Rightarrow> thenK (kset_state cbp TS_ERROR) (wake_up_kcb cbp)
     | RDMA_CM_EVENT_OTHER _ \<Rightarrow> wake_up_kcb cbp)
     (returnK 0))"

text \<open>The connection manager destroys an id whose handler returned a non-zero value.\<close>

definition kcm_deliver :: "kapi \<Rightarrow> addr \<Rightarrow> rdma_cm_event_type \<Rightarrow> (world, unit) kern" where
  "kcm_deliver api cma_id ev =
     bindK (krping_cma_event_handler api cma_id ev) (\<lambda>ret. if ret \<noteq> 0 then rdma_destroy_id cma_id else returnK ())"

section \<open>Connecting\<close>

definition krping_accept :: "kapi \<Rightarrow> (env_event \<Rightarrow> (world, unit) kern) \<Rightarrow> addr \<Rightarrow> (world, c_int) kern" where
  "krping_accept api intr cbp =
     bindK (get_kcb cbp) (\<lambda>cb.
     bindK (rdma_accept api (kc_child_cm_id cb)) (\<lambda>ret.
     if ret \<noteq> 0 then returnK ret
     else
       thenK (wait_kcb intr cbp (\<lambda>st. TS_CONNECTED \<le> st))
       (bindK (get_kcb cbp) (\<lambda>cb. if kc_state cb = TS_ERROR then returnK (- 1) else returnK 0))))"

definition krping_fill_sockaddr :: "kpapi \<Rightarrow> krping_cb \<Rightarrow> sockaddr" where
  "krping_fill_sockaddr kp cb =
     (if kc_addr_type cb = ucast AF_INET then
        zero_sockaddr\<lparr>sa_family := AF_INET, sa_addr := take 4 (kc_addr cb), sa_port := kc_port cb\<rparr>
      else if kc_addr_type cb = AF_INET6 then
        (let sin6 = zero_sockaddr\<lparr>sa_family := ucast AF_INET6, sa_addr := take 16 (kc_addr cb), sa_port := kc_port cb\<rparr>
         in if kc_ip6_ndev_name cb \<noteq> [] then
              (case dev_ifindex kp (kc_ip6_ndev_name cb) of None \<Rightarrow> sin6 | Some i \<Rightarrow> sin6\<lparr>sa_scope_id := i\<rparr>)
            else sin6)
      else zero_sockaddr)"

definition IB_DEVICE_MEM_MGT_EXTENSIONS :: u64 where
  "IB_DEVICE_MEM_MGT_EXTENSIONS = 0x200000"

definition reg_supported :: "u64 \<Rightarrow> bool" where
  "reg_supported flags \<longleftrightarrow> flags AND IB_DEVICE_MEM_MGT_EXTENSIONS = IB_DEVICE_MEM_MGT_EXTENSIONS"

definition krping_conn_param :: rdma_conn_param where
  "krping_conn_param = \<lparr>responder_resources = 1, initiator_depth = 1, retry_count = 10\<rparr>"

definition krping_connect_client :: "kapi \<Rightarrow> (env_event \<Rightarrow> (world, unit) kern) \<Rightarrow> addr \<Rightarrow> (world, c_int) kern" where
  "krping_connect_client api intr cbp =
     bindK (get_kcb cbp) (\<lambda>cb.
     bindK (rdma_connect api (kc_cm_id cb) krping_conn_param) (\<lambda>ret.
     if ret \<noteq> 0 then returnK ret
     else
       thenK (wait_kcb intr cbp (\<lambda>st. TS_CONNECTED \<le> st))
       (bindK (get_kcb cbp) (\<lambda>cb. if kc_state cb = TS_ERROR then returnK (- 1) else returnK 0))))"

definition krping_bind_client ::
    "kapi \<Rightarrow> kpapi \<Rightarrow> (env_event \<Rightarrow> (world, unit) kern) \<Rightarrow> addr \<Rightarrow> (world, c_int) kern" where
  "krping_bind_client api kp intr cbp =
     bindK (get_kcb cbp) (\<lambda>cb.
     bindK (rdma_resolve_addr api (kc_cm_id cb) (krping_fill_sockaddr kp cb)) (\<lambda>ret.
     if ret \<noteq> 0 then returnK ret
     else
       thenK (wait_kcb intr cbp (\<lambda>st. TS_ROUTE_RESOLVED \<le> st))
       (bindK (get_kcb cbp) (\<lambda>cb.
        if kc_state cb \<noteq> TS_ROUTE_RESOLVED then returnK (- 4)
        else
          thenK (load w_cmids (kc_cm_id cb))
          (bindK (getK (\<lambda>w. device_cap_flags kp w (cm_id_device api w (kc_cm_id cb)))) (\<lambda>flags.
           if \<not> reg_supported flags then returnK (- 22) else returnK 0))))))"

section \<open>Specification of the handler\<close>

text \<open>The new state and whether the waiting thread is woken.\<close>

fun kcm_next :: "bool \<Rightarrow> c_int \<Rightarrow> test_state \<Rightarrow> rdma_cm_event_type \<Rightarrow> test_state \<times> bool" where
  "kcm_next client route st RDMA_CM_EVENT_ADDR_RESOLVED = (TS_ADDR_RESOLVED, route \<noteq> 0)"
| "kcm_next client route st RDMA_CM_EVENT_ROUTE_RESOLVED = (TS_ROUTE_RESOLVED, True)"
| "kcm_next client route st RDMA_CM_EVENT_CONNECT_REQUEST = (TS_CONNECT_REQUEST, True)"
| "kcm_next client route st RDMA_CM_EVENT_ESTABLISHED = ((if client then TS_CONNECTED else st), True)"
| "kcm_next client route st (RDMA_CM_EVENT_OTHER n) = (st, True)"
| "kcm_next client route st ev = (TS_ERROR, True)"

definition kconn_ok :: "addr \<Rightarrow> addr \<Rightarrow> rdma_cm_id \<Rightarrow> krping_cb \<Rightarrow> world \<Rightarrow> bool" where
  "kconn_ok cid cbp idr cb w \<longleftrightarrow>
     cid \<noteq> NULL \<and> cbp \<noteq> NULL \<and> w_cmids w cid = Some idr \<and> id_context idr = cbp \<and> w_kcbs w cbp = Some cb"

definition kroute_result :: "kapi \<Rightarrow> addr \<Rightarrow> addr \<Rightarrow> krping_cb \<Rightarrow> world \<Rightarrow> c_int" where
  "kroute_result api cid cbp cb w =
     rdma_resolve_route_ret api (w\<lparr>w_kcbs := (w_kcbs w)(cbp \<mapsto> cb\<lparr>kc_state := TS_ADDR_RESOLVED\<rparr>)\<rparr>) cid"

definition kcb_after :: "addr \<Rightarrow> rdma_cm_event_type \<Rightarrow> test_state \<Rightarrow> krping_cb \<Rightarrow> krping_cb" where
  "kcb_after cid ev st cb = cb\<lparr>kc_state := st,
     kc_child_cm_id := (if ev = RDMA_CM_EVENT_CONNECT_REQUEST then cid else kc_child_cm_id cb)\<rparr>"

definition kafter ::
    "addr \<Rightarrow> addr \<Rightarrow> krping_cb \<Rightarrow> rdma_cm_event_type \<Rightarrow> test_state \<Rightarrow> bool \<Rightarrow> world \<Rightarrow> world" where
  "kafter cid cbp cb ev st woken w = w\<lparr>w_kcbs := (w_kcbs w)(cbp \<mapsto> kcb_after cid ev st cb),
     w_trace := (if woken then [EvWake cbp] else [])
        @ (if ev = RDMA_CM_EVENT_ADDR_RESOLVED then [EvResolveRoute cid] else []) @ w_trace w\<rparr>"

lemma kafter_sel [simp]:
  "w_kcbs (kafter cid cbp cb ev st woken w) cbp = Some (kcb_after cid ev st cb)"
  "w_cmids (kafter cid cbp cb ev st woken w) = w_cmids w" "w_pending (kafter cid cbp cb ev st woken w) = w_pending w"
  "kc_state (kcb_after cid ev st cb) = st" "kc_server (kcb_after cid ev st cb) = kc_server cb"
  "kc_cm_id (kcb_after cid ev st cb) = kc_cm_id cb"
  by (simp_all add: kafter_def kcb_after_def)

lemma wake_up_kcb_run [run_simps]:
  "cbp \<noteq> 0 \<Longrightarrow> w_kcbs w cbp = Some cb \<Longrightarrow> wake_up_kcb cbp w = Inr ((), w\<lparr>w_trace := EvWake cbp # w_trace w\<rparr>)"
  by (simp add: wake_up_kcb_def run_simps)

lemma khandler_run:
  assumes ok: "kconn_ok cid cbp idr cb w"
    and nxt: "kcm_next (kc_server cb = 0) (kroute_result api cid cbp cb w) (kc_state cb) ev = (st, woken)"
  shows "krping_cma_event_handler api cid ev w = Inr (0, kafter cid cbp cb ev st woken w)"
proof -
  have P: "cid \<noteq> 0" "cbp \<noteq> 0" "w_cmids w cid = Some idr" "id_context idr = cbp" "w_kcbs w cbp = Some cb"
    using ok by (auto simp: kconn_ok_def)
  note run = krping_cma_event_handler_def Let_def rdma_resolve_route_def kafter_def kcb_after_def run_simps
  show ?thesis
  proof (cases ev)
    case RDMA_CM_EVENT_ADDR_RESOLVED
    then show ?thesis using P nxt by (auto simp: run kroute_result_def)
  next
    case RDMA_CM_EVENT_ESTABLISHED
    then show ?thesis using P nxt by (auto simp: run fun_upd_idem)
  qed (use P nxt in \<open>simp_all add: run fun_upd_idem\<close>)
qed

lemma kdeliver_run:
  "kconn_ok cid cbp idr cb w \<Longrightarrow>
   kcm_next (kc_server cb = 0) (kroute_result api cid cbp cb w) (kc_state cb) ev = (st, woken) \<Longrightarrow>
   kcm_deliver api cid ev w = Inr ((), kafter cid cbp cb ev st woken w)"
  by (simp add: kcm_deliver_def bindK_Inr[OF khandler_run])

lemma kconn_ok_after: "kconn_ok cid cbp idr cb w \<Longrightarrow> kconn_ok cid cbp idr (kcb_after cid ev st cb) (kafter cid cbp cb ev st woken w)"
  by (simp add: kconn_ok_def)

section \<open>Waiting\<close>

lemma kcond_pending [simp]: "kcond cbp cond (w\<lparr>w_pending := es\<rparr>) = kcond cbp cond w"
  by (simp add: kcond_def)

lemma kwakes_after: "wakes cbp w < wakes cbp (kafter cid cbp cb ev st woken w) \<longleftrightarrow> woken"
  by (simp add: wakes_def kafter_def)

lemma kwait_step:
  assumes intr: "\<And>cid ev. intr (CmEvent cid ev) = kcm_deliver api cid ev"
    and ok: "kconn_ok cid cbp idr cb w"
    and nxt: "kcm_next (kc_server cb = 0) (kroute_result api cid cbp cb w) (kc_state cb) ev = (st, woken)"
    and sleeps: "awake \<Longrightarrow> \<not> cond (kc_state cb)"
  shows "wait_loop intr cbp (kcond cbp cond) awake (CmEvent cid ev # es) w =
     wait_loop intr cbp (kcond cbp cond) woken es (kafter cid cbp cb ev st woken w)"
proof -
  have "w_kcbs w cbp = Some cb" using ok by (simp add: kconn_ok_def)
  then have "\<not> (awake \<and> kcond cbp cond w)" using sleeps by (auto simp: kcond_def)
  then show ?thesis using kdeliver_run[OF ok nxt] by (auto simp: wait_loop.simps intr kwakes_after)
qed

lemma kwait_ends:
  "kconn_ok cid cbp idr cb w \<Longrightarrow> cond (kc_state cb) \<Longrightarrow>
   wait_loop intr cbp (kcond cbp cond) True es w = Inr (0, w\<lparr>w_pending := es\<rparr>)"
  by (rule wait_loop_now) (simp add: kcond_def kconn_ok_def)

lemma kwait_one:
  assumes intr: "\<And>cid ev. intr (CmEvent cid ev) = kcm_deliver api cid ev"
    and ok: "kconn_ok cid cbp idr cb w"
    and nxt: "kcm_next (kc_server cb = 0) (kroute_result api cid cbp cb w) (kc_state cb) ev = (st, True)"
    and c: "\<not> cond (kc_state cb)" "cond st"
  shows "wait_loop intr cbp (kcond cbp cond) True (CmEvent cid ev # es) w =
     Inr (0, (kafter cid cbp cb ev st True w)\<lparr>w_pending := es\<rparr>)"
  using kwait_step[where intr = intr and cond = cond, OF intr ok nxt] c
    kwait_ends[where cond = cond, OF kconn_ok_after[OF ok]] by simp

text \<open>The two client operations up to the point where they sleep.\<close>

lemma kbind_to_sleep:
  assumes "kconn_ok cid cbp idr cb w" and "kc_cm_id cb = cid" and "\<And>w sa. rdma_resolve_addr_ret api w cid sa = 0"
  shows "krping_bind_client api kp intr cbp w =
     thenK (wait_loop intr cbp (kcond cbp (\<lambda>st. TS_ROUTE_RESOLVED \<le> st)) True (w_pending w))
       (bindK (get_kcb cbp) (\<lambda>cb.
        if kc_state cb \<noteq> TS_ROUTE_RESOLVED then returnK (- 4)
        else
          thenK (load w_cmids (kc_cm_id cb))
          (bindK (getK (\<lambda>w. device_cap_flags kp w (cm_id_device api w (kc_cm_id cb)))) (\<lambda>flags.
           if \<not> reg_supported flags then returnK (- 22) else returnK 0))))
       (w\<lparr>w_trace := EvResolveAddr cid (krping_fill_sockaddr kp cb) # w_trace w\<rparr>)"
  using assms by (simp add: krping_bind_client_def kconn_ok_def rdma_resolve_addr_def wait_kcb_def run_simps)

lemma kconnect_to_sleep:
  assumes "kconn_ok cid cbp idr cb w" and "kc_cm_id cb = cid" and "\<And>w p. rdma_connect_ret api w cid p = 0"
  shows "krping_connect_client api intr cbp w =
     thenK (wait_loop intr cbp (kcond cbp (\<lambda>st. TS_CONNECTED \<le> st)) True (w_pending w))
       (bindK (get_kcb cbp) (\<lambda>cb. if kc_state cb = TS_ERROR then returnK (- 1) else returnK 0))
       (w\<lparr>w_trace := EvConnect cid krping_conn_param # w_trace w\<rparr>)"
  using assms by (simp add: krping_connect_client_def kconn_ok_def rdma_connect_def wait_kcb_def run_simps)

section \<open>Connecting a client\<close>

lemma kbind_run:
  assumes intr: "\<And>cid ev. intr (CmEvent cid ev) = kcm_deliver api cid ev"
    and ok: "kconn_ok cid cbp idr cb w" and id: "kc_cm_id cb = cid"
    and api: "\<And>w sa. rdma_resolve_addr_ret api w cid sa = 0" "\<And>w. rdma_resolve_route_ret api w cid = 0"
      "\<And>w. reg_supported (device_cap_flags kp w (cm_id_device api w cid))"
    and st: "kc_state cb < TS_ROUTE_RESOLVED"
    and evs: "w_pending w = CmEvent cid RDMA_CM_EVENT_ADDR_RESOLVED # CmEvent cid RDMA_CM_EVENT_ROUTE_RESOLVED # es"
  shows "\<exists>t. krping_bind_client api kp intr cbp w = Inr (0, w\<lparr>w_kcbs := (w_kcbs w)(cbp \<mapsto> cb\<lparr>kc_state := TS_ROUTE_RESOLVED\<rparr>),
       w_trace := t, w_pending := es\<rparr>)"
proof -
  let ?A = RDMA_CM_EVENT_ADDR_RESOLVED and ?R = RDMA_CM_EVENT_ROUTE_RESOLVED and ?c = "\<lambda>st. TS_ROUTE_RESOLVED \<le> st"
  let ?w0 = "w\<lparr>w_trace := EvResolveAddr cid (krping_fill_sockaddr kp cb) # w_trace w\<rparr>"
  let ?cb1 = "kcb_after cid ?A TS_ADDR_RESOLVED cb" and ?w1 = "kafter cid cbp cb ?A TS_ADDR_RESOLVED False ?w0"
  let ?w2 = "(kafter cid cbp ?cb1 ?R TS_ROUTE_RESOLVED True ?w1)\<lparr>w_pending := es\<rparr>"
  have ok0: "kconn_ok cid cbp idr cb ?w0" and P: "cbp \<noteq> 0" "cid \<noteq> 0" "w_cmids w cid = Some idr"
    using ok by (simp_all add: kconn_ok_def)
  note ok1 = kconn_ok_after[OF ok0, of ?A TS_ADDR_RESOLVED False]
  have low: "\<not> TS_ROUTE_RESOLVED \<le> kc_state cb" using st by simp
  have "wait_loop intr cbp (kcond cbp ?c) True (w_pending w) ?w0 = Inr (0, ?w2)"
    using kwait_step[where intr = intr and ev = ?A and cond = ?c, OF intr ok0]
      kwait_step[where intr = intr and ev = ?R and cond = ?c, OF intr ok1]
      kwait_ends[where cond = ?c, OF kconn_ok_after[OF ok1, of ?R TS_ROUTE_RESOLVED True]] low
    by (simp add: evs kroute_result_def api)
  then have "krping_bind_client api kp intr cbp w = Inr (0, ?w2)"
    unfolding kbind_to_sleep[OF ok id api(1)] using P by (simp add: thenK_def bindK_def load_def api id)
  then show ?thesis by (auto simp: kafter_def kcb_after_def)
qed

lemma kconnect_run:
  assumes intr: "\<And>cid ev. intr (CmEvent cid ev) = kcm_deliver api cid ev"
    and ok: "kconn_ok cid cbp idr cb w" and id: "kc_cm_id cb = cid"
    and api: "\<And>w p. rdma_connect_ret api w cid p = 0"
    and st: "kc_state cb < TS_CONNECTED" and client: "kc_server cb = 0"
    and evs: "w_pending w = CmEvent cid RDMA_CM_EVENT_ESTABLISHED # es"
  shows "\<exists>t. krping_connect_client api intr cbp w = Inr (0, w\<lparr>w_kcbs := (w_kcbs w)(cbp \<mapsto> cb\<lparr>kc_state := TS_CONNECTED\<rparr>),
       w_trace := t @ w_trace w, w_pending := es\<rparr>)"
proof -
  let ?E = RDMA_CM_EVENT_ESTABLISHED
  let ?w0 = "w\<lparr>w_trace := EvConnect cid krping_conn_param # w_trace w\<rparr>"
  let ?w1 = "(kafter cid cbp cb ?E TS_CONNECTED True ?w0)\<lparr>w_pending := es\<rparr>"
  have ok0: "kconn_ok cid cbp idr cb ?w0" and cbp: "cbp \<noteq> 0" using ok by (simp_all add: kconn_ok_def)
  have "wait_loop intr cbp (kcond cbp (\<lambda>st. TS_CONNECTED \<le> st)) True (w_pending w) ?w0 = Inr (0, ?w1)"
    unfolding evs by (rule kwait_one[where cond = "\<lambda>st. TS_CONNECTED \<le> st", OF intr ok0]) (use client st in simp_all)
  then have "krping_connect_client api intr cbp w = Inr (0, ?w1)"
    unfolding kconnect_to_sleep[OF ok id api] using cbp by (simp add: thenK_def bindK_def load_def)
  then show ?thesis
    by (intro exI[of _ "[EvWake cbp, EvConnect cid krping_conn_param]"]) (simp add: kafter_def kcb_after_def)
qed

text \<open>Events that end a connection attempt.\<close>

definition kcm_error_events :: "rdma_cm_event_type set" where
  "kcm_error_events = {RDMA_CM_EVENT_ADDR_ERROR, RDMA_CM_EVENT_ROUTE_ERROR, RDMA_CM_EVENT_CONNECT_ERROR,
     RDMA_CM_EVENT_UNREACHABLE, RDMA_CM_EVENT_REJECTED, RDMA_CM_EVENT_DISCONNECTED, RDMA_CM_EVENT_DEVICE_REMOVAL}"

lemma kcm_error_next: "ev \<in> kcm_error_events \<Longrightarrow> kcm_next client route st ev = (TS_ERROR, True)"
  by (auto simp: kcm_error_events_def)

section \<open>A concrete connection\<close>

definition ksample_intr :: "env_event \<Rightarrow> (world, unit) kern" where
  "ksample_intr e = (case e of CmEvent c ev \<Rightarrow> kcm_deliver sample_api c ev | _ \<Rightarrow> returnK ())"

definition ksample_conn :: "test_state \<Rightarrow> env_event list \<Rightarrow> world" where
  "ksample_conn st evs = empty_world\<lparr>w_kcbs := [64 \<mapsto> zero_krping_cb\<lparr>kc_state := st, kc_cm_id := 0x6000\<rparr>],
     w_cmids := [0x6000 \<mapsto> \<lparr>id_context = 64, id_qp = NULL\<rparr>], w_pending := evs\<rparr>"

lemma ksample_conn_ok:
  "kconn_ok 0x6000 64 \<lparr>id_context = 64, id_qp = NULL\<rparr> (zero_krping_cb\<lparr>kc_state := st, kc_cm_id := 0x6000\<rparr>) (ksample_conn st evs)"
  by (simp add: kconn_ok_def ksample_conn_def)

section \<open>Properties\<close>

text \<open>
  C22. The connection-manager handler of the ping module refines the abstract transition \<open>kcm_next\<close> on
  every event and every outcome of \<open>rdma_resolve_route\<close>: it always returns 0, changes the state of the
  control block (and its child id on a connection request) and nothing else, and wakes the waiting
  thread exactly when the transition says so.
\<close>

theorem krping_cma_event_handler_refines:
  assumes "kconn_ok cid cbp idr cb w"
  shows "\<exists>st woken. kcm_next (kc_server cb = 0) (kroute_result api cid cbp cb w) (kc_state cb) ev = (st, woken)
     \<and> krping_cma_event_handler api cid ev w = Inr (0, w\<lparr>
         w_kcbs := (w_kcbs w)(cbp \<mapsto> cb\<lparr>kc_state := st,
           kc_child_cm_id := (if ev = RDMA_CM_EVENT_CONNECT_REQUEST then cid else kc_child_cm_id cb)\<rparr>),
         w_trace := (if woken then [EvWake cbp] else [])
           @ (if ev = RDMA_CM_EVENT_ADDR_RESOLVED then [EvResolveRoute cid] else []) @ w_trace w\<rparr>)"
  using khandler_run[OF assms] unfolding kafter_def kcb_after_def by (metis surj_pair)

theorem krping_cma_event_handler_refines_witness:
  "\<exists>w'. krping_cma_event_handler sample_api 0x6000 RDMA_CM_EVENT_REJECTED (ksample_conn TS_ROUTE_RESOLVED []) = Inr (0, w')
     \<and> w_trace w' = [EvWake 64]"
  using krping_cma_event_handler_refines[OF ksample_conn_ok[of TS_ROUTE_RESOLVED "[]"], of sample_api RDMA_CM_EVENT_REJECTED]
  by (auto simp: ksample_conn_def empty_world_def)

text \<open>
  A reported failure ends the wait: when the connection manager reports an error, a disconnection or
  the removal of the device, \<open>krping_bind_client\<close> returns \<open>-EINTR\<close> and \<open>krping_connect_client\<close> returns -1, both
  in the error state. The exception is a failing \<open>rdma_resolve_route\<close>: the handler wakes the thread but
  leaves the state \<open>ADDR_RESOLVED\<close>, and \<open>krping_bind_client\<close> sleeps for ever.
\<close>

theorem krping_connection_errors:
  assumes intr: "\<And>cid ev. intr (CmEvent cid ev) = kcm_deliver api cid ev"
    and ok: "kconn_ok cid cbp idr cb w" and id: "kc_cm_id cb = cid"
    and api: "\<And>w sa. rdma_resolve_addr_ret api w cid sa = 0" "\<And>w p. rdma_connect_ret api w cid p = 0"
  shows "(ev \<in> kcm_error_events \<and> w_pending w = CmEvent cid ev # es \<longrightarrow>
       (kc_state cb < TS_ROUTE_RESOLVED \<longrightarrow> (\<exists>w'. krping_bind_client api kp intr cbp w = Inr (- 4, w')
          \<and> w_kcbs w' cbp = Some (cb\<lparr>kc_state := TS_ERROR\<rparr>) \<and> w_pending w' = es))
       \<and> (kc_state cb < TS_CONNECTED \<longrightarrow> (\<exists>w'. krping_connect_client api intr cbp w = Inr (- 1, w')
          \<and> w_kcbs w' cbp = Some (cb\<lparr>kc_state := TS_ERROR\<rparr>) \<and> w_pending w' = es)))
    \<and> ((\<forall>w. rdma_resolve_route_ret api w cid \<noteq> 0) \<and> kc_state cb < TS_ROUTE_RESOLVED
       \<and> w_pending w = [CmEvent cid RDMA_CM_EVENT_ADDR_RESOLVED] \<longrightarrow>
       krping_bind_client api kp intr cbp w = Inl Blocked)"
proof -
  let ?w0 = "w\<lparr>w_trace := EvResolveAddr cid (krping_fill_sockaddr kp cb) # w_trace w\<rparr>"
  let ?w1 = "w\<lparr>w_trace := EvConnect cid krping_conn_param # w_trace w\<rparr>"
  have ok0: "kconn_ok cid cbp idr cb ?w0" and ok1: "kconn_ok cid cbp idr cb ?w1" and cbp: "cbp \<noteq> 0"
    using ok by (simp_all add: kconn_ok_def)
  have after: "ev \<in> kcm_error_events \<Longrightarrow> kcb_after cid ev TS_ERROR cb = cb\<lparr>kc_state := TS_ERROR\<rparr>"
    by (auto simp: kcb_after_def kcm_error_events_def)
  have "ev \<in> kcm_error_events \<Longrightarrow> kc_state cb < TS_ROUTE_RESOLVED \<Longrightarrow>
      wait_loop intr cbp (kcond cbp (\<lambda>st. TS_ROUTE_RESOLVED \<le> st)) True (CmEvent cid ev # es) ?w0 =
        Inr (0, (kafter cid cbp cb ev TS_ERROR True ?w0)\<lparr>w_pending := es\<rparr>)"
    by (rule kwait_one[where cond = "\<lambda>st. TS_ROUTE_RESOLVED \<le> st", OF intr ok0])
      (simp_all add: kcm_error_next test_le_num less_test_state_def)
  moreover have "ev \<in> kcm_error_events \<Longrightarrow> kc_state cb < TS_CONNECTED \<Longrightarrow>
      wait_loop intr cbp (kcond cbp (\<lambda>st. TS_CONNECTED \<le> st)) True (CmEvent cid ev # es) ?w1 =
        Inr (0, (kafter cid cbp cb ev TS_ERROR True ?w1)\<lparr>w_pending := es\<rparr>)"
    by (rule kwait_one[where cond = "\<lambda>st. TS_CONNECTED \<le> st", OF intr ok1])
      (simp_all add: kcm_error_next test_le_num less_test_state_def)
  ultimately have errs: "ev \<in> kcm_error_events \<and> w_pending w = CmEvent cid ev # es \<longrightarrow>
       (kc_state cb < TS_ROUTE_RESOLVED \<longrightarrow> (\<exists>w'. krping_bind_client api kp intr cbp w = Inr (- 4, w')
          \<and> w_kcbs w' cbp = Some (cb\<lparr>kc_state := TS_ERROR\<rparr>) \<and> w_pending w' = es))
       \<and> (kc_state cb < TS_CONNECTED \<longrightarrow> (\<exists>w'. krping_connect_client api intr cbp w = Inr (- 1, w')
          \<and> w_kcbs w' cbp = Some (cb\<lparr>kc_state := TS_ERROR\<rparr>) \<and> w_pending w' = es))"
    unfolding kbind_to_sleep[OF ok id api(1)] kconnect_to_sleep[OF ok id api(2)]
    using cbp after by (simp add: thenK_def bindK_def load_def)
  have still: "wait_loop intr cbp (kcond cbp (\<lambda>st. TS_ROUTE_RESOLVED \<le> st)) True []
      (kafter cid cbp cb RDMA_CM_EVENT_ADDR_RESOLVED TS_ADDR_RESOLVED True ?w0) = Inl Blocked"
    by (simp add: wait_loop.simps(1) kcond_def test_le_num)
  have "(\<forall>w. rdma_resolve_route_ret api w cid \<noteq> 0) \<Longrightarrow> kc_state cb < TS_ROUTE_RESOLVED \<Longrightarrow>
      wait_loop intr cbp (kcond cbp (\<lambda>st. TS_ROUTE_RESOLVED \<le> st)) True [CmEvent cid RDMA_CM_EVENT_ADDR_RESOLVED] ?w0 = Inl Blocked"
    using kwait_step[where intr = intr and ev = RDMA_CM_EVENT_ADDR_RESOLVED and es = "[]" and cond = "\<lambda>st. TS_ROUTE_RESOLVED \<le> st",
        OF intr ok0, of TS_ADDR_RESOLVED True True] still
    by (simp add: kroute_result_def)
  then have "(\<forall>w. rdma_resolve_route_ret api w cid \<noteq> 0) \<and> kc_state cb < TS_ROUTE_RESOLVED
       \<and> w_pending w = [CmEvent cid RDMA_CM_EVENT_ADDR_RESOLVED] \<longrightarrow>
       krping_bind_client api kp intr cbp w = Inl Blocked"
    unfolding kbind_to_sleep[OF ok id api(1)] by (simp add: thenK_Inl)
  with errs show ?thesis by blast
qed

theorem krping_connection_errors_witness:
  "\<exists>w'. krping_connect_client sample_api ksample_intr 64
     (ksample_conn TS_ROUTE_RESOLVED [CmEvent 0x6000 RDMA_CM_EVENT_REJECTED]) = Inr (- 1, w')"
  using krping_connection_errors[where intr = ksample_intr and api = sample_api and ev = RDMA_CM_EVENT_REJECTED and es = "[]",
      OF _ ksample_conn_ok[of TS_ROUTE_RESOLVED]]
  by (fastforce simp: ksample_intr_def sample_api_def less_test_state_def ksample_conn_def kcm_error_events_def)

end
