(* ===== verification/Krping_Setup.thy ===== *)
theory Krping_Setup
  imports Krping_Conn
begin

unbundle bit_operations_syntax

text \<open>
  Set-up and release of the ping module (\<^verbatim>\<open>bak/krping.c\<close>): the work requests embedded in the control block, the
  DMA mappings, the two coherent buffers and the memory region, and the queue pair with its
  completion queue and protection domain, with every error label. The size of the completion queue
  is an argument of a kernel call that the model does not record.
\<close>

section \<open>Work requests and buffers\<close>

definition info_sge :: "u64 \<Rightarrow> ib_pd \<Rightarrow> ib_sge" where
  "info_sge a pd = \<lparr>sge_addr = a, sge_length = of_nat INFO_BYTES, sge_lkey = local_dma_lkey pd\<rparr>"

definition wr_cb :: "addr \<Rightarrow> ib_pd \<Rightarrow> krping_cb \<Rightarrow> krping_cb" where
  "wr_cb cbp pd c = c\<lparr>
     kc_recv_sgl := info_sge (kc_recv_dma_addr c) pd,
     kc_rq_wr := (kc_rq_wr c)\<lparr>rwr_sg_list := KrpingRecvSgl cbp, rwr_num_sge := 1\<rparr>,
     kc_send_sgl := info_sge (kc_send_dma_addr c) pd,
     kc_sq_wr := (kc_sq_wr c)\<lparr>swr_opcode := IB_WR_SEND, swr_send_flags := IB_SEND_SIGNALED,
       swr_sg_list := KrpingSendSgl cbp, swr_num_sge := 1\<rparr>,
     kc_reg_mr_wr := (kc_reg_mr_wr c)\<lparr>reg_opcode := IB_WR_REG_MR, reg_mr_ptr := kc_reg_mr c\<rparr>,
     kc_invalidate_wr := (kc_invalidate_wr c)\<lparr>inv_next := True, inv_opcode := IB_WR_LOCAL_INV\<rparr>\<rparr>"

definition krping_setup_wr :: "addr \<Rightarrow> (world, unit) kern" where
  "krping_setup_wr cbp =
     bindK (get_kcb cbp) (\<lambda>cb. bindK (load w_pds (kc_pd cb)) (\<lambda>pd. upd_kcb cbp (wr_cb cbp pd)))"

text \<open>The number of pages of \<open>size\<close> bytes, as the code computes it in \<open>unsigned long\<close>.\<close>

definition page_list_len :: "nat \<Rightarrow> c_int \<Rightarrow> c_int" where
  "page_list_len shift sz =
     (let page_size = push_bit shift (1 :: u64); page_mask = NOT (page_size - 1)
      in ucast (drop_bit shift ((scast (sz - 1) AND page_mask) + page_size)))"

text \<open>The label \<open>bail\<close>.\<close>

definition dereg_valid :: "kapi \<Rightarrow> addr \<Rightarrow> (world, unit) kern" where
  "dereg_valid api mr = (if mr \<noteq> NULL \<and> \<not> is_err api mr then ib_dereg_mr mr else returnK ())"

definition free_coherent_of :: "krping_cb \<Rightarrow> addr \<Rightarrow> (world, unit) kern" where
  "free_coherent_of cb buf = thenK (load w_pds (kc_pd cb)) (dma_free_coherent buf)"

definition krping_setup_bail :: "kapi \<Rightarrow> addr \<Rightarrow> c_int \<Rightarrow> (world, c_int) kern" where
  "krping_setup_bail api cbp ret =
     bindK (get_kcb cbp) (\<lambda>cb.
     thenK (dereg_valid api (kc_reg_mr cb))
     (thenK (dereg_valid api (kc_rdma_mr cb))
     (thenK (dereg_valid api (kc_dma_mr cb))
     (thenK (if kc_rdma_buf cb \<noteq> NULL then free_coherent_of cb (kc_rdma_buf cb) else returnK ())
     (thenK (if kc_start_buf cb \<noteq> NULL then free_coherent_of cb (kc_start_buf cb) else returnK ())
     (returnK ret))))))"

text \<open>The two advertisement buffers are members of the control block.\<close>

definition map_infos :: "kapi \<Rightarrow> kpapi \<Rightarrow> addr \<Rightarrow> addr \<Rightarrow> (world, unit) kern" where
  "map_infos api kp cbp dev =
     bindK (ib_dma_map_single api dev (cbp + recv_buf_offset kp) (of_nat INFO_BYTES)) (\<lambda>d.
     thenK (upd_kcb cbp (\<lambda>c. c\<lparr>kc_recv_dma_addr := d, kc_recv_mapping := d\<rparr>))
     (bindK (ib_dma_map_single api dev (cbp + send_buf_offset kp) (of_nat INFO_BYTES)) (\<lambda>d.
      upd_kcb cbp (\<lambda>c. c\<lparr>kc_send_dma_addr := d, kc_send_mapping := d\<rparr>))))"

definition krping_setup_buffers :: "kapi \<Rightarrow> kpapi \<Rightarrow> addr \<Rightarrow> (world, c_int) kern" where
  "krping_setup_buffers api kp cbp =
     bindK (get_kcb cbp) (\<lambda>cb.
     bindK (load w_pds (kc_pd cb)) (\<lambda>pd. let dev = pd_device pd in
     thenK (map_infos api kp cbp dev)
     (bindK (dma_alloc_coherent kp dev (size_of_int (kc_size cb))) (\<lambda>(p, a).
      thenK (upd_kcb cbp (\<lambda>c. c\<lparr>kc_rdma_buf := p, kc_rdma_dma_addr := a\<rparr>))
      (if p = NULL then krping_setup_bail api cbp (- ENOMEM)
       else let n = page_list_len (page_shift kp) (kc_size cb) in
         thenK (upd_kcb cbp (\<lambda>c. c\<lparr>kc_rdma_mapping := a, kc_page_list_len := n\<rparr>))
         (bindK (ib_alloc_mr api kp (kc_pd cb) n) (\<lambda>mr.
          thenK (upd_kcb cbp (\<lambda>c. c\<lparr>kc_reg_mr := mr\<rparr>))
          (if is_err api mr then krping_setup_bail api cbp (ptr_err api mr)
           else
             bindK (dma_alloc_coherent kp dev (size_of_int (kc_size cb))) (\<lambda>(p, a).
             thenK (upd_kcb cbp (\<lambda>c. c\<lparr>kc_start_buf := p, kc_start_dma_addr := a\<rparr>))
             (if p = NULL then krping_setup_bail api cbp (- ENOMEM)
              else
                thenK (upd_kcb cbp (\<lambda>c. c\<lparr>kc_start_mapping := a\<rparr>))
                (thenK (krping_setup_wr cbp) (returnK 0))))))))))))"

definition dereg_set :: "addr \<Rightarrow> (world, unit) kern" where
  "dereg_set mr = (if mr \<noteq> NULL then ib_dereg_mr mr else returnK ())"

definition krping_free_buffers :: "addr \<Rightarrow> (world, unit) kern" where
  "krping_free_buffers cbp =
     bindK (get_kcb cbp) (\<lambda>cb.
     thenK (dereg_set (kc_dma_mr cb))
     (thenK (dereg_set (kc_rdma_mr cb))
     (thenK (dereg_set (kc_start_mr cb))
     (thenK (dereg_set (kc_reg_mr cb))
     (thenK (load w_pds (kc_pd cb))
     (thenK (dma_unmap_single (kc_recv_mapping cb))
     (thenK (dma_unmap_single (kc_send_mapping cb))
     (thenK (free_coherent_of cb (kc_rdma_buf cb))
     (if kc_start_buf cb \<noteq> NULL then free_coherent_of cb (kc_start_buf cb) else returnK ())))))))))"

section \<open>Queue pair\<close>

definition krping_qp_attr :: "krping_cb \<Rightarrow> ib_qp_init_attr" where
  "krping_qp_attr cb = \<lparr>max_send_wr = kc_txdepth cb + 1, max_recv_wr = 2 + 1, max_recv_sge = 1, max_send_sge = 1,
     sq_sig_type = IB_SIGNAL_REQ_WR, qp_type = IB_QPT_RC, send_cq = kc_cq cb, recv_cq = kc_cq cb\<rparr>"

definition krping_create_qp_on :: "kapi \<Rightarrow> addr \<Rightarrow> addr \<Rightarrow> (world, c_int) kern" where
  "krping_create_qp_on api cbp cm =
     bindK (get_kcb cbp) (\<lambda>cb.
     bindK (rdma_create_qp api cm (kc_pd cb) (krping_qp_attr cb)) (\<lambda>ret.
     if ret = 0 then
       bindK (load w_cmids cm) (\<lambda>idr. thenK (upd_kcb cbp (\<lambda>c. c\<lparr>kc_qp := id_qp idr\<rparr>)) (returnK ret))
     else returnK ret))"

definition krping_create_qp :: "kapi \<Rightarrow> addr \<Rightarrow> (world, c_int) kern" where
  "krping_create_qp api cbp =
     bindK (get_kcb cbp) (\<lambda>cb.
     if kc_server cb \<noteq> 0 then krping_create_qp_on api cbp (kc_child_cm_id cb)
     else krping_create_qp_on api cbp (kc_cm_id cb))"

definition krping_free_qp :: "addr \<Rightarrow> (world, unit) kern" where
  "krping_free_qp cbp =
     bindK (get_kcb cbp) (\<lambda>cb.
     thenK (ib_destroy_qp (kc_qp cb)) (thenK (ib_destroy_cq (kc_cq cb)) (ib_dealloc_pd (kc_pd cb))))"

definition krping_setup_qp_err1 :: "addr \<Rightarrow> c_int \<Rightarrow> (world, c_int) kern" where
  "krping_setup_qp_err1 cbp ret = bindK (get_kcb cbp) (\<lambda>cb. thenK (ib_dealloc_pd (kc_pd cb)) (returnK ret))"

definition krping_setup_qp_err2 :: "addr \<Rightarrow> c_int \<Rightarrow> (world, c_int) kern" where
  "krping_setup_qp_err2 cbp ret =
     bindK (get_kcb cbp) (\<lambda>cb. thenK (ib_destroy_cq (kc_cq cb)) (krping_setup_qp_err1 cbp ret))"

definition krping_setup_qp :: "kapi \<Rightarrow> addr \<Rightarrow> addr \<Rightarrow> (world, c_int) kern" where
  "krping_setup_qp api cbp cm_id =
     thenK (load w_cmids cm_id)
     (bindK (getK (\<lambda>w. cm_id_device api w cm_id)) (\<lambda>dev.
      bindK (ib_alloc_pd api dev) (\<lambda>pd.
      thenK (upd_kcb cbp (\<lambda>c. c\<lparr>kc_pd := pd\<rparr>))
      (if is_err api pd then returnK (ptr_err api pd)
       else
         bindK (getK (\<lambda>w. cm_id_device api w cm_id)) (\<lambda>dev.
         bindK (ib_create_cq api dev cbp) (\<lambda>cq.
         thenK (upd_kcb cbp (\<lambda>c. c\<lparr>kc_cq := cq\<rparr>))
         (if is_err api cq then krping_setup_qp_err1 cbp (ptr_err api cq)
          else
            bindK (ib_req_notify_cq api cq) (\<lambda>ret.
            if ret \<noteq> 0 then krping_setup_qp_err2 cbp ret
            else
              bindK (krping_create_qp api cbp) (\<lambda>ret.
              if ret \<noteq> 0 then krping_setup_qp_err2 cbp ret else returnK 0)))))))))"

section \<open>What setting up the queue pair does\<close>

text \<open>A queue pair that is set up, and the state after its release.\<close>

definition kqp_ready :: "krping_cb \<Rightarrow> world \<Rightarrow> bool" where
  "kqp_ready cb w \<longleftrightarrow> kc_pd cb \<noteq> NULL \<and> kc_cq cb \<noteq> NULL \<and> kc_qp cb \<noteq> NULL
     \<and> w_pds w (kc_pd cb) \<noteq> None \<and> w_cqs w (kc_cq cb) \<noteq> None \<and> w_qps w (kc_qp cb) \<noteq> None"

lemma kfree_qp_run':
  assumes "cbp \<noteq> 0" and "w_kcbs w cbp = Some cb" and "kqp_ready cb w"
  shows "krping_free_qp cbp w = Inr ((), w\<lparr>w_pds := (w_pds w)(kc_pd cb := None),
     w_cqs := (w_cqs w)(kc_cq cb := None), w_qps := (w_qps w)(kc_qp cb := None)\<rparr>)"
  using assms
  by (auto simp: krping_free_qp_def ib_destroy_qp_def ib_destroy_cq_def ib_dealloc_pd_def kqp_ready_def run_simps)

definition kqp_done :: "addr \<Rightarrow> addr \<Rightarrow> rdma_cm_id \<Rightarrow> krping_cb \<Rightarrow> addr \<Rightarrow> ib_pd \<Rightarrow> addr \<Rightarrow> addr \<Rightarrow> world \<Rightarrow> world" where
  "kqp_done cid cbp idr cb pd pdv cq q w =
     w\<lparr>w_pds := (w_pds w)(pd \<mapsto> pdv), w_cqs := (w_cqs w)(cq \<mapsto> \<lparr>cq_context = cbp\<rparr>),
       w_trace := EvNotify cq # w_trace w,
       w_qps := (w_qps w)(q \<mapsto> \<lparr>qp_attr = krping_qp_attr (cb\<lparr>kc_cq := cq\<rparr>)\<rparr>),
       w_cmids := (w_cmids w)(cid \<mapsto> idr\<lparr>id_qp := q\<rparr>),
       w_kcbs := (w_kcbs w)(cbp \<mapsto> cb\<lparr>kc_pd := pd, kc_cq := cq, kc_qp := q\<rparr>)\<rparr>"

lemma ksetup_qp_outcome:
  assumes ok: "kconn_ok cid cbp idr cb w" and id: "kc_cm_id cb = cid" and client: "kc_server cb = 0"
    and vs: "verbs_sound api" and es: "err_ptr_sound api"
  shows "(\<exists>pd pdv cq q. krping_setup_qp api cbp cid w = Inr (0, kqp_done cid cbp idr cb pd pdv cq q w)
        \<and> pd \<noteq> 0 \<and> cq \<noteq> 0 \<and> q \<noteq> 0 \<and> w_pds w pd = None \<and> w_cqs w cq = None \<and> w_qps w q = None)
     \<or> (\<exists>r pd cq t. krping_setup_qp api cbp cid w = Inr (r,
          w\<lparr>w_kcbs := (w_kcbs w)(cbp \<mapsto> cb\<lparr>kc_pd := pd, kc_cq := cq\<rparr>), w_trace := t\<rparr>) \<and> r \<noteq> 0)"
proof -
  have P: "cid \<noteq> 0" "cbp \<noteq> 0" "w_cmids w cid = Some idr" "w_kcbs w cbp = Some cb" using ok by (auto simp: kconn_ok_def)
  obtain pd pdv where pd: "ib_alloc_pd_ret api w (cm_id_device api w cid) = (pd, pdv)" by fastforce
  define w1 where w1: "w1 = w\<lparr>w_pds := (w_pds w)(pd \<mapsto> pdv), w_kcbs := (w_kcbs w)(cbp \<mapsto> cb\<lparr>kc_pd := pd\<rparr>)\<rparr>"
  obtain cq where cq: "ib_create_cq_ret api w1 (cm_id_device api w1 cid) = cq" by blast
  define w2 where w2: "w2 = w1\<lparr>w_cqs := (w_cqs w)(cq \<mapsto> \<lparr>cq_context = cbp\<rparr>),
     w_kcbs := (w_kcbs w)(cbp \<mapsto> cb\<lparr>kc_pd := pd, kc_cq := cq\<rparr>)\<rparr>"
  let ?w3 = "w2\<lparr>w_trace := EvNotify cq # w_trace w\<rparr>"
  obtain r q where qp: "rdma_create_qp_ret api ?w3 cid pd (krping_qp_attr (cb\<lparr>kc_pd := pd, kc_cq := cq\<rparr>)) = (r, q)" by fastforce
  have perr: "\<And>p. is_err api p \<Longrightarrow> ptr_err api p \<noteq> 0" using es by (simp add: err_ptr_sound_def)
  note run = krping_setup_qp_def krping_setup_qp_err1_def krping_setup_qp_err2_def ib_destroy_cq_def ib_dealloc_pd_def
    run_simps Let_def
  consider "is_err api pd" | "\<not> is_err api pd" "is_err api cq" | "\<not> is_err api pd" "\<not> is_err api cq" by blast
  then show ?thesis
  proof cases
    case 1
    have "krping_setup_qp api cbp cid w = Inr (ptr_err api pd, w\<lparr>w_kcbs := (w_kcbs w)(cbp \<mapsto> cb\<lparr>kc_pd := pd, kc_cq := kc_cq cb\<rparr>), w_trace := w_trace w\<rparr>)"
      using P pd 1 by (simp add: run)
    with perr[OF 1] show ?thesis by blast
  next
    case 2
    have new: "pd \<noteq> 0" "w_pds w pd = None" using verbs_pd[OF vs pd 2(1)] by simp_all
    have undo: "(w_pds w)(pd := None) = w_pds w" using new(2) by (simp add: fun_upd_idem)
    have "krping_setup_qp api cbp cid w = Inr (ptr_err api cq, w\<lparr>w_kcbs := (w_kcbs w)(cbp \<mapsto> cb\<lparr>kc_pd := pd, kc_cq := cq\<rparr>), w_trace := w_trace w\<rparr>)"
      using P pd 2 cq by (simp add: run undo w1)
    with perr[OF 2(2)] show ?thesis by blast
  next
    case 3
    have new: "pd \<noteq> 0" "w_pds w pd = None" "cq \<noteq> 0" "w_cqs w cq = None"
      using verbs_pd[OF vs pd 3(1)] verbs_cq[OF vs cq 3(2)] by (simp_all add: w1)
    have undo: "(w_pds w)(pd := None) = w_pds w" "(w_cqs w)(cq := None) = w_cqs w" using new by (simp_all add: fun_upd_idem)
    let ?fail = "w\<lparr>w_kcbs := (w_kcbs w)(cbp \<mapsto> cb\<lparr>kc_pd := pd, kc_cq := cq\<rparr>), w_trace := EvNotify cq # w_trace w\<rparr>"
    let ?n = "ib_req_notify_cq_ret api w2 cq"
    have eq: "krping_setup_qp api cbp cid w = (if ?n \<noteq> 0 then Inr (?n, ?fail)
        else if r \<noteq> 0 then Inr (r, ?fail) else Inr (0, kqp_done cid cbp idr cb pd pdv cq q w))"
      using P pd 3 cq new qp client id
      by (simp add: run w1 w2 undo krping_create_qp_def krping_create_qp_on_def rdma_create_qp_def kqp_done_def krping_qp_attr_def)
    show ?thesis
    proof (cases "?n = 0 \<and> r = 0")
      case True
      have "q \<noteq> 0 \<and> w_qps w q = None" using verbs_qp[OF vs qp[unfolded True[THEN conjunct2]]] by (simp add: w1 w2)
      moreover have "krping_setup_qp api cbp cid w = Inr (0, kqp_done cid cbp idr cb pd pdv cq q w)"
        unfolding eq using True by simp
      ultimately show ?thesis using new by blast
    next
      case False
      then have "\<exists>e. krping_setup_qp api cbp cid w = Inr (e, ?fail) \<and> e \<noteq> 0" unfolding eq by simp
      then show ?thesis by blast
    qed
  qed
qed

section \<open>What setting up the buffers does\<close>

text \<open>The mappings after \<open>map_infos\<close>; a mapping that failed is stored like the others.\<close>

definition put_dma :: "u64 \<Rightarrow> addr \<Rightarrow> (addr \<Rightarrow> (addr \<times> u64) option) \<Rightarrow> addr \<Rightarrow> (addr \<times> u64) option" where
  "put_dma d buf D = (if d = 0 then D else D(d \<mapsto> (buf, of_nat INFO_BYTES)))"

definition mapped_cb :: "u64 \<Rightarrow> u64 \<Rightarrow> krping_cb \<Rightarrow> krping_cb" where
  "mapped_cb d1 d2 c = c\<lparr>kc_recv_dma_addr := d1, kc_recv_mapping := d1, kc_send_dma_addr := d2, kc_send_mapping := d2\<rparr>"

definition mapped :: "kpapi \<Rightarrow> addr \<Rightarrow> krping_cb \<Rightarrow> u64 \<Rightarrow> u64 \<Rightarrow> world \<Rightarrow> world" where
  "mapped kp cbp cb d1 d2 w = w\<lparr>w_dmas := put_dma d2 (cbp + send_buf_offset kp) (put_dma d1 (cbp + recv_buf_offset kp) (w_dmas w)),
     w_kcbs := (w_kcbs w)(cbp \<mapsto> mapped_cb d1 d2 cb)\<rparr>"

lemma map_infos_run:
  assumes cb: "cbp \<noteq> 0" "w_kcbs w cbp = Some cb" and vs: "verbs_sound api"
  shows "\<exists>d1 d2. (\<forall>m :: (world, 'a) kern. thenK (map_infos api kp cbp dev) m w = m (mapped kp cbp cb d1 d2 w))
     \<and> (d1 \<noteq> 0 \<longrightarrow> w_dmas w d1 = None) \<and> (d2 \<noteq> 0 \<longrightarrow> w_dmas w d2 = None) \<and> (d1 \<noteq> 0 \<longrightarrow> d1 \<noteq> d2)"
proof -
  let ?m = "ib_dma_map_single_ret api"
  define d1 where d1: "d1 = ?m w dev (cbp + recv_buf_offset kp) (of_nat INFO_BYTES)"
  define w1 where w1: "w1 = w\<lparr>w_dmas := put_dma d1 (cbp + recv_buf_offset kp) (w_dmas w),
     w_kcbs := (w_kcbs w)(cbp \<mapsto> cb\<lparr>kc_recv_dma_addr := d1, kc_recv_mapping := d1\<rparr>)\<rparr>"
  define d2 where d2: "d2 = ?m w1 dev (cbp + send_buf_offset kp) (of_nat INFO_BYTES)"
  have n1: "d1 \<noteq> 0 \<Longrightarrow> w_dmas w d1 = None" using verbs_dma[OF vs d1[symmetric]] .
  have n2: "d2 \<noteq> 0 \<Longrightarrow> w_dmas w1 d2 = None" using verbs_dma[OF vs d2[symmetric]] .
  have "d2 \<noteq> 0 \<Longrightarrow> w_dmas w d2 = None \<and> (d1 \<noteq> 0 \<longrightarrow> d1 \<noteq> d2)"
    using n2 by (auto simp: w1 put_dma_def split: if_splits)
  moreover have "thenK (map_infos api kp cbp dev) m w = m (mapped kp cbp cb d1 d2 w)" for m :: "(world, 'a) kern"
  proof -
    have "thenK (map_infos api kp cbp dev) m w = thenK (bindK (ib_dma_map_single api dev (cbp + send_buf_offset kp) (of_nat INFO_BYTES)) (\<lambda>d.
        upd_kcb cbp (\<lambda>c. c\<lparr>kc_send_dma_addr := d, kc_send_mapping := d\<rparr>))) m w1"
      using cb by (cases "d1 = 0") (simp_all add: map_infos_def run_simps Let_def w1 put_dma_def flip: d1)
    also have "\<dots> = m (mapped kp cbp cb d1 d2 w)"
      using cb by (cases "d2 = 0") (simp_all add: run_simps Let_def mapped_def mapped_cb_def put_dma_def w1 flip: d2[unfolded w1 put_dma_def])
    finally show ?thesis .
  qed
  ultimately show ?thesis using n1 by blast
qed

definition kbuf_cb :: "addr \<Rightarrow> ib_pd \<Rightarrow> u64 \<Rightarrow> u64 \<Rightarrow> addr \<Rightarrow> u64 \<Rightarrow> c_int \<Rightarrow> addr \<Rightarrow> addr \<Rightarrow> u64 \<Rightarrow> krping_cb \<Rightarrow> krping_cb" where
  "kbuf_cb cbp pdv d1 d2 p1 a1 n mr p2 a2 cb = wr_cb cbp pdv ((mapped_cb d1 d2 cb)\<lparr>kc_rdma_buf := p1, kc_rdma_dma_addr := a1,
     kc_rdma_mapping := a1, kc_page_list_len := n, kc_reg_mr := mr, kc_start_buf := p2, kc_start_dma_addr := a2,
     kc_start_mapping := a2\<rparr>)"

text \<open>A control block whose buffers were never set up, and one that can be handed to \<open>krping_free_buffers\<close>.\<close>

definition kbuf_fresh :: "krping_cb \<Rightarrow> bool" where
  "kbuf_fresh cb \<longleftrightarrow> kc_dma_mr cb = NULL \<and> kc_rdma_mr cb = NULL \<and> kc_start_mr cb = NULL \<and> kc_reg_mr cb = NULL
     \<and> kc_rdma_buf cb = NULL \<and> kc_start_buf cb = NULL"

definition kbuf_ok :: "krping_cb \<Rightarrow> world \<Rightarrow> bool" where
  "kbuf_ok cb w \<longleftrightarrow> kc_dma_mr cb = NULL \<and> kc_rdma_mr cb = NULL \<and> kc_start_mr cb = NULL
     \<and> kc_reg_mr cb \<noteq> NULL \<and> w_mrs w (kc_reg_mr cb) \<noteq> None
     \<and> w_dmas w (kc_recv_mapping cb) \<noteq> None \<and> w_dmas w (kc_send_mapping cb) \<noteq> None
     \<and> kc_recv_mapping cb \<noteq> kc_send_mapping cb
     \<and> kc_rdma_buf cb \<noteq> NULL \<and> w_bytes w (kc_rdma_buf cb) \<noteq> None
     \<and> kc_start_buf cb \<noteq> NULL \<and> w_bytes w (kc_start_buf cb) \<noteq> None \<and> kc_rdma_buf cb \<noteq> kc_start_buf cb"

definition kbuf_released :: "krping_cb \<Rightarrow> world \<Rightarrow> world" where
  "kbuf_released cb w = w\<lparr>w_mrs := (w_mrs w)(kc_reg_mr cb := None),
     w_dmas := (w_dmas w)(kc_recv_mapping cb := None, kc_send_mapping cb := None),
     w_bytes := (w_bytes w)(kc_rdma_buf cb := None, kc_start_buf cb := None)\<rparr>"

lemma kfree_buffers_run':
  assumes "cbp \<noteq> 0" and "w_kcbs w cbp = Some cb" and "kc_pd cb \<noteq> 0" and "w_pds w (kc_pd cb) \<noteq> None" and "kbuf_ok cb w"
  shows "krping_free_buffers cbp w = Inr ((), kbuf_released cb w)"
  using assms
  by (auto simp: krping_free_buffers_def dereg_set_def ib_dereg_mr_def dma_unmap_single_def free_coherent_of_def
      dma_free_coherent_def kbuf_ok_def kbuf_released_def run_simps)

lemma kbuf_cb_sel [simp]:
  "kc_pd (kbuf_cb cbp pdv d1 d2 p1 a1 n mr p2 a2 cb) = kc_pd cb" "kc_cq (kbuf_cb cbp pdv d1 d2 p1 a1 n mr p2 a2 cb) = kc_cq cb"
  "kc_qp (kbuf_cb cbp pdv d1 d2 p1 a1 n mr p2 a2 cb) = kc_qp cb" "kc_reg_mr (kbuf_cb cbp pdv d1 d2 p1 a1 n mr p2 a2 cb) = mr"
  "kc_rdma_buf (kbuf_cb cbp pdv d1 d2 p1 a1 n mr p2 a2 cb) = p1" "kc_start_buf (kbuf_cb cbp pdv d1 d2 p1 a1 n mr p2 a2 cb) = p2"
  "kc_recv_mapping (kbuf_cb cbp pdv d1 d2 p1 a1 n mr p2 a2 cb) = d1" "kc_send_mapping (kbuf_cb cbp pdv d1 d2 p1 a1 n mr p2 a2 cb) = d2"
  "kc_dma_mr (kbuf_cb cbp pdv d1 d2 p1 a1 n mr p2 a2 cb) = kc_dma_mr cb" "kc_rdma_mr (kbuf_cb cbp pdv d1 d2 p1 a1 n mr p2 a2 cb) = kc_rdma_mr cb"
  "kc_start_mr (kbuf_cb cbp pdv d1 d2 p1 a1 n mr p2 a2 cb) = kc_start_mr cb" "kc_state (kbuf_cb cbp pdv d1 d2 p1 a1 n mr p2 a2 cb) = kc_state cb"
  "kc_size (kbuf_cb cbp pdv d1 d2 p1 a1 n mr p2 a2 cb) = kc_size cb" "kc_cm_id (kbuf_cb cbp pdv d1 d2 p1 a1 n mr p2 a2 cb) = kc_cm_id cb"
  "kc_server (kbuf_cb cbp pdv d1 d2 p1 a1 n mr p2 a2 cb) = kc_server cb" "kc_count (kbuf_cb cbp pdv d1 d2 p1 a1 n mr p2 a2 cb) = kc_count cb"
  by (simp_all add: kbuf_cb_def wr_cb_def mapped_cb_def)

definition kbuf_done ::
    "kpapi \<Rightarrow> addr \<Rightarrow> krping_cb \<Rightarrow> u64 \<Rightarrow> u64 \<Rightarrow> addr \<Rightarrow> byte list \<Rightarrow> addr \<Rightarrow> ib_mr \<Rightarrow> addr \<Rightarrow> byte list \<Rightarrow> world \<Rightarrow> world" where
  "kbuf_done kp cbp cb' d1 d2 p1 b1 mr mrv p2 b2 w =
     w\<lparr>w_dmas := put_dma d2 (cbp + send_buf_offset kp) (put_dma d1 (cbp + recv_buf_offset kp) (w_dmas w)),
       w_mrs := (w_mrs w)(mr \<mapsto> mrv), w_bytes := (w_bytes w)(p1 \<mapsto> b1, p2 \<mapsto> b2), w_kcbs := (w_kcbs w)(cbp \<mapsto> cb')\<rparr>"

lemma kbuf_outcome:
  assumes cb: "cbp \<noteq> 0" "w_kcbs w cbp = Some cb" and pd: "kc_pd cb \<noteq> 0" "w_pds w (kc_pd cb) = Some pdv"
    and fresh: "kbuf_fresh cb" and vs: "verbs_sound api" and es: "err_ptr_sound api" and ks: "kp_sound api kp"
  shows "\<exists>d1 d2. (d1 \<noteq> 0 \<longrightarrow> w_dmas w d1 = None) \<and> (d2 \<noteq> 0 \<longrightarrow> w_dmas w d2 = None) \<and> (d1 \<noteq> 0 \<longrightarrow> d1 \<noteq> d2) \<and>
     ((\<exists>p1 a1 b1 mr mrv p2 a2 b2. krping_setup_buffers api kp cbp w = Inr (0, kbuf_done kp cbp
          (kbuf_cb cbp pdv d1 d2 p1 a1 (page_list_len (page_shift kp) (kc_size cb)) mr p2 a2 cb) d1 d2 p1 b1 mr mrv p2 b2 w)
        \<and> p1 \<noteq> 0 \<and> p2 \<noteq> 0 \<and> mr \<noteq> 0 \<and> p1 \<noteq> p2 \<and> w_bytes w p1 = None \<and> w_bytes w p2 = None \<and> w_mrs w mr = None
        \<and> length b1 = unat (size_of_int (kc_size cb)) \<and> length b2 = unat (size_of_int (kc_size cb)))
     \<or> (\<exists>r cb'. krping_setup_buffers api kp cbp w = Inr (r,
          w\<lparr>w_dmas := put_dma d2 (cbp + send_buf_offset kp) (put_dma d1 (cbp + recv_buf_offset kp) (w_dmas w)),
            w_kcbs := (w_kcbs w)(cbp \<mapsto> cb')\<rparr>) \<and> r \<noteq> 0 \<and> kc_pd cb' = kc_pd cb \<and> kc_cq cb' = kc_cq cb \<and> kc_qp cb' = kc_qp cb \<and> kc_cm_id cb' = kc_cm_id cb))"
proof -
  obtain d1 d2 where mi: "\<forall>m :: (world, c_int) kern. thenK (map_infos api kp cbp (pd_device pdv)) m w = m (mapped kp cbp cb d1 d2 w)"
    and n: "(d1 \<noteq> 0 \<longrightarrow> w_dmas w d1 = None) \<and> (d2 \<noteq> 0 \<longrightarrow> w_dmas w d2 = None) \<and> (d1 \<noteq> 0 \<longrightarrow> d1 \<noteq> d2)"
    using map_infos_run[OF cb vs] by blast
  let ?n = "page_list_len (page_shift kp) (kc_size cb)" and ?sz = "size_of_int (kc_size cb)" and ?dev = "pd_device pdv"
  define w1 where w1: "w1 = mapped kp cbp cb d1 d2 w"
  let ?cb1 = "mapped_cb d1 d2 cb"
  obtain p1 a1 b1 where c1: "coherent_ret kp w1 ?dev ?sz = (p1, a1, b1)" by (metis prod_cases3)
  let ?cb2 = "?cb1\<lparr>kc_rdma_buf := p1, kc_rdma_dma_addr := a1, kc_rdma_mapping := a1, kc_page_list_len := ?n\<rparr>"
  define w2 where w2: "w2 = w1\<lparr>w_bytes := (w_bytes w)(p1 \<mapsto> b1), w_kcbs := (w_kcbs w)(cbp \<mapsto> ?cb2)\<rparr>"
  obtain mr mrv where mr: "ib_alloc_mr_ret kp w2 (kc_pd cb) ?n = (mr, mrv)" by fastforce
  let ?cb3 = "?cb2\<lparr>kc_reg_mr := mr\<rparr>"
  define w3 where w3: "w3 = w2\<lparr>w_mrs := (w_mrs w)(mr \<mapsto> mrv), w_kcbs := (w_kcbs w)(cbp \<mapsto> ?cb3)\<rparr>"
  obtain p2 a2 b2 where c2: "coherent_ret kp w3 ?dev ?sz = (p2, a2, b2)" by (metis prod_cases3)
  have F: "kc_dma_mr cb = 0" "kc_rdma_mr cb = 0" "kc_start_mr cb = 0" "kc_reg_mr cb = 0" "kc_rdma_buf cb = 0" "kc_start_buf cb = 0"
    using fresh by (auto simp: kbuf_fresh_def)
  note run = krping_setup_buffers_def krping_setup_bail_def Let_def run_simps mi[rule_format] mapped_def dereg_valid_def free_coherent_of_def
    dma_free_coherent_def ib_dereg_mr_def mapped_cb_def F
  note defs = w1[unfolded mapped_def mapped_cb_def] w2[unfolded w1 mapped_def mapped_cb_def] w3[unfolded w2 w1 mapped_def mapped_cb_def]
  let ?D = "put_dma d2 (cbp + send_buf_offset kp) (put_dma d1 (cbp + recv_buf_offset kp) (w_dmas w))"
  let ?bad = "\<lambda>r cb'. Inr (r, w\<lparr>w_dmas := ?D, w_kcbs := (w_kcbs w)(cbp \<mapsto> cb')\<rparr>)"
  let ?ks = "\<lambda>cb'. kc_pd cb' = kc_pd cb \<and> kc_cq cb' = kc_cq cb \<and> kc_qp cb' = kc_qp cb \<and> kc_cm_id cb' = kc_cm_id cb"
  have perr: "\<And>p. is_err api p \<Longrightarrow> ptr_err api p \<noteq> 0" using es by (simp add: err_ptr_sound_def)
  consider "p1 = 0" | "p1 \<noteq> 0" "is_err api mr" | "p1 \<noteq> 0" "\<not> is_err api mr" "p2 = 0" | "p1 \<noteq> 0" "\<not> is_err api mr" "p2 \<noteq> 0" by blast
  then have "(\<exists>p1 a1 b1 mr mrv p2 a2 b2. krping_setup_buffers api kp cbp w = Inr (0, kbuf_done kp cbp
          (kbuf_cb cbp pdv d1 d2 p1 a1 ?n mr p2 a2 cb) d1 d2 p1 b1 mr mrv p2 b2 w)
        \<and> p1 \<noteq> 0 \<and> p2 \<noteq> 0 \<and> mr \<noteq> 0 \<and> p1 \<noteq> p2 \<and> w_bytes w p1 = None \<and> w_bytes w p2 = None \<and> w_mrs w mr = None
        \<and> length b1 = unat ?sz \<and> length b2 = unat ?sz)
     \<or> (\<exists>r cb'. krping_setup_buffers api kp cbp w = ?bad r cb' \<and> r \<noteq> 0 \<and> ?ks cb')"
  proof cases
    case 1
    have "krping_setup_buffers api kp cbp w = ?bad (- 12) (?cb1\<lparr>kc_rdma_buf := 0, kc_rdma_dma_addr := a1\<rparr>)"
      using cb pd c1 1 by (simp add: run defs)
    moreover have "?ks (?cb1\<lparr>kc_rdma_buf := 0, kc_rdma_dma_addr := a1\<rparr>)" by (simp add: mapped_cb_def)
    moreover have "(- 12 :: c_int) \<noteq> 0" by simp
    ultimately show ?thesis by blast
  next
    case 2
    have b1: "w_bytes w p1 = None" using kp_coherent[OF ks c1 2(1)] by (simp add: w1 mapped_def)
    then have undo: "(w_bytes w)(p1 := None) = w_bytes w" by (simp add: fun_upd_idem)
    have "krping_setup_buffers api kp cbp w = ?bad (ptr_err api mr) ?cb3"
      using cb pd c1 mr 2 by (simp add: run defs undo)
    moreover have "?ks ?cb3" by (simp add: mapped_cb_def)
    ultimately show ?thesis using perr[OF 2(2)] by blast
  next
    case 3
    have b1: "w_bytes w p1 = None" using kp_coherent[OF ks c1 3(1)] by (simp add: w1 mapped_def)
    have m: "mr \<noteq> 0" "w_mrs w mr = None" using kp_mr[OF ks mr 3(2)] by (simp_all add: w2 w1 mapped_def)
    have undo: "(w_bytes w)(p1 := None) = w_bytes w" "(w_mrs w)(mr := None) = w_mrs w" using b1 m by (simp_all add: fun_upd_idem)
    have "krping_setup_buffers api kp cbp w = ?bad (- 12) (?cb3\<lparr>kc_start_buf := 0, kc_start_dma_addr := a2\<rparr>)"
      using cb pd c1 mr m c2 3 by (simp add: run defs undo)
    moreover have "?ks (?cb3\<lparr>kc_start_buf := 0, kc_start_dma_addr := a2\<rparr>)" by (simp add: mapped_cb_def)
    moreover have "(- 12 :: c_int) \<noteq> 0" by simp
    ultimately show ?thesis by blast
  next
    case 4
    have b1: "w_bytes w p1 = None" "length b1 = unat ?sz" using kp_coherent[OF ks c1 4(1)] by (simp_all add: w1 mapped_def)
    have m: "mr \<noteq> 0" "w_mrs w mr = None" using kp_mr[OF ks mr 4(2)] by (simp_all add: w2 w1 mapped_def)
    have b2: "p1 \<noteq> p2" "w_bytes w p2 = None" "length b2 = unat ?sz"
      using kp_coherent[OF ks c2 4(3)] by (auto simp: w3 w2 w1 mapped_def split: if_splits)
    have run4: "krping_setup_buffers api kp cbp w = Inr (0, kbuf_done kp cbp
          (kbuf_cb cbp pdv d1 d2 p1 a1 ?n mr p2 a2 cb) d1 d2 p1 b1 mr mrv p2 b2 w)"
      using cb pd c1 mr m c2 4 by (simp add: run defs krping_setup_wr_def kbuf_done_def kbuf_cb_def)
    show ?thesis by (rule disjI1, intro exI conjI, rule run4) (use b1 b2 m 4 in simp_all)
  qed
  then show ?thesis using n by (intro exI[of _ d1] exI[of _ d2] conjI) simp_all
qed

section \<open>The number of pages\<close>

lemma and_page_mask: "n AND NOT (push_bit s 1 - 1) = push_bit s (drop_bit s n)" for n :: "'a :: len word"
proof -
  have "push_bit s 1 - 1 = (mask s :: 'a word)" by (simp add: mask_eq_exp_minus_1 push_bit_of_1)
  then show ?thesis by (auto intro!: bit_word_eqI simp: bit_simps)
qed

lemma div_page:
  fixes a :: int
  assumes "0 \<le> a"
  shows "0 \<le> a div 2 ^ s" "a div 2 ^ s * 2 ^ s \<le> a" "a div 2 ^ s \<le> a"
proof -
  show k: "0 \<le> a div 2 ^ s" using assms by (simp add: pos_imp_zdiv_nonneg_iff)
  show m: "a div 2 ^ s * 2 ^ s \<le> a" by (metis div_mult_mod_eq le_add_same_cancel1 pos_mod_sign zero_less_numeral zero_less_power)
  have "a div 2 ^ s * 1 \<le> a div 2 ^ s * 2 ^ s" using k by (intro mult_left_mono) simp_all
  then show "a div 2 ^ s \<le> a" using m by simp
qed

lemma round_up_pages:
  fixes n :: "64 word"
  assumes "uint n < 2 ^ 31" and "s < 31"
  shows "uint (drop_bit s ((n AND NOT (push_bit s 1 - 1)) + push_bit s 1)) = uint n div 2 ^ s + 1"
proof -
  let ?k = "uint n div 2 ^ s"
  have k: "0 \<le> ?k" "?k * 2 ^ s \<le> uint n" "?k \<le> uint n" using div_page[of "uint n" s] by simp_all
  have "(2 :: int) ^ s < 2 ^ 31" using assms(2) by (intro power_strict_increasing) simp_all
  with k have small: "(?k + 1) * 2 ^ s < 2 ^ 64" using assms(1) by (simp add: distrib_right)
  have dr: "uint (drop_bit s x) = uint x div 2 ^ s" for x :: "64 word"
    using uint_lt2p[of x] unfolding unsigned_drop_bit_eq by (simp add: drop_bit_eq_div take_bit_int_eq_self)
  note d = dr[of n]
  have "?k + 1 < 2 ^ 64" using k(3) assms(1) by simp
  then have d1: "uint (drop_bit s n + 1) = ?k + 1" using k by (simp add: uint_word_ariths d)
  have "(n AND NOT (push_bit s 1 - 1)) + push_bit s 1 = push_bit s (drop_bit s n + 1)"
    unfolding and_page_mask by (simp add: push_bit_add)
  moreover have "uint (push_bit s (drop_bit s n + 1)) = (?k + 1) * 2 ^ s"
    unfolding unsigned_push_bit_eq d1 using small k by (simp add: push_bit_eq_mult take_bit_int_eq_self)
  ultimately show ?thesis unfolding dr by simp
qed

lemma page_list_len_pages:
  assumes "1 \<le> sint sz" and "s < 31"
  shows "sint (page_list_len s sz) = (sint sz - 1) div 2 ^ s + 1"
proof -
  have sz: "sint sz < 2 ^ 31" using sint_lt[of sz] by simp
  have "sint (sz - 1) = signed_take_bit 31 (sint sz - 1)" by (simp add: sint_word_ariths)
  then have sz1: "sint (sz - 1) = sint sz - 1" using assms sz by (simp add: signed_take_bit_int_eq_self)
  then have n: "uint (scast (sz - 1) :: 64 word) = sint sz - 1" using uint_size_of_int[of "sz - 1"] assms by (simp add: size_of_int_def)
  let ?k = "(sint sz - 1) div 2 ^ s" and ?r = "drop_bit s ((scast (sz - 1) AND NOT (push_bit s (1 :: 64 word) - 1)) + push_bit s 1)"
  have r: "uint ?r = ?k + 1" using round_up_pages[of "scast (sz - 1)" s] n sz assms by simp
  have b: "0 \<le> ?k + 1" "?k + 1 < 2 ^ 31" using div_page[of "sint sz - 1" s] sz assms by simp_all
  have "uint (ucast ?r :: 32 word) = take_bit 32 (uint ?r)" by (simp add: unsigned_ucast_eq)
  also have "\<dots> = ?k + 1" unfolding r using b by (simp add: take_bit_int_eq_self)
  finally have u: "uint (page_list_len s sz) = ?k + 1" by (simp add: page_list_len_def Let_def)
  show ?thesis unfolding sint_uint[of "page_list_len s sz"] u using b by (simp add: signed_take_bit_int_eq_self)
qed

section \<open>A concrete set-up\<close>

definition ksample_cb :: krping_cb where
  "ksample_cb = zero_krping_cb\<lparr>kc_state := TS_ROUTE_RESOLVED, kc_cm_id := 0x6000, kc_size := 64, kc_txdepth := RPING_SQ_DEPTH,
     kc_pd := 0x3000, kc_cq := 0x4000, kc_qp := 0x5000\<rparr>"

definition ksample_qp :: world where
  "ksample_qp = empty_world\<lparr>w_kcbs := [64 \<mapsto> ksample_cb], w_cmids := [0x6000 \<mapsto> \<lparr>id_context = 64, id_qp = 0x5000\<rparr>],
     w_pds := [0x3000 \<mapsto> \<lparr>pd_device = 0x2000, local_dma_lkey = 7\<rparr>], w_cqs := [0x4000 \<mapsto> \<lparr>cq_context = 64\<rparr>],
     w_qps := [0x5000 \<mapsto> \<lparr>qp_attr = krping_qp_attr ksample_cb\<rparr>]\<rparr>"

lemma ksample_cb_sel:
  "kc_pd ksample_cb = 0x3000" "kc_cq ksample_cb = 0x4000" "kc_qp ksample_cb = 0x5000" "kc_size ksample_cb = 64" "kbuf_fresh ksample_cb"
  by (simp_all add: ksample_cb_def zero_krping_cb_def kbuf_fresh_def)

section \<open>Properties\<close>

text \<open>
  Setting up the queue pair of the ping module is all or nothing, whatever fails: either
  \<open>krping_setup_qp\<close> returns 0, the three objects are new, the control block refers to them and
  \<open>krping_free_qp\<close> releases exactly them, or it returns a non-zero error and no object is left.
\<close>

theorem krping_setup_qp_all_or_nothing:
  assumes ok: "kconn_ok cid cbp idr cb w" and id: "kc_cm_id cb = cid" and client: "kc_server cb = 0"
    and vs: "verbs_sound api" and es: "err_ptr_sound api"
  shows "\<exists>r w' cb'. krping_setup_qp api cbp cid w = Inr (r, w') \<and> w_kcbs w' cbp = Some cb'
     \<and> (r = 0 \<longrightarrow> kqp_ready cb' w' \<and> w_qps w' (kc_qp cb') = Some \<lparr>qp_attr = krping_qp_attr cb'\<rparr>
          \<and> (\<exists>w''. krping_free_qp cbp w' = Inr ((), w'') \<and> w_pds w'' = w_pds w \<and> w_cqs w'' = w_cqs w \<and> w_qps w'' = w_qps w))
     \<and> (r \<noteq> 0 \<longrightarrow> w_pds w' = w_pds w \<and> w_cqs w' = w_cqs w \<and> w_qps w' = w_qps w)"
  using ksetup_qp_outcome[OF assms]
proof (elim disjE exE conjE)
  fix pd pdv cq q
  let ?w' = "kqp_done cid cbp idr cb pd pdv cq q w" and ?cb' = "cb\<lparr>kc_pd := pd, kc_cq := cq, kc_qp := q\<rparr>"
  assume new: "w_pds w pd = None" "w_cqs w cq = None" "w_qps w q = None" "pd \<noteq> 0" "cq \<noteq> 0" "q \<noteq> 0"
    and run: "krping_setup_qp api cbp cid w = Inr (0, ?w')"
  have cbp: "cbp \<noteq> 0" using ok by (simp add: kconn_ok_def)
  have rdy: "kqp_ready ?cb' ?w'" "w_kcbs ?w' cbp = Some ?cb'" using new by (simp_all add: kqp_ready_def kqp_done_def)
  have "\<exists>w''. krping_free_qp cbp ?w' = Inr ((), w'') \<and> w_pds w'' = w_pds w \<and> w_cqs w'' = w_cqs w \<and> w_qps w'' = w_qps w"
    unfolding kfree_qp_run'[OF cbp rdy(2,1)] using new by (simp add: kqp_done_def fun_upd_idem)
  moreover have "w_qps ?w' (kc_qp ?cb') = Some \<lparr>qp_attr = krping_qp_attr ?cb'\<rparr>" by (simp add: kqp_done_def krping_qp_attr_def)
  ultimately show ?thesis using run rdy by (intro exI[of _ 0] exI[of _ ?w'] exI[of _ ?cb']) simp
qed auto

theorem krping_setup_qp_all_or_nothing_witness:
  "\<exists>r w' cb'. krping_setup_qp sample_api 64 0x6000 (ksample_conn TS_ROUTE_RESOLVED []) = Inr (r, w')
     \<and> w_kcbs w' 64 = Some cb' \<and> (r = 0 \<longrightarrow> kqp_ready cb' w')"
  using krping_setup_qp_all_or_nothing[OF ksample_conn_ok[of TS_ROUTE_RESOLVED "[]"] _ _ sample_verbs_sound sample_err_ptr_sound]
  by (fastforce simp: zero_krping_cb_def)

text \<open>
  C33. The buffers of the ping module. When \<open>krping_setup_buffers\<close> returns 0 the two coherent buffers of the
  configured size and the memory region are new, and if both DMA mappings were made
  \<open>krping_free_buffers\<close> releases exactly what was created. When it returns an error, buffers and region
  are released but the two DMA mappings of the advertisement buffers are left behind: no later
  statement unmaps them.
\<close>

theorem krping_buffers_lifecycle:
  assumes cb: "cbp \<noteq> NULL" "w_kcbs w cbp = Some cb" and pd: "kc_pd cb \<noteq> NULL" "w_pds w (kc_pd cb) = Some pdv"
    and fresh: "kbuf_fresh cb" and vs: "verbs_sound api" and es: "err_ptr_sound api" and ks: "kp_sound api kp"
  shows "\<exists>r w' cb' d1 d2. krping_setup_buffers api kp cbp w = Inr (r, w') \<and> w_kcbs w' cbp = Some cb'
     \<and> w_dmas w' = put_dma d2 (cbp + send_buf_offset kp) (put_dma d1 (cbp + recv_buf_offset kp) (w_dmas w))
     \<and> (d1 \<noteq> 0 \<longrightarrow> w_dmas w d1 = None) \<and> (d2 \<noteq> 0 \<longrightarrow> w_dmas w d2 = None) \<and> (d1 \<noteq> 0 \<longrightarrow> d1 \<noteq> d2)
     \<and> (r = 0 \<longrightarrow> (\<exists>b1 b2. w_bytes w' (kc_rdma_buf cb') = Some b1 \<and> w_bytes w' (kc_start_buf cb') = Some b2
            \<and> length b1 = unat (size_of_int (kc_size cb)) \<and> length b2 = unat (size_of_int (kc_size cb)))
          \<and> (d1 \<noteq> 0 \<and> d2 \<noteq> 0 \<longrightarrow> (\<exists>w''. krping_free_buffers cbp w' = Inr ((), w'')
            \<and> w_bytes w'' = w_bytes w \<and> w_mrs w'' = w_mrs w \<and> w_dmas w'' = w_dmas w)))
     \<and> (r \<noteq> 0 \<longrightarrow> w_bytes w' = w_bytes w \<and> w_mrs w' = w_mrs w)"
  using kbuf_outcome[OF assms]
proof (elim exE conjE disjE)
  fix d1 d2 r cb'
  assume n: "d1 \<noteq> 0 \<longrightarrow> w_dmas w d1 = None" "d2 \<noteq> 0 \<longrightarrow> w_dmas w d2 = None" "d1 \<noteq> 0 \<longrightarrow> d1 \<noteq> d2"
    and bad: "r \<noteq> 0" "krping_setup_buffers api kp cbp w = Inr (r,
          w\<lparr>w_dmas := put_dma d2 (cbp + send_buf_offset kp) (put_dma d1 (cbp + recv_buf_offset kp) (w_dmas w)),
            w_kcbs := (w_kcbs w)(cbp \<mapsto> cb')\<rparr>)" (is "_ = Inr (r, ?w')")
  show ?thesis
    unfolding bad(2)
    by (rule exI[of _ r], rule exI[of _ ?w'], rule exI[of _ cb'], rule exI[of _ d1], rule exI[of _ d2])
      (use n bad(1) in simp)
next
  fix d1 d2 p1 a1 b1 mr mrv p2 a2 b2
  let ?cb' = "kbuf_cb cbp pdv d1 d2 p1 a1 (page_list_len (page_shift kp) (kc_size cb)) mr p2 a2 cb"
  let ?w' = "kbuf_done kp cbp ?cb' d1 d2 p1 b1 mr mrv p2 b2 w"
  assume n: "d1 \<noteq> 0 \<longrightarrow> w_dmas w d1 = None" "d2 \<noteq> 0 \<longrightarrow> w_dmas w d2 = None" "d1 \<noteq> 0 \<longrightarrow> d1 \<noteq> d2"
    and new: "p1 \<noteq> 0" "p2 \<noteq> 0" "mr \<noteq> 0" "p1 \<noteq> p2" "w_bytes w p1 = None" "w_bytes w p2 = None" "w_mrs w mr = None"
      "length b1 = unat (size_of_int (kc_size cb))" "length b2 = unat (size_of_int (kc_size cb))"
    and run: "krping_setup_buffers api kp cbp w = Inr (0, ?w')"
  have free: "\<exists>w''. krping_free_buffers cbp ?w' = Inr ((), w'') \<and> w_bytes w'' = w_bytes w \<and> w_mrs w'' = w_mrs w \<and> w_dmas w'' = w_dmas w"
    if d: "d1 \<noteq> 0" "d2 \<noteq> 0"
  proof -
    have "kbuf_ok ?cb' ?w'" using new n d fresh by (simp add: kbuf_ok_def kbuf_done_def put_dma_def kbuf_fresh_def)
    from kfree_buffers_run'[OF cb(1) _ _ _ this] pd
    have "krping_free_buffers cbp ?w' = Inr ((), kbuf_released ?cb' ?w')" by (simp add: kbuf_done_def)
    moreover have "w_bytes (kbuf_released ?cb' ?w') = w_bytes w" "w_mrs (kbuf_released ?cb' ?w') = w_mrs w"
      "w_dmas (kbuf_released ?cb' ?w') = w_dmas w"
      using new n d by (auto simp: kbuf_released_def kbuf_done_def put_dma_def)
    ultimately show ?thesis by blast
  qed
  have "w_kcbs ?w' cbp = Some ?cb'" "w_bytes ?w' (kc_rdma_buf ?cb') = Some b1" "w_bytes ?w' (kc_start_buf ?cb') = Some b2"
    "w_dmas ?w' = put_dma d2 (cbp + send_buf_offset kp) (put_dma d1 (cbp + recv_buf_offset kp) (w_dmas w))"
    using new by (simp_all add: kbuf_done_def)
  then show ?thesis
    using n new(8,9) free run by (intro exI[of _ 0] exI[of _ ?w'] exI[of _ ?cb'] exI[of _ d1] exI[of _ d2]) simp
qed

theorem krping_buffers_lifecycle_witness:
  "\<exists>r w'. krping_setup_buffers sample_api sample_kp 64 ksample_qp = Inr (r, w') \<and> (r \<noteq> 0 \<longrightarrow> w_bytes w' = w_bytes ksample_qp)"
proof -
  have "w_kcbs ksample_qp 64 = Some ksample_cb" "w_pds ksample_qp (kc_pd ksample_cb) = Some \<lparr>pd_device = 0x2000, local_dma_lkey = 7\<rparr>"
    "(64 :: addr) \<noteq> 0" "kc_pd ksample_cb \<noteq> 0"
    by (simp_all add: ksample_qp_def ksample_cb_sel)
  from krping_buffers_lifecycle[OF this(3,1,4,2) ksample_cb_sel(5) sample_verbs_sound sample_err_ptr_sound sample_kp_sound]
  show ?thesis by blast
qed

text \<open>
  C37. The length of the page list, computed with masks and shifts in 64-bit arithmetic and stored in an
  \<open>int\<close>, is the number of pages a buffer of the configured size occupies: the size divided by the page
  size, rounded up, for every positive size and page sizes below \<open>2^31\<close>, without overflow.
\<close>

theorem page_list_len_rounds_up:
  assumes "1 \<le> sint sz" and "s < 31"
  shows "sint (page_list_len s sz) = (sint sz - 1) div 2 ^ s + 1
     \<and> (sint (page_list_len s sz) - 1) * 2 ^ s < sint sz \<and> sint sz \<le> sint (page_list_len s sz) * 2 ^ s"
proof -
  have "(sint sz - 1) div 2 ^ s * 2 ^ s \<le> sint sz - 1" using div_page(2)[of "sint sz - 1" s] assms by simp
  moreover have "sint sz - 1 < ((sint sz - 1) div 2 ^ s + 1) * 2 ^ s"
  proof -
    have "(sint sz - 1) mod 2 ^ s < 2 ^ s" by simp
    then show ?thesis using div_mult_mod_eq[of "sint sz - 1" "2 ^ s"] by (simp only: distrib_right)
  qed
  ultimately show ?thesis unfolding page_list_len_pages[OF assms] by simp
qed

theorem page_list_len_rounds_up_witness: "sint (page_list_len 12 4097) = 2"
  using page_list_len_rounds_up[of 4097 12] by simp

end
