(* ===== verification/Krping_Data.thy ===== *)
theory Krping_Data
  imports Krping_Setup Kern_Fuel
begin

unbundle bit_operations_syntax

text \<open>
  The data path of the ping module (\<^verbatim>\<open>bak/krping.c\<close>): registration of a buffer under a new key, the advertisement
  sent to the peer, what a received advertisement does, the completion handler and the manual flush
  of a queue pair. \<open>htonll\<close> and \<open>ntohll\<close> are both \<open>cpu_to_be64\<close> in \<^verbatim>\<open>bak/krping.h\<close>; \<open>ntohl\<close> is the same conversion
  as \<open>htonl\<close>. Polling loops have fuel.
\<close>

section \<open>Registration and advertisement\<close>

definition IB_ACCESS_LOCAL_WRITE :: u32 where
  "IB_ACCESS_LOCAL_WRITE = 1"

definition IB_ACCESS_REMOTE_WRITE :: u32 where
  "IB_ACCESS_REMOTE_WRITE = 2"

definition IB_ACCESS_REMOTE_READ :: u32 where
  "IB_ACCESS_REMOTE_READ = 4"

text \<open>The chain that starts at \<open>invalidate_wr\<close>, and the registration request alone.\<close>

definition reg_chain :: "bool \<Rightarrow> krping_cb \<Rightarrow> posted_wr list" where
  "reg_chain post_inv cb =
     (if post_inv
      then WrInv (kc_invalidate_wr cb) # (if inv_next (kc_invalidate_wr cb) then [WrReg (kc_reg_mr_wr cb)] else [])
      else [WrReg (kc_reg_mr_wr cb)])"

definition krping_rdma_rkey :: "kpapi \<Rightarrow> addr \<Rightarrow> u64 \<Rightarrow> bool \<Rightarrow> (world, u32) kern" where
  "krping_rdma_rkey kp cbp buf post_inv =
     bindK (get_kcb cbp) (\<lambda>cb.
     bindK (load w_mrs (kc_reg_mr cb)) (\<lambda>mr.
     thenK (upd_kcb cbp (\<lambda>c. c\<lparr>kc_invalidate_wr := (kc_invalidate_wr c)\<lparr>inv_rkey := mr_rkey mr\<rparr>\<rparr>))
     (thenK (upd_kcb cbp (\<lambda>c. c\<lparr>kc_key := kc_key c + 1\<rparr>))
     (bindK (get_kcb cbp) (\<lambda>cb.
      thenK (ib_update_fast_reg_key kp (kc_reg_mr cb) (kc_key cb))
      (bindK (load w_mrs (kc_reg_mr cb)) (\<lambda>mr.
       thenK (upd_kcb cbp (\<lambda>c. c\<lparr>kc_reg_mr_wr := (kc_reg_mr_wr c)\<lparr>reg_key := mr_rkey mr\<rparr>\<rparr>))
       (thenK (if buf = kc_start_dma_addr cb
               then upd_kcb cbp (\<lambda>c. c\<lparr>kc_reg_mr_wr := (kc_reg_mr_wr c)\<lparr>reg_access := IB_ACCESS_REMOTE_READ\<rparr>\<rparr>)
               else upd_kcb cbp (\<lambda>c. c\<lparr>kc_reg_mr_wr := (kc_reg_mr_wr c)\<lparr>reg_access := IB_ACCESS_REMOTE_WRITE OR IB_ACCESS_LOCAL_WRITE\<rparr>\<rparr>))
       (bindK (getK (\<lambda>w. ib_map_mr_sg_ret kp w (kc_reg_mr cb) buf (kc_size cb))) (\<lambda>ret.
        if sint ret \<le> 0 \<or> sint (kc_page_list_len cb) < sint ret then failK BugOn
        else
          bindK (get_kcb cbp) (\<lambda>cb.
          bindK (post_wrs kp (kc_qp cb) (reg_chain post_inv cb)) (\<lambda>ret.
          thenK (if ret \<noteq> 0 then kset_state cbp TS_ERROR else returnK ())
          (bindK (load w_mrs (kc_reg_mr cb)) (\<lambda>mr. returnK (mr_rkey mr)))))))))))))))"

definition krping_format_send :: "kapi \<Rightarrow> kpapi \<Rightarrow> addr \<Rightarrow> u64 \<Rightarrow> (world, unit) kern" where
  "krping_format_send api kp cbp buf =
     bindK (get_kcb cbp) (\<lambda>cb.
     bindK (krping_rdma_rkey kp cbp buf (kc_server_invalidate cb = 0)) (\<lambda>rkey.
     upd_kcb cbp (\<lambda>c. c\<lparr>kc_send_buf := \<lparr>info_buf = cpu_to_be64 api buf, info_rkey = htonl kp rkey, info_size = htonl kp (kc_size c)\<rparr>\<rparr>)))"

section \<open>Receiving an advertisement\<close>

definition server_recv :: "kapi \<Rightarrow> kpapi \<Rightarrow> addr \<Rightarrow> ib_wc \<Rightarrow> (world, c_int) kern" where
  "server_recv api kp cbp wc =
     (if wc_byte_len wc \<noteq> of_nat INFO_BYTES then returnK (- 1)
      else
        thenK (upd_kcb cbp (\<lambda>c. c\<lparr>kc_remote_rkey := htonl kp (info_rkey (kc_recv_buf c)),
          kc_remote_addr := cpu_to_be64 api (info_buf (kc_recv_buf c)), kc_remote_len := htonl kp (info_size (kc_recv_buf c))\<rparr>))
        (bindK (get_kcb cbp) (\<lambda>cb.
         thenK (if kc_state cb \<le> TS_CONNECTED \<or> kc_state cb = TS_RDMA_WRITE_COMPLETE
                then kset_state cbp TS_RDMA_READ_ADV else kset_state cbp TS_RDMA_WRITE_ADV)
         (returnK 0))))"

definition client_recv :: "addr \<Rightarrow> ib_wc \<Rightarrow> (world, c_int) kern" where
  "client_recv cbp wc =
     (if wc_byte_len wc \<noteq> of_nat INFO_BYTES then returnK (- 1)
      else
        bindK (get_kcb cbp) (\<lambda>cb.
        thenK (if kc_state cb = TS_RDMA_READ_ADV then kset_state cbp TS_RDMA_WRITE_ADV else kset_state cbp TS_RDMA_WRITE_COMPLETE)
        (returnK 0)))"

section \<open>Completions\<close>

abbreviation (input) upd_stats :: "addr \<Rightarrow> (krping_stats \<Rightarrow> krping_stats) \<Rightarrow> (world, unit) kern" where
  "upd_stats cbp f \<equiv> upd_kcb cbp (\<lambda>c. c\<lparr>kc_stats := f (kc_stats c)\<rparr>)"

definition krping_cq_error :: "addr \<Rightarrow> (world, unit) kern" where
  "krping_cq_error cbp = thenK (kset_state cbp TS_ERROR) (wake_up_kcb cbp)"

text \<open>One successful completion; the result says whether the code jumps to the error label.\<close>

definition krping_recv_wc :: "kapi \<Rightarrow> kpapi \<Rightarrow> addr \<Rightarrow> ib_wc \<Rightarrow> (world, bool) kern" where
  "krping_recv_wc api kp cbp wc =
     thenK (upd_stats cbp (\<lambda>s. s\<lparr>recv_bytes := recv_bytes s + of_nat INFO_BYTES, recv_msgs := recv_msgs s + 1\<rparr>))
     (bindK (get_kcb cbp) (\<lambda>cb.
      bindK (if kc_server cb \<noteq> 0 then server_recv api kp cbp wc else client_recv cbp wc) (\<lambda>ret.
      if ret \<noteq> 0 then returnK True
      else
        bindK (get_kcb cbp) (\<lambda>cb.
        bindK (ib_post_recv api (kc_qp cb) (kc_rq_wr cb)) (\<lambda>ret.
        if ret \<noteq> 0 then returnK True else thenK (wake_up_kcb cbp) (returnK False))))))"

definition krping_handle_wc :: "kapi \<Rightarrow> kpapi \<Rightarrow> addr \<Rightarrow> ib_wc \<Rightarrow> (world, bool) kern" where
  "krping_handle_wc api kp cbp wc =
     (case wc_opcode wc of
        IB_WC_SEND \<Rightarrow>
          thenK (upd_kcb cbp (\<lambda>c. c\<lparr>kc_stats := (kc_stats c)\<lparr>
            send_bytes := send_bytes (kc_stats c) + ucast (sge_length (kc_send_sgl c)), send_msgs := send_msgs (kc_stats c) + 1\<rparr>\<rparr>))
          (returnK False)
      | IB_WC_RDMA_WRITE \<Rightarrow>
          bindK (get_kcb cbp) (\<lambda>cb.
          case kc_rdma_sg_list cb of
            None \<Rightarrow> failK NullDeref
          | Some sge \<Rightarrow>
              thenK (upd_stats cbp (\<lambda>s. s\<lparr>write_bytes := write_bytes s + ucast (sge_length sge), write_msgs := write_msgs s + 1\<rparr>))
              (thenK (kset_state cbp TS_RDMA_WRITE_COMPLETE) (thenK (wake_up_kcb cbp) (returnK False))))
      | IB_WC_RDMA_READ \<Rightarrow>
          bindK (get_kcb cbp) (\<lambda>cb.
          case kc_rdma_sg_list cb of
            None \<Rightarrow> failK NullDeref
          | Some sge \<Rightarrow>
              thenK (upd_stats cbp (\<lambda>s. s\<lparr>read_bytes := read_bytes s + ucast (sge_length sge), read_msgs := read_msgs s + 1\<rparr>))
              (thenK (kset_state cbp TS_RDMA_READ_COMPLETE) (thenK (wake_up_kcb cbp) (returnK False))))
      | IB_WC_RECV \<Rightarrow> krping_recv_wc api kp cbp wc
      | IB_WC_OTHER _ \<Rightarrow> returnK True)"

text \<open>One iteration of the polling loop; the result says whether the loop goes on.\<close>

definition krping_cq_once :: "kapi \<Rightarrow> kpapi \<Rightarrow> addr \<Rightarrow> (world, bool) kern" where
  "krping_cq_once api kp cbp =
     bindK (get_kcb cbp) (\<lambda>cb.
     bindK (poll_cq kp (kc_cq cb)) (\<lambda>(ret, wc).
     if ret \<noteq> 1 then
       (if ret \<noteq> 0 then thenK (krping_cq_error cbp) (returnK False) else returnK False)
     else case wc_status wc of
       IB_WC_WR_FLUSH_ERR \<Rightarrow> returnK True
     | IB_WC_OTHER_ERR _ \<Rightarrow> thenK (krping_cq_error cbp) (returnK False)
     | IB_WC_SUCCESS \<Rightarrow>
         bindK (krping_handle_wc api kp cbp wc) (\<lambda>err.
         if err then thenK (krping_cq_error cbp) (returnK False) else returnK True)))"

primrec krping_cq_loop :: "nat \<Rightarrow> kapi \<Rightarrow> kpapi \<Rightarrow> addr \<Rightarrow> (world, unit) kern" where
  "krping_cq_loop 0 api kp cbp = failK OutOfFuel"
| "krping_cq_loop (Suc n) api kp cbp =
     bindK (krping_cq_once api kp cbp) (\<lambda>go. if go then krping_cq_loop n api kp cbp else returnK ())"

definition krping_cq_event_handler :: "nat \<Rightarrow> kapi \<Rightarrow> kpapi \<Rightarrow> addr \<Rightarrow> addr \<Rightarrow> (world, unit) kern" where
  "krping_cq_event_handler fuel api kp cq ctx =
     bindK (get_kcb ctx) (\<lambda>cb.
     if kc_cq cb \<noteq> cq then failK BugOn
     else if kc_state cb = TS_ERROR then returnK ()
     else if kc_frtest cb \<noteq> 0 then returnK ()
     else thenK (ib_req_notify_cq api (kc_cq cb)) (krping_cq_loop fuel api kp ctx))"

text \<open>What the environment runs while a thread of the module sleeps.\<close>

definition krping_intr :: "nat \<Rightarrow> kapi \<Rightarrow> kpapi \<Rightarrow> env_event \<Rightarrow> (world, unit) kern" where
  "krping_intr fuel api kp e =
     (case e of
        CmEvent cid ev \<Rightarrow> kcm_deliver api cid ev
      | CqEvent cq \<Rightarrow> bindK (load w_cqs cq) (\<lambda>c. krping_cq_event_handler fuel api kp cq (cq_context c))
      | SignalEvent \<Rightarrow> returnK ())"

section \<open>Flushing the queue pair\<close>

definition flush_send_id :: u64 where
  "flush_send_id = 0xdeadbeefcafebabe"

definition flush_recv_id :: u64 where
  "flush_recv_id = 0xcafebabedeadbeef"

primrec flush_loop :: "nat \<Rightarrow> kpapi \<Rightarrow> addr \<Rightarrow> nat \<Rightarrow> (world, unit) kern" where
  "flush_loop 0 kp cbp flushed = failK OutOfFuel"
| "flush_loop (Suc n) kp cbp flushed =
     bindK (get_kcb cbp) (\<lambda>cb.
     bindK (poll_cq kp (kc_cq cb)) (\<lambda>(ret, wc).
     if sint ret < 0 then returnK ()
     else
       let flushed' = (if ret \<noteq> 0 \<and> (wc_wr_id wc = flush_send_id \<or> wc_wr_id wc = flush_recv_id) then Suc flushed else flushed)
       in if flushed' \<noteq> 2 then flush_loop n kp cbp flushed' else returnK ()))"

definition flush_qp :: "nat \<Rightarrow> kapi \<Rightarrow> kpapi \<Rightarrow> addr \<Rightarrow> (world, unit) kern" where
  "flush_qp fuel api kp cbp =
     bindK (get_kcb cbp) (\<lambda>cb.
     thenK (rdma_disconnect (kc_cm_id cb))
     (bindK (post_wrs kp (kc_qp cb) [WrSend (zero_send_wr\<lparr>swr_opcode := IB_WR_SEND, swr_wr_id := flush_send_id\<rparr>)]) (\<lambda>ret.
      if ret \<noteq> 0 then returnK ()
      else
        bindK (ib_post_recv api (kc_qp cb) (zero_recv_wr\<lparr>rwr_wr_id := flush_recv_id\<rparr>)) (\<lambda>ret.
        if ret \<noteq> 0 then returnK () else flush_loop fuel kp cbp 0))))"

section \<open>What registration does\<close>

definition reg_acc :: "u64 \<Rightarrow> krping_cb \<Rightarrow> u32" where
  "reg_acc buf cb = (if buf = kc_start_dma_addr cb then IB_ACCESS_REMOTE_READ else IB_ACCESS_REMOTE_WRITE OR IB_ACCESS_LOCAL_WRITE)"

text \<open>The control block and the state when the registration is posted.\<close>

definition reg_cb :: "kpapi \<Rightarrow> u64 \<Rightarrow> ib_mr \<Rightarrow> krping_cb \<Rightarrow> krping_cb" where
  "reg_cb kp buf mr cb = cb\<lparr>kc_invalidate_wr := (kc_invalidate_wr cb)\<lparr>inv_rkey := mr_rkey mr\<rparr>,
     kc_key := kc_key cb + 1,
     kc_reg_mr_wr := (kc_reg_mr_wr cb)\<lparr>reg_key := fast_reg_key kp (mr_rkey mr) (kc_key cb + 1), reg_access := reg_acc buf cb\<rparr>\<rparr>"

definition reg_world :: "kpapi \<Rightarrow> addr \<Rightarrow> u64 \<Rightarrow> ib_mr \<Rightarrow> krping_cb \<Rightarrow> world \<Rightarrow> world" where
  "reg_world kp cbp buf mr cb w = w\<lparr>w_mrs := (w_mrs w)(kc_reg_mr cb \<mapsto> mr\<lparr>mr_rkey := fast_reg_key kp (mr_rkey mr) (kc_key cb + 1)\<rparr>),
     w_kcbs := (w_kcbs w)(cbp \<mapsto> reg_cb kp buf mr cb)\<rparr>"

definition map_ok :: "kpapi \<Rightarrow> addr \<Rightarrow> u64 \<Rightarrow> ib_mr \<Rightarrow> krping_cb \<Rightarrow> world \<Rightarrow> bool" where
  "map_ok kp cbp buf mr cb w \<longleftrightarrow>
     (let n = sint (ib_map_mr_sg_ret kp (reg_world kp cbp buf mr cb w) (kc_reg_mr cb) buf (kc_size cb))
      in 0 < n \<and> n \<le> sint (kc_page_list_len cb))"

lemma rkey_run:
  assumes cb: "cbp \<noteq> 0" "w_kcbs w cbp = Some cb" and mr: "kc_reg_mr cb \<noteq> 0" "w_mrs w (kc_reg_mr cb) = Some mr"
    and qp: "kc_qp cb \<noteq> 0" "w_qps w (kc_qp cb) = Some v" and ok: "map_ok kp cbp buf mr cb w"
  shows "krping_rdma_rkey kp cbp buf post w =
     (let wrs = reg_chain post (reg_cb kp buf mr cb); r = post_wrs_ret kp (reg_world kp cbp buf mr cb w) (kc_qp cb) wrs;
          w1 = reg_world kp cbp buf mr cb w
      in Inr (fast_reg_key kp (mr_rkey mr) (kc_key cb + 1),
         if r = 0 then w1\<lparr>w_trace := EvPostWrs (kc_qp cb) wrs # w_trace w\<rparr>
         else w1\<lparr>w_kcbs := (w_kcbs w)(cbp \<mapsto> (reg_cb kp buf mr cb)\<lparr>kc_state := TS_ERROR\<rparr>)\<rparr>))"
proof -
  have n: "\<not> (sint n \<le> 0 \<or> sint (kc_page_list_len cb) < sint n)"
    if "n = ib_map_mr_sg_ret kp (reg_world kp cbp buf mr cb w) (kc_reg_mr cb) buf (kc_size cb)" for n
    using ok that by (simp add: map_ok_def Let_def)
  note n' = n[OF refl, unfolded reg_world_def reg_cb_def reg_acc_def]
  show ?thesis
  proof (cases "buf = kc_start_dma_addr cb")
    case True
    then show ?thesis
      using cb mr qp n' unfolding krping_rdma_rkey_def ib_update_fast_reg_key_def
      by (simp add: run_simps Let_def reg_world_def reg_cb_def reg_acc_def)
  next
    case False
    then show ?thesis
      using cb mr qp n' unfolding krping_rdma_rkey_def ib_update_fast_reg_key_def
      by (simp add: run_simps Let_def reg_world_def reg_cb_def reg_acc_def)
  qed
qed

lemma format_send_run:
  assumes cb: "cbp \<noteq> 0" "w_kcbs w cbp = Some cb" and mr: "kc_reg_mr cb \<noteq> 0" "w_mrs w (kc_reg_mr cb) = Some mr"
    and qp: "kc_qp cb \<noteq> 0" "w_qps w (kc_qp cb) = Some v" and ok: "map_ok kp cbp buf mr cb w"
  shows "krping_format_send api kp cbp buf w =
     (let rkey = fast_reg_key kp (mr_rkey mr) (kc_key cb + 1); wrs = reg_chain (kc_server_invalidate cb = 0) (reg_cb kp buf mr cb);
          w1 = reg_world kp cbp buf mr cb w; r = post_wrs_ret kp w1 (kc_qp cb) wrs;
          cb1 = (if r = 0 then reg_cb kp buf mr cb else (reg_cb kp buf mr cb)\<lparr>kc_state := TS_ERROR\<rparr>)
               \<lparr>kc_send_buf := \<lparr>info_buf = cpu_to_be64 api buf, info_rkey = htonl kp rkey, info_size = htonl kp (kc_size cb)\<rparr>\<rparr>
      in Inr ((), w\<lparr>w_mrs := (w_mrs w)(kc_reg_mr cb \<mapsto> mr\<lparr>mr_rkey := rkey\<rparr>), w_kcbs := (w_kcbs w)(cbp \<mapsto> cb1),
           w_trace := (if r = 0 then [EvPostWrs (kc_qp cb) wrs] else []) @ w_trace w\<rparr>))"
proof -
  note rk = rkey_run[OF assms, of "kc_server_invalidate cb = 0"]
  show ?thesis
    using cb by (simp add: krping_format_send_def bindK_load bindK_Inr[where m = "krping_rdma_rkey kp cbp buf (kc_server_invalidate cb = 0)", OF rk[unfolded Let_def]] modify_at_def reg_world_def reg_cb_def Let_def)
qed

lemma server_recv_run:
  assumes "sbp \<noteq> 0" and "w_kcbs w sbp = Some scb" and "wc_byte_len wc = of_nat INFO_BYTES"
  shows "server_recv api kp sbp wc w = Inr (0, w\<lparr>w_kcbs := (w_kcbs w)(sbp \<mapsto> scb\<lparr>
     kc_remote_rkey := htonl kp (info_rkey (kc_recv_buf scb)), kc_remote_addr := cpu_to_be64 api (info_buf (kc_recv_buf scb)),
     kc_remote_len := htonl kp (info_size (kc_recv_buf scb)),
     kc_state := (if kc_state scb \<le> TS_CONNECTED \<or> kc_state scb = TS_RDMA_WRITE_COMPLETE then TS_RDMA_READ_ADV else TS_RDMA_WRITE_ADV)\<rparr>)\<rparr>)"
  using assms by (simp add: server_recv_def run_simps)

section \<open>Memory the device writes\<close>

lemma apply_fill_sel [simp]:
  "w_trace (apply_fill f w) = w_trace w" "w_pending (apply_fill f w) = w_pending w" "w_pds (apply_fill f w) = w_pds w"
  "w_cqs (apply_fill f w) = w_cqs w" "w_qps (apply_fill f w) = w_qps w" "w_mrs (apply_fill f w) = w_mrs w"
  "w_dmas (apply_fill f w) = w_dmas w" "w_cmids (apply_fill f w) = w_cmids w" "w_klist (apply_fill f w) = w_klist w"
  by (cases f; simp add: apply_fill_def split: option.splits)+

lemma fold_fill_sel [simp]:
  "w_trace (fold apply_fill fs w) = w_trace w" "w_pending (fold apply_fill fs w) = w_pending w" "w_pds (fold apply_fill fs w) = w_pds w"
  "w_cqs (fold apply_fill fs w) = w_cqs w" "w_qps (fold apply_fill fs w) = w_qps w" "w_mrs (fold apply_fill fs w) = w_mrs w"
  "w_dmas (fold apply_fill fs w) = w_dmas w" "w_cmids (fold apply_fill fs w) = w_cmids w" "w_klist (fold apply_fill fs w) = w_klist w"
  by (induction fs arbitrary: w) simp_all

section \<open>Polling ends\<close>

lemma fuel_safe_kcalls [fuel_rules]: "fuel_safe (wake_up_kcb cbp)" "fuel_safe (krping_cq_error cbp)"
  unfolding wake_up_kcb_def krping_cq_error_def by (intro fuel_rules; simp)+

lemma fuel_safe_krecv: "fuel_safe (server_recv api kp cbp wc)" "fuel_safe (client_recv cbp wc)"
  unfolding server_recv_def client_recv_def by (intro fuel_rules; simp)+

lemma fuel_safe_option [fuel_rules]: "fuel_safe n \<Longrightarrow> (\<And>x. fuel_safe (f x)) \<Longrightarrow> fuel_safe (case o' of None \<Rightarrow> n | Some x \<Rightarrow> f x)"
  by (cases o') simp_all

lemma fuel_safe_kupd [fuel_rules]: "fuel_safe (upd_kcb cbp f)"
  by (rule fuel_rules) simp

lemma fuel_safe_khandle: "fuel_safe (krping_handle_wc api kp cbp wc)"
  unfolding krping_handle_wc_def krping_recv_wc_def
  by (cases "wc_opcode wc"; simp) (intro fuel_rules fuel_safe_krecv; simp)+

lemma kpoll_Inr:
  assumes "poll_cq kp q w = Inr ((r, wc), w')"
  shows "r = fst (poll_ret kp w q) \<and> w_trace w' = EvPoll q r # w_trace w"
  using assms by (auto simp: poll_cq_def thenK_eq_Inr bindK_eq_Inr cqs.load_Inr log_ev_def split: prod.splits)

lemma kpoll_fuel: "poll_cq kp q w \<noteq> Inl OutOfFuel"
  by (auto simp: poll_cq_def thenK_def bindK_def load_def log_ev_def split: option.splits sum.splits prod.splits)

lemma kcq_error_Inr:
  "krping_cq_error cbp w = Inr (u, w') \<Longrightarrow>
   (\<exists>cb. w_kcbs w' cbp = Some cb \<and> kc_state cb = TS_ERROR) \<and> (\<exists>t. w_trace w' = EvWake cbp # t)"
  by (auto simp: krping_cq_error_def wake_up_kcb_def thenK_eq_Inr kcbs.modify_Inr kcbs.load_Inr log_ev_def)

text \<open>The outcomes of one iteration.\<close>

lemma kcq_once_outcome:
  assumes "krping_cq_once api kp cbp w = Inr (go, w')"
  shows "\<exists>q r wc w1. poll_cq kp q w = Inr ((r, wc), w1) \<and>
     (go \<and> r = 1 \<and> (w' = w1 \<or> krping_handle_wc api kp cbp wc w1 = Inr (False, w'))
      \<or> \<not> go \<and> r = 0 \<and> w' = w1 \<or> \<not> go \<and> (\<exists>w2 u. krping_cq_error cbp w2 = Inr (u, w')))"
proof -
  from assms obtain cb :: krping_cb and r wc w1 where p: "poll_cq kp (kc_cq cb) w = Inr ((r, wc), w1)"
    and rest: "(if r \<noteq> 1 then
       (if r \<noteq> 0 then thenK (krping_cq_error cbp) (returnK False) else returnK False)
     else case wc_status wc of
       IB_WC_WR_FLUSH_ERR \<Rightarrow> returnK True
     | IB_WC_OTHER_ERR _ \<Rightarrow> thenK (krping_cq_error cbp) (returnK False)
     | IB_WC_SUCCESS \<Rightarrow>
         bindK (krping_handle_wc api kp cbp wc) (\<lambda>err.
         if err then thenK (krping_cq_error cbp) (returnK False) else returnK True)) w1 = Inr (go, w')"
    unfolding krping_cq_once_def by (auto simp: bindK_eq_Inr kcbs.load_Inr)
  have "go \<and> r = 1 \<and> (w' = w1 \<or> krping_handle_wc api kp cbp wc w1 = Inr (False, w'))
      \<or> \<not> go \<and> r = 0 \<and> w' = w1 \<or> \<not> go \<and> (\<exists>w2 u. krping_cq_error cbp w2 = Inr (u, w'))"
  proof (cases "wc_status wc")
    case IB_WC_SUCCESS
    then show ?thesis using rest by (auto simp: bindK_eq_Inr thenK_eq_Inr split: if_splits)
  qed (use rest in \<open>auto simp: thenK_eq_Inr split: if_splits\<close>)
  then show ?thesis using p by blast
qed

lemma kcq_once_fuel: "krping_cq_once api kp cbp w \<noteq> Inl OutOfFuel"
  using fuel_safe_khandle[of api kp cbp] fuel_safe_kcalls(2)[of cbp] kpoll_fuel
  unfolding krping_cq_once_def fuel_safe_def
  by (auto simp: bindK_def thenK_def load_def split: option.splits sum.splits prod.splits ib_wc_status.splits)

lemma kcq_once_polls:
  assumes "krping_cq_once api kp cbp w = Inr (True, w')"
  shows "polls w < polls w' \<and> (\<exists>q. fst (poll_ret kp w q) = 1)"
proof -
  from kcq_once_outcome[OF assms] obtain q wc w1 where p: "poll_cq kp q w = Inr ((1, wc), w1)"
    and rest: "w' = w1 \<or> krping_handle_wc api kp cbp wc w1 = Inr (False, w')" by auto
  have "polls w1 \<le> polls w'" using rest fuel_safe_khandle[of api kp cbp wc] by (auto simp: fuel_safe_def)
  moreover have "polls w1 = Suc (polls w)" "fst (poll_ret kp w q) = 1" using kpoll_Inr[OF p] by (simp_all add: polls_def is_poll_def)
  ultimately show ?thesis by (metis Suc_le_lessD)
qed

definition kcq_iter :: "kapi \<Rightarrow> kpapi \<Rightarrow> addr \<Rightarrow> unit \<Rightarrow> (world, unit + unit) kern" where
  "kcq_iter api kp cbp u = bindK (krping_cq_once api kp cbp) (\<lambda>go. returnK (if go then Inr () else Inl ()))"

lemma kcq_loop_fuel_loop: "krping_cq_loop n api kp cbp = fuel_loop n (kcq_iter api kp cbp) ()"
  by (induction n) (simp_all add: kcq_iter_def bindK_assoc if_distrib[of "case_sum _ _"] cong: if_cong)

interpretation kcq: polling "kcq_iter api kp cbp" "\<lambda>w. \<exists>q. fst (poll_ret kp w q) = 1"
proof unfold_locales
  show "kcq_iter api kp cbp c w \<noteq> Inl OutOfFuel" for c w
    using kcq_once_fuel[of api kp cbp w] by (auto simp: kcq_iter_def bindK_def split: sum.splits)
  show "kcq_iter api kp cbp c w = Inr (Inr c', w') \<Longrightarrow> polls w < polls w' \<and> (\<exists>q. fst (poll_ret kp w q) = 1)" for c w c' w'
    using kcq_once_polls[of api kp cbp w w'] by (auto simp: kcq_iter_def bindK_eq_Inr split: if_splits)
qed

lemma kcq_loop_outcome:
  assumes "krping_cq_loop n api kp cbp w = Inr (u, w')"
  shows "(\<exists>cb. w_kcbs w' cbp = Some cb \<and> kc_state cb = TS_ERROR) \<and> (\<exists>t. w_trace w' = EvWake cbp # t)
     \<or> (\<exists>q t. w_trace w' = EvPoll q 0 # t)"
  using assms
proof (induction n arbitrary: w)
  case (Suc n)
  then obtain go w1 where once: "krping_cq_once api kp cbp w = Inr (go, w1)"
    and cont: "(if go then krping_cq_loop n api kp cbp else returnK ()) w1 = Inr (u, w')"
    by (auto simp: bindK_eq_Inr)
  show ?case
  proof (cases go)
    case True
    then show ?thesis using Suc.IH cont by simp
  next
    case False
    then have "w' = w1" using cont by simp
    then show ?thesis using kcq_once_outcome[OF once] False kcq_error_Inr kpoll_Inr by fastforce
  qed
qed simp

section \<open>One receive completion\<close>

text \<open>A device that reports one receive completion after each interrupt, and nothing else.\<close>

definition one_recv :: "kpapi \<Rightarrow> addr \<Rightarrow> ib_wc \<Rightarrow> bool" where
  "one_recv kp cq wc \<longleftrightarrow> wc_status wc = IB_WC_SUCCESS \<and> wc_opcode wc = IB_WC_RECV \<and> wc_byte_len wc = of_nat INFO_BYTES
     \<and> (\<forall>w. poll_ret kp w cq = (if take 1 (w_trace w) = [EvNotify cq] then (1, wc, []) else (0, wc, [])))"

definition recv_cb :: "krping_cb \<Rightarrow> krping_cb" where
  "recv_cb cb = cb\<lparr>kc_stats := (kc_stats cb)\<lparr>recv_bytes := recv_bytes (kc_stats cb) + of_nat INFO_BYTES, recv_msgs := recv_msgs (kc_stats cb) + 1\<rparr>,
     kc_state := (if kc_state cb = TS_RDMA_READ_ADV then TS_RDMA_WRITE_ADV else TS_RDMA_WRITE_COMPLETE)\<rparr>"

definition recv_trace :: "addr \<Rightarrow> krping_cb \<Rightarrow> event list" where
  "recv_trace cbp cb = [EvPoll (kc_cq cb) 0, EvWake cbp, EvPostRecv (kc_qp cb) (kc_rq_wr cb), EvPoll (kc_cq cb) 1, EvNotify (kc_cq cb)]"

lemma krecv_run:
  assumes cb: "cbp \<noteq> 0" "w_kcbs w cbp = Some cb" and cq: "kc_cq cb \<noteq> 0" "w_cqs w (kc_cq cb) = Some \<lparr>cq_context = cbp\<rparr>"
    and qp: "kc_qp cb \<noteq> 0" "w_qps w (kc_qp cb) = Some v" and st: "kc_state cb \<noteq> TS_ERROR" "kc_frtest cb = 0" "kc_server cb = 0"
    and dev: "one_recv kp (kc_cq cb) wc" and post: "\<And>w wr. ib_post_recv_ret api w (kc_qp cb) wr = 0"
  shows "krping_intr (Suc (Suc fuel)) api kp (CqEvent (kc_cq cb)) w =
     Inr ((), w\<lparr>w_kcbs := (w_kcbs w)(cbp \<mapsto> recv_cb cb), w_trace := recv_trace cbp cb @ w_trace w\<rparr>)"
proof -
  have wc: "wc_status wc = IB_WC_SUCCESS" "wc_opcode wc = IB_WC_RECV" "wc_byte_len wc = of_nat INFO_BYTES"
    and poll: "\<And>w. poll_ret kp w (kc_cq cb) = (if take 1 (w_trace w) = [EvNotify (kc_cq cb)] then (1, wc, []) else (0, wc, []))"
    using dev by (simp_all add: one_recv_def)
  let ?cb = "recv_cb cb"
  let ?w0 = "w\<lparr>w_trace := EvNotify (kc_cq cb) # w_trace w\<rparr>"
  let ?w1 = "w\<lparr>w_kcbs := (w_kcbs w)(cbp \<mapsto> recv_cb cb), w_trace := tl (recv_trace cbp cb) @ w_trace w\<rparr>"
  let ?w2 = "w\<lparr>w_kcbs := (w_kcbs w)(cbp \<mapsto> recv_cb cb), w_trace := recv_trace cbp cb @ w_trace w\<rparr>"
  have p1: "poll_ret kp ?w0 (kc_cq cb) = (1, wc, [])" by (simp add: poll)
  have p2: "poll_ret kp ?w1 (kc_cq cb) = (0, wc, [])" by (simp add: poll recv_trace_def)
  have "krping_cq_once api kp cbp ?w0 = Inr (True, ?w1)"
    using cb cq qp st
    by (simp add: krping_cq_once_def run_simps bindK_poll_cq[OF _ _ p1] wc krping_handle_wc_def krping_recv_wc_def client_recv_def
        post Let_def recv_cb_def recv_trace_def)
  moreover have "krping_cq_once api kp cbp ?w1 = Inr (False, ?w2)"
    using cb cq
    by (simp add: krping_cq_once_def run_simps recv_cb_def bindK_poll_cq[OF _ _ p2[unfolded recv_cb_def]]) (simp add: recv_trace_def)
  ultimately have loop: "krping_cq_loop (Suc (Suc fuel)) api kp cbp ?w0 = Inr ((), ?w2)" by (simp add: bindK_def)
  show ?thesis
    using cb cq st
    by (simp add: krping_intr_def krping_cq_event_handler_def run_simps thenK_def ib_req_notify_cq_run del: krping_cq_loop.simps)
      (simp add: loop del: krping_cq_loop.simps)
qed

section \<open>A concrete ping\<close>

definition kping_cb :: krping_cb where
  "kping_cb = (kbuf_cb 64 \<lparr>pd_device = 0x2000, local_dma_lkey = 7\<rparr> 320 448 0xA000 0x10A000 1 0xC000 0xB000 0x10B000 ksample_cb)
     \<lparr>kc_state := TS_CONNECTED, kc_count := 1\<rparr>"

definition kping_world :: "env_event list \<Rightarrow> world" where
  "kping_world es = ksample_qp\<lparr>w_kcbs := [64 \<mapsto> kping_cb, 128 \<mapsto> zero_krping_cb\<lparr>kc_server := 1, kc_state := TS_CONNECTED\<rparr>],
     w_mrs := [0xC000 \<mapsto> \<lparr>mr_rkey = 0x1200\<rparr>], w_bytes := [0xA000 \<mapsto> replicate 64 0, 0xB000 \<mapsto> replicate 64 0],
     w_dmas := [320 \<mapsto> (320, 16), 448 \<mapsto> (448, 16)], w_pending := es\<rparr>"

lemma kping_cb_sel:
  "kc_reg_mr kping_cb = 0xC000" "kc_qp kping_cb = 0x5000" "kc_cq kping_cb = 0x4000" "kc_pd kping_cb = 0x3000" "kc_size kping_cb = 64" "kc_key kping_cb = 0"
  "kc_page_list_len kping_cb = 1" "kc_server_invalidate kping_cb = 0" "kc_start_dma_addr kping_cb = 0x10B000" "kc_rdma_dma_addr kping_cb = 0x10A000"
  "inv_next (kc_invalidate_wr kping_cb) = True" "kc_server kping_cb = 0" "kc_frtest kping_cb = 0" "kc_state kping_cb = TS_CONNECTED" "kc_count kping_cb = 1"
  "kc_start_buf kping_cb = 0xB000" "kc_rdma_buf kping_cb = 0xA000" "kc_cm_id kping_cb = 0x6000" "kc_rdma_sg_list kping_cb = None"
  by (simp_all add: kping_cb_def kbuf_cb_def wr_cb_def mapped_cb_def ksample_cb_def zero_krping_cb_def)

lemma kping_world_sel:
  "w_kcbs (kping_world es) 64 = Some kping_cb" "w_kcbs (kping_world es) 128 = Some (zero_krping_cb\<lparr>kc_server := 1, kc_state := TS_CONNECTED\<rparr>)"
  "w_mrs (kping_world es) 0xC000 = Some \<lparr>mr_rkey = 0x1200\<rparr>" "w_qps (kping_world es) 0x5000 = Some \<lparr>qp_attr = krping_qp_attr ksample_cb\<rparr>"
  "w_cqs (kping_world es) 0x4000 = Some \<lparr>cq_context = 64\<rparr>" "w_bytes (kping_world es) 0xB000 = Some (replicate 64 0)"
  "w_pending (kping_world es) = es" "w_trace (kping_world es) = []"
  by (simp_all add: kping_world_def ksample_qp_def empty_world_def)

lemma kping_map_ok: "map_ok sample_kp 64 buf mr kping_cb w"
  by (simp add: map_ok_def sample_kp_def kping_cb_sel)

section \<open>Properties\<close>

text \<open>
  Registering a buffer for the peer: \<open>krping_rdma_rkey\<close> moves the region to the next 8-bit key (which
  wraps after 256 registrations), keeping the rest of its \<open>rkey\<close>, and posts one chain that first
  invalidates the old \<open>rkey\<close> and then registers the new one, for remote reads of the start buffer and
  for remote writes of any other. The new \<open>rkey\<close> is returned even when the chain cannot be posted;
  then the control block is in the error state.
\<close>

theorem krping_rdma_rkey_registers:
  assumes cb: "cbp \<noteq> NULL" "w_kcbs w cbp = Some cb" and mr: "kc_reg_mr cb \<noteq> NULL" "w_mrs w (kc_reg_mr cb) = Some mr"
    and qp: "kc_qp cb \<noteq> NULL" "w_qps w (kc_qp cb) = Some v" and ok: "map_ok kp cbp buf mr cb w"
    and key: "key_sound kp" and wr: "inv_next (kc_invalidate_wr cb)"
  shows "\<exists>k w' cb'. krping_rdma_rkey kp cbp buf True w = Inr (k, w') \<and> w_kcbs w' cbp = Some cb' \<and> kc_key cb' = kc_key cb + 1
     \<and> take_bit 8 k = ucast (kc_key cb + 1) \<and> drop_bit 8 k = drop_bit 8 (mr_rkey mr)
     \<and> w_mrs w' = (w_mrs w)(kc_reg_mr cb \<mapsto> mr\<lparr>mr_rkey := k\<rparr>)
     \<and> (kc_state cb' = TS_ERROR \<and> w_trace w' = w_trace w
        \<or> (\<exists>inv reg. kc_state cb' = kc_state cb \<and> w_trace w' = EvPostWrs (kc_qp cb) [WrInv inv, WrReg reg] # w_trace w
            \<and> inv_rkey inv = mr_rkey mr \<and> reg_key reg = k \<and> reg_mr_ptr reg = reg_mr_ptr (kc_reg_mr_wr cb)
            \<and> reg_access reg = (if buf = kc_start_dma_addr cb then IB_ACCESS_REMOTE_READ
                 else IB_ACCESS_REMOTE_WRITE OR IB_ACCESS_LOCAL_WRITE)))"
proof -
  let ?k = "fast_reg_key kp (mr_rkey mr) (kc_key cb + 1)"
  have k: "take_bit 8 ?k = ucast (kc_key cb + 1)" "drop_bit 8 ?k = drop_bit 8 (mr_rkey mr)" using key by (simp_all add: key_sound_def)
  show ?thesis
    unfolding rkey_run[OF cb mr qp ok] Let_def using wr k
    by (simp add: reg_world_def reg_cb_def reg_chain_def reg_acc_def)
qed

theorem krping_rdma_rkey_registers_witness:
  "\<exists>k w'. krping_rdma_rkey sample_kp 64 0x10B000 True (kping_world []) = Inr (k, w') \<and> take_bit 8 k = 1"
  using krping_rdma_rkey_registers[where cbp = 64 and w = "kping_world []" and cb = kping_cb and buf = "0x10B000",
      OF _ kping_world_sel(1) _ _ _ _ kping_map_ok sample_key_sound]
  by (fastforce simp: kping_cb_sel kping_world_sel)

text \<open>
  C21. The advertisement survives the trip: when a client formats an advertisement for one of its buffers and
  a server receives those 16 bytes, the server's control block holds the address of the buffer, the
  \<open>rkey\<close> the client's region has after registration and the configured size, and the server moves to
  \<open>RDMA_READ_ADV\<close> for the first advertisement of a ping and to \<open>RDMA_WRITE_ADV\<close> for the second.
\<close>

theorem advertisement_round_trip:
  assumes be: "be64_involution api" and hl: "htonl_involution kp"
    and cb: "cbp \<noteq> NULL" "w_kcbs w cbp = Some cb" and mr: "kc_reg_mr cb \<noteq> NULL" "w_mrs w (kc_reg_mr cb) = Some mr"
    and qp: "kc_qp cb \<noteq> NULL" "w_qps w (kc_qp cb) = Some v" and ok: "map_ok kp cbp buf mr cb w"
    and srv: "sbp \<noteq> NULL" "sbp \<noteq> cbp" "w_kcbs w sbp = Some scb"
    and sent: "krping_format_send api kp cbp buf w = Inr ((), w1)" "w_kcbs w1 cbp = Some cb1"
    and w2: "w2 = w1\<lparr>w_kcbs := (w_kcbs w1)(sbp \<mapsto> scb\<lparr>kc_recv_buf := kc_send_buf cb1\<rparr>)\<rparr>"
    and wc: "wc_byte_len wc = of_nat INFO_BYTES"
  shows "\<exists>w3 scb'. server_recv api kp sbp wc w2 = Inr (0, w3) \<and> w_kcbs w3 sbp = Some scb'
     \<and> kc_remote_addr scb' = buf \<and> kc_remote_len scb' = kc_size cb
     \<and> w_mrs w1 (kc_reg_mr cb) = Some \<lparr>mr_rkey = kc_remote_rkey scb'\<rparr>
     \<and> kc_state scb' = (if kc_state scb \<le> TS_CONNECTED \<or> kc_state scb = TS_RDMA_WRITE_COMPLETE then TS_RDMA_READ_ADV else TS_RDMA_WRITE_ADV)"
proof -
  let ?k = "fast_reg_key kp (mr_rkey mr) (kc_key cb + 1)"
  have inv: "\<And>x. cpu_to_be64 api (cpu_to_be64 api x) = x" "\<And>x. htonl kp (htonl kp x) = x"
    using be hl by (simp_all add: be64_involution_def htonl_involution_def)
  let ?wrs = "reg_chain (kc_server_invalidate cb = 0) (reg_cb kp buf mr cb)"
  let ?r = "post_wrs_ret kp (reg_world kp cbp buf mr cb w) (kc_qp cb) ?wrs"
  let ?cb1 = "if ?r = 0 then reg_cb kp buf mr cb else (reg_cb kp buf mr cb)\<lparr>kc_state := TS_ERROR\<rparr>"
  have w1: "w1 = w\<lparr>w_mrs := (w_mrs w)(kc_reg_mr cb \<mapsto> mr\<lparr>mr_rkey := ?k\<rparr>), w_kcbs := (w_kcbs w)(cbp \<mapsto> ?cb1\<lparr>kc_send_buf :=
      \<lparr>info_buf = cpu_to_be64 api buf, info_rkey = htonl kp ?k, info_size = htonl kp (kc_size cb)\<rparr>\<rparr>),
      w_trace := (if ?r = 0 then [EvPostWrs (kc_qp cb) ?wrs] else []) @ w_trace w\<rparr>"
    using sent(1) unfolding format_send_run[OF cb mr qp ok] Let_def by (elim sum.inject(2)[THEN iffD1, THEN Pair_inject]) (rule sym)
  have info: "kc_send_buf cb1 = \<lparr>info_buf = cpu_to_be64 api buf, info_rkey = htonl kp ?k, info_size = htonl kp (kc_size cb)\<rparr>"
    and mr1: "w_mrs w1 (kc_reg_mr cb) = Some (mr\<lparr>mr_rkey := ?k\<rparr>)"
    using sent(2) w1 by (auto simp del: if_split_asm)
  let ?scb = "scb\<lparr>kc_recv_buf := kc_send_buf cb1\<rparr>"
  have "w_kcbs w2 sbp = Some ?scb" by (simp add: w2)
  note run = server_recv_run[OF srv(1) this wc]
  have f: "info_rkey (kc_recv_buf ?scb) = htonl kp ?k" "info_buf (kc_recv_buf ?scb) = cpu_to_be64 api buf"
    "info_size (kc_recv_buf ?scb) = htonl kp (kc_size cb)" "kc_state ?scb = kc_state scb" by (simp_all add: info)
  have "mr\<lparr>mr_rkey := ?k\<rparr> = \<lparr>mr_rkey = ?k\<rparr>" by simp
  then show ?thesis unfolding run f inv by (simp add: mr1)
qed

theorem advertisement_round_trip_witness:
  "\<exists>w1 cb1 w3 scb'. krping_format_send sample_api sample_kp 64 0x10B000 (kping_world []) = Inr ((), w1) \<and> w_kcbs w1 64 = Some cb1
     \<and> server_recv sample_api sample_kp 128 (sample_wc\<lparr>wc_byte_len := 16\<rparr>)
         (w1\<lparr>w_kcbs := (w_kcbs w1)(128 \<mapsto> (zero_krping_cb\<lparr>kc_server := 1, kc_state := TS_CONNECTED\<rparr>)\<lparr>kc_recv_buf := kc_send_buf cb1\<rparr>)\<rparr>) = Inr (0, w3)
     \<and> w_kcbs w3 128 = Some scb' \<and> kc_remote_addr scb' = 0x10B000 \<and> kc_remote_len scb' = 64"
proof -
  have P: "(64 :: addr) \<noteq> 0" "kc_reg_mr kping_cb \<noteq> 0" "w_mrs (kping_world []) (kc_reg_mr kping_cb) = Some \<lparr>mr_rkey = 0x1200\<rparr>"
    "kc_qp kping_cb \<noteq> 0" "w_qps (kping_world []) (kc_qp kping_cb) = Some \<lparr>qp_attr = krping_qp_attr ksample_cb\<rparr>"
    "(128 :: addr) \<noteq> 0" "(128 :: addr) \<noteq> 64" "wc_byte_len (sample_wc\<lparr>wc_byte_len := 16\<rparr>) = of_nat INFO_BYTES"
    by (simp_all add: kping_cb_sel kping_world_sel INFO_BYTES_def)
  obtain w1 cb1 where s: "krping_format_send sample_api sample_kp 64 0x10B000 (kping_world []) = Inr ((), w1)" "w_kcbs w1 64 = Some cb1"
    unfolding format_send_run[OF P(1) kping_world_sel(1) P(2-5) kping_map_ok] Let_def by fastforce
  from advertisement_round_trip[OF sample_be64_involution sample_htonl P(1) kping_world_sel(1) P(2-5) kping_map_ok P(6,7) kping_world_sel(2) s refl P(8)]
  show ?thesis using s by (fastforce simp: kping_cb_sel)
qed



text \<open>
  The manual flush ends once the device has reported both flush requests. Let the answers of the device be a
  sequence \<open>ans\<close>, indexed by the number of polls, without a poll error. If two of the next \<open>K\<close> answers
  carry a flush identifier, \<open>K\<close> units of fuel are enough for the loop.
\<close>

definition flush_hit :: "c_int \<times> ib_wc \<Rightarrow> bool" where
  "flush_hit a \<longleftrightarrow> fst a \<noteq> 0 \<and> (wc_wr_id (snd a) = flush_send_id \<or> wc_wr_id (snd a) = flush_recv_id)"

theorem flush_loop_ends:
  assumes "cbp \<noteq> NULL" and "w_kcbs w cbp = Some cb" and "kc_cq cb \<noteq> NULL" and "w_cqs w (kc_cq cb) = Some c"
    and dev: "\<And>w. poll_ret kp w (kc_cq cb) = (fst (ans (polls w)), snd (ans (polls w)), [])" and pos: "\<And>i. 0 \<le> sint (fst (ans i))"
    and "2 \<le> flushed + length (filter (\<lambda>i. flush_hit (ans i)) [polls w..<polls w + K])" and "flushed < 2"
  shows "\<exists>w'. flush_loop K kp cbp flushed w = Inr ((), w')"
  using assms(2,4,7,8)
proof (induction K arbitrary: w flushed)
  case (Suc K)
  let ?a = "ans (polls w)" and ?w = "w\<lparr>w_trace := EvPoll (kc_cq cb) (fst (ans (polls w))) # w_trace w\<rparr>"
  let ?f = "if flush_hit ?a then Suc flushed else flushed"
  have step: "flush_loop (Suc K) kp cbp flushed w = (if ?f \<noteq> 2 then flush_loop K kp cbp ?f ?w else Inr ((), ?w))"
    using assms(1,3) Suc.prems(1,2) pos[of "polls w"] dev[of w]
    by (cases ?a) (simp add: run_simps flush_hit_def Let_def)
  have p: "polls ?w = Suc (polls w)" by (simp add: polls_def is_poll_def)
  have n: "[polls w..<polls w + Suc K] = polls w # [polls ?w..<polls ?w + K]" unfolding p by (simp add: upt_conv_Cons del: upt_Suc)
  show ?case
  proof (cases "?f = 2")
    case False
    then have "?f < 2" using Suc.prems(4) by (auto split: if_splits)
    moreover have "2 \<le> ?f + length (filter (\<lambda>i. flush_hit (ans i)) [polls ?w..<polls ?w + K])"
      using Suc.prems(3) unfolding n by (auto split: if_splits)
    ultimately show ?thesis using Suc.IH[of ?w ?f] Suc.prems(1,2) step False by auto
  qed (use step in auto)
qed simp

end
