(* ===== verification/Krping_Client.thy ===== *)
theory Krping_Client
  imports Krping_Data
begin

unbundle bit_operations_syntax

text \<open>
  The client of the ping module (\<^verbatim>\<open>bak/krping.c\<close>): the text of a ping, the ping loop, and the functions that set
  a client up, run it and release it. The loop runs \<open>count\<close> times, or for ever when \<open>count\<close> is 0, so it
  has fuel. Printing the received data (option \<open>verbose\<close>) is log output and left out.
\<close>

section \<open>The text of a ping\<close>

text \<open>\<open>sprintf\<close> with \<open>%d\<close>: the decimal digits of an \<open>int\<close>.\<close>

fun digits :: "nat \<Rightarrow> byte list" where
  "digits n = (if n < 10 then [48 + of_nat n] else digits (n div 10) @ [48 + of_nat (n mod 10)])"

declare digits.simps [simp del]

definition fmt_d :: "c_int \<Rightarrow> byte list" where
  "fmt_d i = (if sint i < 0 then 45 # digits (nat (- sint i)) else digits (nat (sint i)))"

definition ascii :: "string \<Rightarrow> byte list" where
  "ascii s = map of_char s"

definition ping_text :: "c_int \<Rightarrow> byte list" where
  "ping_text ping = ascii ''rdma-ping-'' @ fmt_d ping @ ascii '': ''"

text \<open>\<open>sprintf\<close> into a buffer writes the text and its terminating zero.\<close>

definition sprintf_buf :: "byte list \<Rightarrow> byte list \<Rightarrow> fault + byte list" where
  "sprintf_buf text buf =
     (if length text < length buf then Inr (text @ 0 # drop (Suc (length text)) buf) else Inl OutOfBounds)"

definition next_char :: "byte \<Rightarrow> byte" where
  "next_char c = (let c = c + 1 in if 122 < c then 65 else c)"

definition next_start :: "c_int \<Rightarrow> c_int" where
  "next_start s = (let s = s + 1 in if 122 < sint s then 65 else s)"

fun fill_loop :: "nat list \<Rightarrow> byte \<Rightarrow> byte list \<Rightarrow> fault + byte list" where
  "fill_loop [] c b = Inr b"
| "fill_loop (i # is) c b = (if i < length b then fill_loop is (next_char c) (b[i := c]) else Inl OutOfBounds)"

definition ping_buffer :: "c_int \<Rightarrow> c_int \<Rightarrow> c_int \<Rightarrow> byte list \<Rightarrow> fault + byte list" where
  "ping_buffer ping start sz buf =
     (case sprintf_buf (ping_text ping) buf of
        Inl e \<Rightarrow> Inl e
      | Inr b \<Rightarrow>
          (case fill_loop [length (ping_text ping)..<iters sz] (ucast start) b of
             Inl e \<Rightarrow> Inl e
           | Inr b \<Rightarrow> if 0 < sint sz \<and> iters sz \<le> length b then Inr (b[iters sz - 1 := 0]) else Inl OutOfBounds))"

definition write_text :: "addr \<Rightarrow> c_int \<Rightarrow> c_int \<Rightarrow> (world, unit) kern" where
  "write_text cbp ping start =
     bindK (get_kcb cbp) (\<lambda>cb.
     bindK (load w_bytes (kc_start_buf cb)) (\<lambda>b.
     case ping_buffer ping start (kc_size cb) b of
       Inl e \<Rightarrow> failK e
     | Inr b' \<Rightarrow> modify_at w_bytes w_bytes_update (kc_start_buf cb) (\<lambda>_. b')))"

section \<open>The ping loop\<close>

text \<open>One ping; the result says whether the loop goes on.\<close>

definition krping_ping ::
    "kapi \<Rightarrow> kpapi \<Rightarrow> (env_event \<Rightarrow> (world, unit) kern) \<Rightarrow> addr \<Rightarrow> c_int \<Rightarrow> c_int \<Rightarrow> (world, bool) kern" where
  "krping_ping api kp intr cbp ping start =
     thenK (kset_state cbp TS_RDMA_READ_ADV)
     (thenK (write_text cbp ping start)
     (bindK (get_kcb cbp) (\<lambda>cb.
      thenK (krping_format_send api kp cbp (kc_start_dma_addr cb))
      (bindK (get_kcb cbp) (\<lambda>cb.
       if kc_state cb = TS_ERROR then returnK False
       else
         bindK (post_wrs kp (kc_qp cb) [WrSend (kc_sq_wr cb)]) (\<lambda>ret.
         if ret \<noteq> 0 then returnK False
         else
           thenK (wait_kcb intr cbp (\<lambda>st. TS_RDMA_WRITE_ADV \<le> st))
           (bindK (get_kcb cbp) (\<lambda>cb.
            if kc_state cb \<noteq> TS_RDMA_WRITE_ADV then returnK False
            else
              thenK (krping_format_send api kp cbp (kc_rdma_dma_addr cb))
              (bindK (get_kcb cbp) (\<lambda>cb.
               bindK (post_wrs kp (kc_qp cb) [WrSend (kc_sq_wr cb)]) (\<lambda>ret.
               if ret \<noteq> 0 then returnK False
               else
                 thenK (wait_kcb intr cbp (\<lambda>st. TS_RDMA_WRITE_COMPLETE \<le> st))
                 (bindK (get_kcb cbp) (\<lambda>cb. returnK (kc_state cb = TS_RDMA_WRITE_COMPLETE))))))))))))))"

primrec ping_loop ::
    "nat \<Rightarrow> kapi \<Rightarrow> kpapi \<Rightarrow> (env_event \<Rightarrow> (world, unit) kern) \<Rightarrow> addr \<Rightarrow> c_int \<Rightarrow> c_int \<Rightarrow> (world, unit) kern" where
  "ping_loop 0 api kp intr cbp ping start = failK OutOfFuel"
| "ping_loop (Suc n) api kp intr cbp ping start =
     bindK (get_kcb cbp) (\<lambda>cb.
     if kc_count cb = 0 \<or> sint ping < sint (kc_count cb) then
       bindK (krping_ping api kp intr cbp ping start) (\<lambda>go.
       if go then ping_loop n api kp intr cbp (ping + 1) (next_start start) else returnK ())
     else returnK ())"

definition krping_test_client ::
    "nat \<Rightarrow> kapi \<Rightarrow> kpapi \<Rightarrow> (env_event \<Rightarrow> (world, unit) kern) \<Rightarrow> addr \<Rightarrow> (world, unit) kern" where
  "krping_test_client fuel api kp intr cbp = ping_loop fuel api kp intr cbp 0 65"

text \<open>The variant for the RPC test does one ping, whose number is the uninitialised variable \<open>ping\<close>.\<close>

definition krping_test_rpc_client ::
    "kapi \<Rightarrow> kpapi \<Rightarrow> (env_event \<Rightarrow> (world, unit) kern) \<Rightarrow> addr \<Rightarrow> c_int \<Rightarrow> (world, unit) kern" where
  "krping_test_rpc_client api kp intr cbp garbage = thenK (krping_ping api kp intr cbp garbage 65) (returnK ())"

section \<open>Running a client\<close>

definition set_tos :: "addr \<Rightarrow> (world, unit) kern" where
  "set_tos cbp =
     bindK (get_kcb cbp) (\<lambda>cb. if kc_tos cb \<noteq> 0 then rdma_set_service_type (kc_cm_id cb) (kc_tos cb) else returnK ())"

definition krping_fin_client :: "addr \<Rightarrow> (world, unit) kern" where
  "krping_fin_client cbp = thenK (krping_free_buffers cbp) (krping_free_qp cbp)"

definition post_first :: "kapi \<Rightarrow> addr \<Rightarrow> (world, c_int) kern" where
  "post_first api cbp = bindK (get_kcb cbp) (\<lambda>cb. ib_post_recv api (kc_qp cb) (kc_rq_wr cb))"

definition krping_run_client ::
    "nat \<Rightarrow> kapi \<Rightarrow> kpapi \<Rightarrow> (env_event \<Rightarrow> (world, unit) kern) \<Rightarrow> addr \<Rightarrow> (world, unit) kern" where
  "krping_run_client fuel api kp intr cbp =
     thenK (set_tos cbp)
     (bindK (krping_bind_client api kp intr cbp) (\<lambda>ret.
      if ret \<noteq> 0 then returnK ()
      else
        bindK (get_kcb cbp) (\<lambda>cb.
        bindK (krping_setup_qp api cbp (kc_cm_id cb)) (\<lambda>ret.
        if ret \<noteq> 0 then returnK ()
        else
          bindK (krping_setup_buffers api kp cbp) (\<lambda>ret.
          if ret \<noteq> 0 then krping_free_qp cbp
          else
            bindK (post_first api cbp) (\<lambda>ret.
            if ret \<noteq> 0 then krping_fin_client cbp
            else
              bindK (krping_connect_client api intr cbp) (\<lambda>ret.
              if ret \<noteq> 0 then krping_fin_client cbp
              else
                thenK (krping_test_client fuel api kp intr cbp)
                (bindK (get_kcb cbp) (\<lambda>cb.
                 thenK (rdma_disconnect (kc_cm_id cb)) (krping_fin_client cbp))))))))))"

text \<open>\<open>krping_init_client\<close> stops before the pings; on an error it frees the control block.\<close>

definition krping_init_client ::
    "kapi \<Rightarrow> kpapi \<Rightarrow> (env_event \<Rightarrow> (world, unit) kern) \<Rightarrow> addr \<Rightarrow> (world, addr) kern" where
  "krping_init_client api kp intr cbp =
     (let err0 = thenK (free_at w_kcbs w_kcbs_update cbp) (returnK NULL);
          err1 = thenK (krping_free_qp cbp) err0;
          err2 = thenK (krping_free_buffers cbp) err1
      in
      thenK (set_tos cbp)
      (bindK (krping_bind_client api kp intr cbp) (\<lambda>ret.
       if ret \<noteq> 0 then err0
       else
         bindK (get_kcb cbp) (\<lambda>cb.
         bindK (krping_setup_qp api cbp (kc_cm_id cb)) (\<lambda>ret.
         if ret \<noteq> 0 then err0
         else
           bindK (krping_setup_buffers api kp cbp) (\<lambda>ret.
           if ret \<noteq> 0 then err1
           else
             bindK (post_first api cbp) (\<lambda>ret.
             if ret \<noteq> 0 then err2
             else
               bindK (krping_connect_client api intr cbp) (\<lambda>ret.
               if ret \<noteq> 0 then err2 else returnK cbp))))))))"

section \<open>What the ping writes\<close>

text \<open>The reference: letters that run cyclically through the 58 characters from 65 to 122.\<close>

definition cyc :: "byte \<Rightarrow> nat \<Rightarrow> byte" where
  "cyc c k = of_nat (65 + (unat c - 65 + k) mod 58)"

lemma unat_cyc: "unat (cyc c k) = 65 + (unat c - 65 + k) mod 58"
proof -
  have "(unat c - 65 + k) mod 58 < 58" by simp
  then have "65 + (unat c - 65 + k) mod 58 < 256" by linarith
  then show ?thesis unfolding cyc_def unat_of_nat by simp
qed

lemma next_char_cyc: "next_char (cyc c k) = cyc c (Suc k)"
proof -
  let ?m = "(unat c - 65 + k) mod 58"
  have m: "?m < 58" by simp
  have u: "unat (cyc c k + 1) = 66 + ?m" using m by (simp add: unat_word_ariths unat_cyc)
  have "122 < cyc c k + 1 \<longleftrightarrow> ?m = 57" unfolding word_less_nat_alt u using m by (simp, linarith)
  moreover have "cyc c (Suc k) = (if ?m = 57 then 65 else cyc c k + 1)"
  proof (rule word_unat_eq_iff[THEN iffD2])
    have "Suc (unat c - 65 + k) mod 58 = (if Suc ?m = 58 then 0 else Suc ?m)" by (rule mod_Suc)
    then show "unat (cyc c (Suc k)) = unat (if ?m = 57 then 65 else cyc c k + 1)"
      by (simp add: unat_cyc u)
  qed
  ultimately show ?thesis by (simp add: next_char_def Let_def)
qed

lemma cyc_0: "65 \<le> unat c \<Longrightarrow> unat c \<le> 122 \<Longrightarrow> cyc c 0 = c"
  by (rule word_unat_eq_iff[THEN iffD2]) (simp add: unat_cyc)

lemma fill_loop_run:
  assumes "n \<le> length b"
  shows "fill_loop [i..<n] (cyc c k) b = Inr (take i b @ map (\<lambda>j. cyc c (k + (j - i))) [i..<n] @ drop (max i n) b)"
  using assms
proof (induction "n - i" arbitrary: i k b)
  case 0
  then show ?case by (simp add: max_def)
next
  case (Suc d)
  then have i: "i < n" by linarith
  have IH: "fill_loop [Suc i..<n] (cyc c (Suc k)) (b[i := cyc c k]) =
      Inr (take (Suc i) (b[i := cyc c k]) @ map (\<lambda>j. cyc c (Suc k + (j - Suc i))) [Suc i..<n] @ drop (max (Suc i) n) (b[i := cyc c k]))"
    using Suc.hyps(1)[of "Suc i" "b[i := cyc c k]" "Suc k"] Suc.hyps(2) Suc.prems by simp
  have "map (\<lambda>j. cyc c (Suc k + (j - Suc i))) [Suc i..<n] = map (\<lambda>j. cyc c (k + (j - i))) [Suc i..<n]"
    by (auto intro!: arg_cong[of _ _ "cyc c"])
  moreover have "take (Suc i) (b[i := cyc c k]) = take i b @ [cyc c k]" using i Suc.prems by (simp add: take_Suc_conv_app_nth)
  moreover have "[i..<n] = i # [Suc i..<n]" using i by (rule upt_conv_Cons)
  ultimately show ?case using i Suc.prems IH by (simp add: next_char_cyc)
qed

lemma digits_nonempty: "digits n \<noteq> []"
  by (subst digits.simps) simp

lemma ping_text_length: "13 \<le> length (ping_text ping)"
proof -
  have "0 < length (fmt_d ping)" using digits_nonempty by (simp add: fmt_d_def)
  then have "1 \<le> length (fmt_d ping)" by linarith
  then show ?thesis by (simp add: ping_text_def ascii_def del: One_nat_def)
qed

lemma ping_buffer_run:
  assumes len: "length buf = iters sz" and fits: "length (ping_text ping) < iters sz" and st: "65 \<le> unat (ucast start :: byte)" "unat (ucast start :: byte) \<le> 122"
  shows "ping_buffer ping start sz buf =
     Inr ((ping_text ping @ map (\<lambda>j. cyc (ucast start) (j - length (ping_text ping))) [length (ping_text ping)..<iters sz])[iters sz - 1 := 0])"
proof -
  let ?t = "ping_text ping" and ?n = "iters sz"
  let ?b = "?t @ 0 # drop (Suc (length ?t)) buf"
  have b: "sprintf_buf ?t buf = Inr ?b" "length ?b = ?n" using fits len by (simp_all add: sprintf_buf_def)
  have "fill_loop [length ?t..<?n] (cyc (ucast start) 0) ?b =
      Inr (take (length ?t) ?b @ map (\<lambda>j. cyc (ucast start) (0 + (j - length ?t))) [length ?t..<?n] @ drop (max (length ?t) ?n) ?b)"
    by (rule fill_loop_run) (use b(2) in linarith)
  then have f: "fill_loop [length ?t..<?n] (ucast start) ?b = Inr (?t @ map (\<lambda>j. cyc (ucast start) (j - length ?t)) [length ?t..<?n])"
    using fits b(2) by (simp add: cyc_0[OF st])
  have "0 < sint sz" using fits by (simp add: iters_def)
  then show ?thesis using b(1) f fits by (simp add: ping_buffer_def)
qed

section \<open>What a running client leaves alone\<close>

text \<open>
  The members of a control block that name resources. An operation \<open>stays\<close> when it neither creates nor
  releases an object and changes no such member of any control block; it may change states,
  statistics, work requests, keys and the contents of buffers.
\<close>

definition kres :: "krping_cb \<Rightarrow> c_int \<times> addr list" where
  "kres cb = (kc_server cb, [kc_cq cb, kc_pd cb, kc_qp cb, kc_dma_mr cb, kc_reg_mr cb, kc_rdma_mr cb, kc_start_mr cb,
     kc_recv_mapping cb, kc_send_mapping cb, kc_rdma_buf cb, kc_start_buf cb, kc_cm_id cb])"

definition kframe :: "world \<Rightarrow> world \<Rightarrow> bool" where
  "kframe w w' \<longleftrightarrow> (\<forall>p. map_option kres (w_kcbs w' p) = map_option kres (w_kcbs w p))
     \<and> dom (w_bytes w') = dom (w_bytes w) \<and> dom (w_mrs w') = dom (w_mrs w) \<and> w_pds w' = w_pds w \<and> w_cqs w' = w_cqs w
     \<and> w_qps w' = w_qps w \<and> w_dmas w' = w_dmas w \<and> w_cmids w' = w_cmids w \<and> w_klist w' = w_klist w"

definition stays :: "(world, 'a) kern \<Rightarrow> bool" where
  "stays m \<longleftrightarrow> (\<forall>w a w'. m w = Inr (a, w') \<longrightarrow> kframe w w')"

named_theorems stay_rules \<open>operations that keep every resource\<close>

lemma kframe_refl [simp]: "kframe w w"
  by (simp add: kframe_def)

lemma kframe_trans: "kframe w w1 \<Longrightarrow> kframe w1 w2 \<Longrightarrow> kframe w w2"
  by (simp add: kframe_def)

lemma staysD: "stays m \<Longrightarrow> m w = Inr (a, w') \<Longrightarrow> kframe w w'"
  by (simp add: stays_def)

lemma stays_basic [stay_rules]: "stays (returnK a)" "stays (failK e)" "stays (getK g)" "stays (load get p)"
  by (auto simp: stays_def load_def split: option.splits if_splits)

lemma stays_bindK [stay_rules]: "stays m \<Longrightarrow> (\<And>a. stays (f a)) \<Longrightarrow> stays (bindK m f)"
  unfolding stays_def bindK_eq_Inr by (blast intro: kframe_trans)

lemma stays_thenK [stay_rules]: "stays m \<Longrightarrow> stays n \<Longrightarrow> stays (thenK m n)"
  unfolding thenK_def by (intro stays_bindK)

lemma stays_if [stay_rules]: "stays m \<Longrightarrow> stays n \<Longrightarrow> stays (if b then m else n)" "stays u \<Longrightarrow> stays (whenK b u)"
  by (simp_all add: whenK_def stays_basic)

lemma stays_option [stay_rules]: "stays n \<Longrightarrow> (\<And>x. stays (f x)) \<Longrightarrow> stays (case o' of None \<Rightarrow> n | Some x \<Rightarrow> f x)"
  by (cases o') simp_all

lemma stays_prod [stay_rules]: "(\<And>x y. stays (f x y)) \<Longrightarrow> stays (case p of (x, y) \<Rightarrow> f x y)"
  by (cases p) simp

lemma stays_sum [stay_rules]: "(\<And>x. stays (f x)) \<Longrightarrow> (\<And>y. stays (g y)) \<Longrightarrow> stays (case o' of Inl x \<Rightarrow> f x | Inr y \<Rightarrow> g y)"
  by (cases o') simp_all

lemma stays_log [stay_rules]: "stays (log_ev e)"
  by (simp add: stays_def log_ev_def kframe_def)

lemma stays_kcb: "(\<And>c. kres (f c) = kres c) \<Longrightarrow> stays (upd_kcb p f)"
  by (auto simp: stays_def kcbs.modify_Inr kframe_def)

lemma stays_memory [stay_rules]: "stays (modify_at w_bytes w_bytes_update p g)" "stays (modify_at w_mrs w_mrs_update p h)"
  by (auto simp: stays_def bytes.modify_Inr mrs.modify_Inr kframe_def split: if_splits)

lemma apply_fill_frame: "kframe w (apply_fill f w)"
  by (cases f) (auto simp: apply_fill_def kframe_def kres_def split: option.splits)

lemma fold_fill_frame: "kframe w (fold apply_fill fs w)"
  by (induction fs arbitrary: w) (auto intro: kframe_trans apply_fill_frame)

lemma stays_calls [stay_rules]:
  "stays (wake_up_kcb cbp)" "stays (post_wrs kp qp wrs)" "stays (ib_post_recv api qp wr)" "stays (ib_req_notify_cq api cq)"
  "stays (rdma_resolve_route api cm)" "stays (rdma_resolve_addr api cm sa)" "stays (rdma_connect api cm prm)" "stays (rdma_disconnect cm)"
  "stays (rdma_set_service_type cm tos)" "stays (ib_update_fast_reg_key kp mr key)"
  unfolding wake_up_kcb_def post_wrs_def ib_post_recv_def ib_req_notify_cq_def rdma_resolve_route_def rdma_resolve_addr_def
    rdma_connect_def rdma_disconnect_def rdma_set_service_type_def ib_update_fast_reg_key_def
  by (intro stay_rules)+

lemma stays_poll [stay_rules]: "stays (poll_cq kp cq)"
proof -
  have "stays (modifyK (fold apply_fill fs))" for fs by (simp add: stays_def fold_fill_frame)
  then show ?thesis unfolding poll_cq_def by (intro stay_rules) auto
qed

text \<open>The event handlers, and a wait during which they run.\<close>

lemma stays_kcm_deliver: "stays (kcm_deliver api cid ev)"
proof -
  have "stays (krping_cma_event_handler api cid ev)"
    unfolding krping_cma_event_handler_def Let_def
    by (cases ev; simp) (intro stay_rules stays_kcb; simp add: kres_def)+
  moreover have "krping_cma_event_handler api cid ev w = Inr (r, w') \<Longrightarrow> r = 0" for w r w'
    by (auto simp: krping_cma_event_handler_def Let_def bindK_eq_Inr thenK_eq_Inr)
  ultimately show ?thesis unfolding stays_def kcm_deliver_def by (fastforce simp: bindK_eq_Inr)
qed

lemma stays_kcq_loop: "stays (krping_cq_loop n api kp cbp)"
proof (induction n)
  case (Suc n)
  have rcv: "stays (krping_recv_wc api kp cbp wc)" for wc
    unfolding krping_recv_wc_def server_recv_def client_recv_def by (intro stay_rules stays_kcb) (simp_all add: kres_def)
  have wc: "stays (krping_handle_wc api kp cbp wc)" for wc
    unfolding krping_handle_wc_def
    by (cases "wc_opcode wc"; simp) (intro stay_rules stays_kcb rcv; simp add: kres_def)+
  have err: "stays (krping_cq_error cbp)"
    unfolding krping_cq_error_def by (intro stay_rules stays_kcb) (simp add: kres_def)
  have st: "stays (case s of IB_WC_SUCCESS \<Rightarrow> a | IB_WC_WR_FLUSH_ERR \<Rightarrow> b | IB_WC_OTHER_ERR n \<Rightarrow> c)"
    if "stays a" "stays b" "stays c" for s and a b c :: "(world, bool) kern" using that by (cases s) simp_all
  have "stays (krping_cq_once api kp cbp)"
    unfolding krping_cq_once_def by (intro stay_rules st wc err)
  with Suc show ?case by (auto intro!: stay_rules)
qed (simp only: krping_cq_loop.simps stay_rules)

lemma stays_intr: "stays (krping_intr fuel api kp e)"
proof (cases e)
  case (CqEvent cq)
  then show ?thesis unfolding krping_intr_def krping_cq_event_handler_def by (auto intro!: stay_rules stays_kcq_loop)
qed (simp_all add: krping_intr_def stays_kcm_deliver stay_rules)

lemma kframe_pending [simp]: "kframe w (w1\<lparr>w_pending := es\<rparr>) \<longleftrightarrow> kframe w w1"
  by (simp add: kframe_def)

lemma stays_wait_loop:
  assumes "\<And>e. stays (intr e)"
  shows "stays (wait_loop intr q cond awake es)"
proof -
  have "wait_loop intr q cond awake es w = Inr (a, w') \<Longrightarrow> kframe w w'" for w a w'
  proof (induction es arbitrary: awake w)
    case (Cons e es)
    show ?case
    proof (cases "awake \<and> cond w \<or> e = SignalEvent")
      case True
      then show ?thesis using Cons.prems by (auto simp: wait_loop.simps split: if_splits)
    next
      case False
      then obtain u w1 where i: "intr e w = Inr (u, w1)" and rest: "wait_loop intr q cond (wakes q w < wakes q w1) es w1 = Inr (a, w')"
        using Cons.prems by (auto simp: wait_loop.simps split: if_splits sum.splits)
      from staysD[OF assms i] Cons.IH[OF rest] show ?thesis by (rule kframe_trans)
    qed
  qed (auto simp: wait_loop.simps split: if_splits)
  then show ?thesis by (simp add: stays_def)
qed

text \<open>The phases of a client that run with the resources in place.\<close>

lemma stays_wait [stay_rules]: "(\<And>e. stays (intr e)) \<Longrightarrow> stays (wait_kcb intr cbp cond)"
  unfolding wait_kcb_def by (intro stay_rules stays_wait_loop)

lemma stays_bind: "(\<And>e. stays (intr e)) \<Longrightarrow> stays (krping_bind_client api kp intr cbp)"
  unfolding krping_bind_client_def by (intro stay_rules)

lemma stays_connect: "(\<And>e. stays (intr e)) \<Longrightarrow> stays (krping_connect_client api intr cbp)"
  unfolding krping_connect_client_def by (intro stay_rules)

lemma stays_format_send [stay_rules]: "stays (krping_format_send api kp cbp buf)"
  unfolding krping_format_send_def krping_rdma_rkey_def by (intro stay_rules stays_kcb) (simp_all add: kres_def)

lemma stays_write_text [stay_rules]: "stays (write_text cbp ping start)"
  unfolding write_text_def by (intro stay_rules)

lemma stays_ping: "(\<And>e. stays (intr e)) \<Longrightarrow> stays (krping_ping api kp intr cbp ping start)"
  unfolding krping_ping_def by (intro stay_rules stays_kcb) (simp_all add: kres_def)

lemma stays_test_client: "(\<And>e. stays (intr e)) \<Longrightarrow> stays (krping_test_client fuel api kp intr cbp)"
proof -
  assume i: "\<And>e. stays (intr e)"
  have "stays (ping_loop fuel api kp intr cbp ping start)" for ping start
    by (induction fuel arbitrary: ping start) (simp_all only: ping_loop.simps stay_rules, intro stay_rules stays_ping i, assumption+)
  then show ?thesis by (simp add: krping_test_client_def)
qed

lemma stays_set_tos: "stays (set_tos cbp)" "stays (post_first api cbp)"
  unfolding set_tos_def post_first_def by (intro stay_rules)+

section \<open>A client releases what it created\<close>

text \<open>Nothing was created or released for good, DMA mappings aside.\<close>

definition kclean :: "world \<Rightarrow> world \<Rightarrow> bool" where
  "kclean w w' \<longleftrightarrow> w_pds w' = w_pds w \<and> w_cqs w' = w_cqs w \<and> w_qps w' = w_qps w \<and> w_klist w' = w_klist w
     \<and> dom (w_mrs w') = dom (w_mrs w) \<and> dom (w_bytes w') = dom (w_bytes w) \<and> dom (w_cmids w') = dom (w_cmids w)
     \<and> (\<forall>p. map_option kc_cm_id (w_kcbs w' p) = map_option kc_cm_id (w_kcbs w p))"

lemma kframe_cb: "kframe w w' \<Longrightarrow> w_kcbs w p = Some cb \<Longrightarrow> \<exists>cb'. w_kcbs w' p = Some cb' \<and> kres cb' = kres cb"
  unfolding kframe_def by (metis map_option_eq_Some option.simps(9))

lemma kframe_dom: "kframe w w' \<Longrightarrow> dom (w_kcbs w') = dom (w_kcbs w)"
  unfolding kframe_def dom_def by (metis map_option_is_None)

lemma kframe_cm_id: "kframe w w' \<Longrightarrow> map_option kc_cm_id (w_kcbs w' p) = map_option kc_cm_id (w_kcbs w p)"
proof -
  have "map_option kc_cm_id m = map_option (\<lambda>(s, as). last as) (map_option kres m)" for m by (cases m) (simp_all add: kres_def)
  then show "kframe w w' \<Longrightarrow> ?thesis" by (simp add: kframe_def)
qed

lemma kframe_clean: "kframe w w' \<Longrightarrow> kclean w w' \<and> w_dmas w' = w_dmas w"
  using kframe_cm_id[of w w'] by (simp add: kframe_def kclean_def)

lemma kclean_dom: "kclean w w' \<Longrightarrow> dom (w_kcbs w') = dom (w_kcbs w)"
  unfolding kclean_def dom_def by (metis map_option_is_None)

lemma kclean_trans: "kclean w w1 \<Longrightarrow> kclean w1 w2 \<Longrightarrow> kclean w w2"
  by (simp add: kclean_def)

lemma kframe_ready:
  "kframe w w' \<Longrightarrow> kres cb' = kres cb \<Longrightarrow> kqp_ready cb w \<Longrightarrow> kqp_ready cb' w'"
  "kframe w w' \<Longrightarrow> kres cb' = kres cb \<Longrightarrow> kbuf_ok cb w \<Longrightarrow> kbuf_ok cb' w'"
  by (auto simp: kframe_def kres_def kqp_ready_def kbuf_ok_def domIff set_eq_iff)

lemma kfin_run:
  assumes "cbp \<noteq> 0" and "w_kcbs w cbp = Some cb" and "kqp_ready cb w" and "kbuf_ok cb w"
  shows "krping_fin_client cbp w = Inr ((), (kbuf_released cb w)\<lparr>w_pds := (w_pds w)(kc_pd cb := None),
     w_cqs := (w_cqs w)(kc_cq cb := None), w_qps := (w_qps w)(kc_qp cb := None)\<rparr>)"
proof -
  have pd: "kc_pd cb \<noteq> 0" "w_pds w (kc_pd cb) \<noteq> None" using assms(3) by (auto simp: kqp_ready_def)
  have "kqp_ready cb (kbuf_released cb w)" "w_kcbs (kbuf_released cb w) cbp = Some cb"
    using assms by (simp_all add: kqp_ready_def kbuf_released_def)
  from kfree_qp_run'[OF assms(1) this(2,1)] kfree_buffers_run'[OF assms(1,2) pd assms(4)]
  show ?thesis by (simp add: krping_fin_client_def thenK_Inr kbuf_released_def)
qed

lemma kfin_unmapped:
  assumes "cbp \<noteq> 0" and "w_kcbs w cbp = Some cb" and "kc_pd cb \<noteq> 0" and "w_pds w (kc_pd cb) \<noteq> None"
    and "kc_dma_mr cb = 0" "kc_rdma_mr cb = 0" "kc_start_mr cb = 0" "kc_reg_mr cb \<noteq> 0" "w_mrs w (kc_reg_mr cb) \<noteq> None"
    and "w_dmas w (kc_recv_mapping cb) = None \<or> w_dmas w (kc_send_mapping cb) = None"
  shows "krping_fin_client cbp w = Inl BadFree"
proof (cases "w_dmas w (kc_recv_mapping cb) = None")
  case True
  then show ?thesis
    using assms(1-9) by (auto simp: krping_fin_client_def krping_free_buffers_def dereg_set_def ib_dereg_mr_def dma_unmap_single_def run_simps)
next
  case False
  then show ?thesis
    using assms by (auto simp: krping_fin_client_def krping_free_buffers_def dereg_set_def ib_dereg_mr_def dma_unmap_single_def run_simps)
qed

text \<open>From the state in which the buffers were set up, whatever happened to it since.\<close>

lemma kfin_restores:
  assumes cbp: "cbp \<noteq> 0" and pd: "kc_pd cb \<noteq> 0" "w_pds w (kc_pd cb) = Some pdv" and cq: "kc_cq cb \<noteq> 0" "w_cqs w (kc_cq cb) \<noteq> None"
    and qp: "kc_qp cb \<noteq> 0" "w_qps w (kc_qp cb) \<noteq> None" and cb: "w_kcbs w cbp = Some cb" and fresh: "kbuf_fresh cb"
    and d: "d1 \<noteq> 0 \<longrightarrow> w_dmas w d1 = None" "d2 \<noteq> 0 \<longrightarrow> w_dmas w d2 = None" "d1 \<noteq> 0 \<longrightarrow> d1 \<noteq> d2" "w_dmas w 0 = None"
    and new: "p1 \<noteq> 0" "p2 \<noteq> 0" "mr \<noteq> 0" "p1 \<noteq> p2" "w_bytes w p1 = None" "w_bytes w p2 = None" "w_mrs w mr = None"
    and w2: "w2 = kbuf_done kp cbp (kbuf_cb cbp pdv d1 d2 p1 a1 n mr p2 a2 cb) d1 d2 p1 b1 mr mrv p2 b2 w"
    and fr: "kframe w2 w3" and fin: "krping_fin_client cbp w3 = Inr (u, w')"
  shows "kclean (w\<lparr>w_pds := (w_pds w)(kc_pd cb := None), w_cqs := (w_cqs w)(kc_cq cb := None), w_qps := (w_qps w)(kc_qp cb := None)\<rparr>) w'
     \<and> w_dmas w' = w_dmas w"
proof -
  let ?cb2 = "kbuf_cb cbp pdv d1 d2 p1 a1 n mr p2 a2 cb"
  have cb2: "w_kcbs w2 cbp = Some ?cb2" by (simp add: w2 kbuf_done_def)
  obtain cb3 where cb3: "w_kcbs w3 cbp = Some cb3" "kres cb3 = kres ?cb2" using kframe_cb[OF fr cb2] by blast
  have F: "kc_dma_mr cb = 0" "kc_rdma_mr cb = 0" "kc_start_mr cb = 0" using fresh by (simp_all add: kbuf_fresh_def)
  have R: "kc_pd cb3 = kc_pd cb" "kc_cq cb3 = kc_cq cb" "kc_qp cb3 = kc_qp cb" "kc_dma_mr cb3 = 0" "kc_rdma_mr cb3 = 0" "kc_start_mr cb3 = 0"
    "kc_reg_mr cb3 = mr" "kc_recv_mapping cb3 = d1" "kc_send_mapping cb3 = d2" "kc_rdma_buf cb3 = p1" "kc_start_buf cb3 = p2"
    using cb3(2) F by (simp_all add: kres_def)
  have W: "w_pds w3 = w_pds w" "w_cqs w3 = w_cqs w" "w_qps w3 = w_qps w" "dom (w_mrs w3) = insert mr (dom (w_mrs w))"
    "dom (w_bytes w3) = insert p1 (insert p2 (dom (w_bytes w)))" "w_cmids w3 = w_cmids w" "w_klist w3 = w_klist w"
    "w_dmas w3 = put_dma d2 (cbp + send_buf_offset kp) (put_dma d1 (cbp + recv_buf_offset kp) (w_dmas w))"
    using fr by (auto simp: kframe_def w2 kbuf_done_def)
  have K: "map_option kc_cm_id (w_kcbs w3 p) = map_option kc_cm_id (w_kcbs w p)" for p
    using kframe_cm_id[OF fr, of p] cb by (auto simp: w2 kbuf_done_def)
  have live: "w_mrs w3 mr \<noteq> None" "w_bytes w3 p1 \<noteq> None" "w_bytes w3 p2 \<noteq> None" using W(4,5) by blast+
  have "d1 \<noteq> 0 \<and> d2 \<noteq> 0"
  proof (rule ccontr)
    assume "\<not> (d1 \<noteq> 0 \<and> d2 \<noteq> 0)"
    then have bad: "w_dmas w3 (kc_recv_mapping cb3) = None \<or> w_dmas w3 (kc_send_mapping cb3) = None"
      using d by (auto simp: W R put_dma_def)
    have "krping_fin_client cbp w3 = Inl BadFree"
      by (rule kfin_unmapped[OF cbp cb3(1) _ _ _ _ _ _ _ bad]) (use pd live new in \<open>simp_all add: R W\<close>)
    with fin show False by simp
  qed
  then have dm: "d1 \<noteq> 0" "d2 \<noteq> 0" by simp_all
  have "kqp_ready cb3 w3" "kbuf_ok cb3 w3"
    using pd cq qp live new d dm by (auto simp: kqp_ready_def kbuf_ok_def R W put_dma_def)
  from kfin_run[OF cbp cb3(1) this] fin
  have w': "w' = (kbuf_released cb3 w3)\<lparr>w_pds := (w_pds w)(kc_pd cb := None), w_cqs := (w_cqs w)(kc_cq cb := None), w_qps := (w_qps w)(kc_qp cb := None)\<rparr>"
    by (simp add: R W)
  have "w_dmas w' = w_dmas w" using d dm by (auto simp: w' kbuf_released_def R W put_dma_def)
  moreover have "dom (w_mrs w') = dom (w_mrs w)" "dom (w_bytes w') = dom (w_bytes w)"
    using new by (auto simp: w' kbuf_released_def R W)
  ultimately show ?thesis using W K by (simp add: kclean_def w' kbuf_released_def)
qed

text \<open>The part of a run that starts when the buffers are set up.\<close>

definition run_pinging ::
    "nat \<Rightarrow> kapi \<Rightarrow> kpapi \<Rightarrow> (env_event \<Rightarrow> (world, unit) kern) \<Rightarrow> addr \<Rightarrow> (world, unit) kern" where
  "run_pinging fuel api kp intr cbp =
     bindK (post_first api cbp) (\<lambda>ret.
     if ret \<noteq> 0 then krping_fin_client cbp
     else
       bindK (krping_connect_client api intr cbp) (\<lambda>ret.
       if ret \<noteq> 0 then krping_fin_client cbp
       else
         thenK (krping_test_client fuel api kp intr cbp)
         (bindK (get_kcb cbp) (\<lambda>cb. thenK (rdma_disconnect (kc_cm_id cb)) (krping_fin_client cbp)))))"

lemma pinging_ends:
  assumes "\<And>e. stays (intr e)" and "run_pinging fuel api kp intr cbp w = Inr (u, w')"
  shows "\<exists>w3. kframe w w3 \<and> krping_fin_client cbp w3 = Inr (u, w')"
proof -
  let ?fin = "krping_fin_client cbp"
  from assms(2) obtain r1 wa where a: "post_first api cbp w = Inr (r1, wa)"
    and rest: "r1 \<noteq> 0 \<and> ?fin wa = Inr (u, w') \<or> (\<exists>r2 wb. krping_connect_client api intr cbp wa = Inr (r2, wb)
      \<and> (r2 \<noteq> 0 \<and> ?fin wb = Inr (u, w') \<or> (\<exists>x wc y wd. krping_test_client fuel api kp intr cbp wb = Inr (x, wc)
         \<and> bindK (get_kcb cbp) (\<lambda>cb. rdma_disconnect (kc_cm_id cb)) wc = Inr (y, wd) \<and> ?fin wd = Inr (u, w'))))"
    unfolding run_pinging_def by (auto simp: bindK_eq_Inr thenK_eq_Inr kcbs.load_Inr split: if_splits)
  note fa = staysD[OF stays_set_tos(2) a]
  from rest show ?thesis
  proof (elim disjE conjE exE)
    assume "?fin wa = Inr (u, w')"
    then show ?thesis using fa by blast
  next
    fix r2 wb
    assume b: "krping_connect_client api intr cbp wa = Inr (r2, wb)" and f: "?fin wb = Inr (u, w')"
    from kframe_trans[OF fa staysD[OF stays_connect[OF assms(1)] b]] f show ?thesis by blast
  next
    fix r2 wb x wc y wd
    assume b: "krping_connect_client api intr cbp wa = Inr (r2, wb)" and c: "krping_test_client fuel api kp intr cbp wb = Inr (x, wc)"
      and d: "bindK (get_kcb cbp) (\<lambda>cb. rdma_disconnect (kc_cm_id cb)) wc = Inr (y, wd)" and f: "?fin wd = Inr (u, w')"
    have "stays (bindK (get_kcb cbp) (\<lambda>cb. rdma_disconnect (kc_cm_id cb)))" by (intro stay_rules)
    from kframe_trans[OF kframe_trans[OF kframe_trans[OF fa staysD[OF stays_connect[OF assms(1)] b]]
          staysD[OF stays_test_client[OF assms(1)] c]] staysD[OF this d]] f
    show ?thesis by blast
  qed
qed

text \<open>
  Running and initialising a client have the same phases. They differ in what follows an error
  (\<open>e0\<close>) and in what runs once the buffers are set up (\<open>go\<close>); the contract of the latter is that it ends as
  wanted (\<open>ends\<close>), or keeps every resource and then releases the client and goes on with \<open>e0\<close>.
\<close>

definition client_phases ::
    "kapi \<Rightarrow> kpapi \<Rightarrow> (world, c_int) kern \<Rightarrow> addr \<Rightarrow> (world, 'a) kern \<Rightarrow> (world, 'a) kern \<Rightarrow> (world, 'a) kern" where
  "client_phases api kp bind cbp e0 go =
     thenK (set_tos cbp) (bindK bind (\<lambda>ret.
     if ret \<noteq> 0 then e0
     else
       bindK (get_kcb cbp) (\<lambda>cb. bindK (krping_setup_qp api cbp (kc_cm_id cb)) (\<lambda>ret.
       if ret \<noteq> 0 then e0
       else bindK (krping_setup_buffers api kp cbp) (\<lambda>ret. if ret \<noteq> 0 then thenK (krping_free_qp cbp) e0 else go)))))"

lemma kconn_frame:
  "kframe w w' \<Longrightarrow> kconn_ok cid cbp idr cb w \<Longrightarrow> w_kcbs w' cbp = Some cb' \<Longrightarrow> kconn_ok cid cbp idr cb' w'"
  by (simp add: kconn_ok_def kframe_def)

locale client_phase =
  fixes api :: kapi and kp :: kpapi and bind :: "(world, c_int) kern" and cbp :: addr
    and e0 go :: "(world, 'a) kern" and ends :: "'a \<Rightarrow> world \<Rightarrow> bool"
  assumes bind_stays: "stays bind"
    and go_ends: "\<And>w a w'. go w = Inr (a, w') \<Longrightarrow> ends a w' \<or> (\<exists>w1. kframe w w1 \<and> thenK (krping_fin_client cbp) e0 w1 = Inr (a, w'))"
begin

lemma buffers_phase:
  assumes cbp: "cbp \<noteq> 0" and cb: "w_kcbs w cbp = Some cb" and rdy: "kqp_ready cb w" and fresh: "kbuf_fresh cb"
    and vs: "verbs_sound api" and es: "err_ptr_sound api" and ks: "kp_sound api kp" and z: "w_dmas w 0 = None"
    and run: "bindK (krping_setup_buffers api kp cbp) (\<lambda>ret. if ret \<noteq> 0 then thenK (krping_free_qp cbp) e0 else go) w = Inr (a, w')"
  shows "ends a w' \<or> (\<exists>wx. kclean (w\<lparr>w_pds := (w_pds w)(kc_pd cb := None), w_cqs := (w_cqs w)(kc_cq cb := None), w_qps := (w_qps w)(kc_qp cb := None)\<rparr>) wx
     \<and> (w_dmas wx = w_dmas w \<or> (\<exists>r w1. krping_setup_buffers api kp cbp w = Inr (r, w1) \<and> r \<noteq> 0 \<and> w_dmas wx = w_dmas w1)) \<and> e0 wx = Inr (a, w'))"
proof -
  obtain pdv where pd: "kc_pd cb \<noteq> 0" "w_pds w (kc_pd cb) = Some pdv" using rdy by (auto simp: kqp_ready_def)
  have qc: "kc_cq cb \<noteq> 0" "w_cqs w (kc_cq cb) \<noteq> None" "kc_qp cb \<noteq> 0" "w_qps w (kc_qp cb) \<noteq> None" using rdy by (auto simp: kqp_ready_def)
  obtain r w1 where s: "krping_setup_buffers api kp cbp w = Inr (r, w1)"
    and rest: "(if r \<noteq> 0 then thenK (krping_free_qp cbp) e0 else go) w1 = Inr (a, w')"
    using run by (auto simp: bindK_eq_Inr)
  from kbuf_outcome[OF cbp cb pd fresh vs es ks] show ?thesis
  proof (elim exE conjE disjE)
    fix d1 d2 r' cb'
    assume o: "krping_setup_buffers api kp cbp w = Inr (r',
          w\<lparr>w_dmas := put_dma d2 (cbp + send_buf_offset kp) (put_dma d1 (cbp + recv_buf_offset kp) (w_dmas w)), w_kcbs := (w_kcbs w)(cbp \<mapsto> cb')\<rparr>)"
      "r' \<noteq> 0" "kc_pd cb' = kc_pd cb" "kc_cq cb' = kc_cq cb" "kc_qp cb' = kc_qp cb" "kc_cm_id cb' = kc_cm_id cb"
    have r: "r \<noteq> 0" "w_kcbs w1 cbp = Some cb'" and k: "kqp_ready cb' w1" using o s rdy by (auto simp: kqp_ready_def)
    obtain v wx where fq: "krping_free_qp cbp w1 = Inr (v, wx)" and e: "e0 wx = Inr (a, w')" using rest r(1) by (auto simp: thenK_eq_Inr)
    then have wx: "wx = w1\<lparr>w_pds := (w_pds w1)(kc_pd cb := None), w_cqs := (w_cqs w1)(kc_cq cb := None), w_qps := (w_qps w1)(kc_qp cb := None)\<rparr>"
      using kfree_qp_run'[OF cbp r(2) k] o by simp
    have "w1 = w\<lparr>w_dmas := put_dma d2 (cbp + send_buf_offset kp) (put_dma d1 (cbp + recv_buf_offset kp) (w_dmas w)), w_kcbs := (w_kcbs w)(cbp \<mapsto> cb')\<rparr>"
      using o s by simp
    then have "kclean (w\<lparr>w_pds := (w_pds w)(kc_pd cb := None), w_cqs := (w_cqs w)(kc_cq cb := None), w_qps := (w_qps w)(kc_qp cb := None)\<rparr>) wx"
      using cb o(6) by (auto simp: kclean_def wx)
    moreover have "w_dmas wx = w_dmas w1" by (simp add: wx)
    ultimately show ?thesis using s r(1) e by blast
  next
    fix d1 d2 p1 a1 b1 mr mrv p2 a2 b2
    assume d: "d1 \<noteq> 0 \<longrightarrow> w_dmas w d1 = None" "d2 \<noteq> 0 \<longrightarrow> w_dmas w d2 = None" "d1 \<noteq> 0 \<longrightarrow> d1 \<noteq> d2"
      and o: "krping_setup_buffers api kp cbp w = Inr (0, kbuf_done kp cbp
          (kbuf_cb cbp pdv d1 d2 p1 a1 (page_list_len (page_shift kp) (kc_size cb)) mr p2 a2 cb) d1 d2 p1 b1 mr mrv p2 b2 w)"
      and new: "p1 \<noteq> 0" "p2 \<noteq> 0" "mr \<noteq> 0" "p1 \<noteq> p2" "w_bytes w p1 = None" "w_bytes w p2 = None" "w_mrs w mr = None"
    have w1: "w1 = kbuf_done kp cbp (kbuf_cb cbp pdv d1 d2 p1 a1 (page_list_len (page_shift kp) (kc_size cb)) mr p2 a2 cb) d1 d2 p1 b1 mr mrv p2 b2 w"
      and "r = 0" using o s by auto
    have "go w1 = Inr (a, w')" using rest \<open>r = 0\<close> by simp
    from go_ends[OF this] show ?thesis
    proof
      assume "\<exists>w3. kframe w1 w3 \<and> thenK (krping_fin_client cbp) e0 w3 = Inr (a, w')"
      then obtain w3 v wx where f: "kframe w1 w3" "krping_fin_client cbp w3 = Inr (v, wx)" and e: "e0 wx = Inr (a, w')"
        by (auto simp: thenK_eq_Inr)
      from kfin_restores[OF cbp pd qc cb fresh d z new w1 f] e show ?thesis by blast
    qed simp
  qed
qed

lemma phases_restore:
  assumes ok: "kconn_ok cid cbp idr cb w" and id: "kc_cm_id cb = cid" and client: "kc_server cb = 0" and fresh: "kbuf_fresh cb"
    and vs: "verbs_sound api" and es: "err_ptr_sound api" and ks: "kp_sound api kp" and z: "w_dmas w 0 = None"
    and run: "client_phases api kp bind cbp e0 go w = Inr (a, w')"
  shows "ends a w' \<or> (\<exists>wx. kclean w wx \<and> (w_dmas wx = w_dmas w
     \<or> (\<exists>r w1 w2. krping_setup_buffers api kp cbp w1 = Inr (r, w2) \<and> r \<noteq> 0 \<and> w_dmas w1 = w_dmas w \<and> w_dmas wx = w_dmas w2)) \<and> e0 wx = Inr (a, w'))"
proof -
  from run obtain x wa r wb where s: "set_tos cbp w = Inr (x, wa)" and b: "bind wa = Inr (r, wb)"
    and rest: "(if r \<noteq> 0 then e0 else
        bindK (get_kcb cbp) (\<lambda>cb. bindK (krping_setup_qp api cbp (kc_cm_id cb)) (\<lambda>ret.
        if ret \<noteq> 0 then e0 else bindK (krping_setup_buffers api kp cbp) (\<lambda>ret.
          if ret \<noteq> 0 then thenK (krping_free_qp cbp) e0 else go)))) wb = Inr (a, w')"
    unfolding client_phases_def by (auto simp: bindK_eq_Inr thenK_eq_Inr)
  have fr: "kframe w wb" using kframe_trans[OF staysD[OF stays_set_tos(1) s] staysD[OF bind_stays b]] .
  have cbp: "cbp \<noteq> 0" and cbw: "w_kcbs w cbp = Some cb" using ok by (auto simp: kconn_ok_def)
  obtain cb1 where cb1: "w_kcbs wb cbp = Some cb1" "kres cb1 = kres cb" using kframe_cb[OF fr cbw] by blast
  note ok1 = kconn_frame[OF fr ok cb1(1)]
  have R: "kc_cm_id cb1 = cid" "kc_server cb1 = 0" "kbuf_fresh cb1" using cb1(2) id client fresh by (simp_all add: kres_def kbuf_fresh_def)
  show ?thesis
  proof (cases "r = 0")
    case False
    then have "e0 wb = Inr (a, w')" using rest by simp
    then show ?thesis using kframe_clean[OF fr] by blast
  next
    case True
    then obtain r2 wq where q: "krping_setup_qp api cbp cid wb = Inr (r2, wq)"
      and rest2: "(if r2 \<noteq> 0 then e0 else bindK (krping_setup_buffers api kp cbp) (\<lambda>ret.
          if ret \<noteq> 0 then thenK (krping_free_qp cbp) e0 else go)) wq = Inr (a, w')"
      using rest cb1(1) cbp R(1) by (auto simp: bindK_eq_Inr kcbs.load_Inr)
    from ksetup_qp_outcome[OF ok1 R(1,2) vs es] show ?thesis
    proof (elim disjE exE conjE)
      fix r' pd cq t
      assume "krping_setup_qp api cbp cid wb = Inr (r', wb\<lparr>w_kcbs := (w_kcbs wb)(cbp \<mapsto> cb1\<lparr>kc_pd := pd, kc_cq := cq\<rparr>), w_trace := t\<rparr>)" "r' \<noteq> 0"
      then have e: "e0 wq = Inr (a, w')" and "wq = wb\<lparr>w_kcbs := (w_kcbs wb)(cbp \<mapsto> cb1\<lparr>kc_pd := pd, kc_cq := cq\<rparr>), w_trace := t\<rparr>"
        using q rest2 by auto
      then have "kclean wb wq" "w_dmas wq = w_dmas wb" using cb1(1) by (auto simp: kclean_def)
      then have "kclean w wq" "w_dmas wq = w_dmas w" using kframe_clean[OF fr] kclean_trans by auto
      with e show ?thesis by blast
    next
      fix pd pdv cq qp
      let ?cbq = "cb1\<lparr>kc_pd := pd, kc_cq := cq, kc_qp := qp\<rparr>"
      assume o: "krping_setup_qp api cbp cid wb = Inr (0, kqp_done cid cbp idr cb1 pd pdv cq qp wb)"
        and new: "pd \<noteq> 0" "cq \<noteq> 0" "qp \<noteq> 0" "w_pds wb pd = None" "w_cqs wb cq = None" "w_qps wb qp = None"
      have wq: "wq = kqp_done cid cbp idr cb1 pd pdv cq qp wb" and "r2 = 0" using q o by auto
      have P: "w_kcbs wq cbp = Some ?cbq" "kqp_ready ?cbq wq" "kbuf_fresh ?cbq" "w_dmas wq = w_dmas wb" "w_dmas wq 0 = None"
        using new R(3) z kframe_clean[OF fr] by (auto simp: wq kqp_done_def kqp_ready_def kbuf_fresh_def)
      note ph = buffers_phase[OF cbp P(1-3) vs es ks P(5) rest2[unfolded \<open>r2 = 0\<close>, simplified]]
      have "kclean wb (wq\<lparr>w_pds := (w_pds wq)(kc_pd ?cbq := None), w_cqs := (w_cqs wq)(kc_cq ?cbq := None), w_qps := (w_qps wq)(kc_qp ?cbq := None)\<rparr>)"
        using new cb1(1) ok1 by (auto simp: kclean_def wq kqp_done_def kconn_ok_def fun_upd_idem)
      then have "kclean w (wq\<lparr>w_pds := (w_pds wq)(kc_pd ?cbq := None), w_cqs := (w_cqs wq)(kc_cq ?cbq := None), w_qps := (w_qps wq)(kc_qp ?cbq := None)\<rparr>)"
        using kframe_clean[OF fr] kclean_trans by blast
      note cl = kclean_trans[OF this]
      have dq: "w_dmas wq = w_dmas w" using P(4) kframe_clean[OF fr] by simp
      from ph show ?thesis
      proof (elim disjE exE conjE)
        fix wx :: world
        assume "w_dmas wx = w_dmas wq"
        with dq have "w_dmas wx = w_dmas w" by simp
        moreover assume "kclean (wq\<lparr>w_pds := (w_pds wq)(kc_pd ?cbq := None), w_cqs := (w_cqs wq)(kc_cq ?cbq := None), w_qps := (w_qps wq)(kc_qp ?cbq := None)\<rparr>) wx"
          and "e0 wx = Inr (a, w')"
        ultimately show ?thesis using cl by blast
      next
        fix wx w1 :: world and r
        assume "krping_setup_buffers api kp cbp wq = Inr (r, w1)" "r \<noteq> 0" "w_dmas wx = w_dmas w1"
          and "kclean (wq\<lparr>w_pds := (w_pds wq)(kc_pd ?cbq := None), w_cqs := (w_cqs wq)(kc_cq ?cbq := None), w_qps := (w_qps wq)(kc_qp ?cbq := None)\<rparr>) wx"
          and "e0 wx = Inr (a, w')"
        with dq cl show ?thesis by blast
      qed simp
    qed
  qed
qed

end

text \<open>Running a client: nothing follows an error.\<close>

lemma thenK_unit: "thenK m (returnK ()) = m"
  by (rule ext) (simp add: thenK_def bindK_def split: sum.splits)

interpretation kp_run: client_phase api kp "krping_bind_client api kp (krping_intr n api kp) cbp" cbp "returnK ()"
    "run_pinging fuel api kp (krping_intr n api kp) cbp" "\<lambda>a w. False" for api kp n cbp fuel
proof
  show "stays (krping_bind_client api kp (krping_intr n api kp) cbp)" by (rule stays_bind[OF stays_intr])
next
  fix w a w'
  assume "run_pinging fuel api kp (krping_intr n api kp) cbp w = Inr (a, w')"
  from pinging_ends[OF stays_intr this] show "False \<or> (\<exists>w1. kframe w w1 \<and> thenK (krping_fin_client cbp) (returnK ()) w1 = Inr (a, w'))"
    by (simp add: thenK_unit)
qed

lemma run_client_phases:
  "krping_run_client fuel api kp intr cbp = client_phases api kp (krping_bind_client api kp intr cbp) cbp (returnK ()) (run_pinging fuel api kp intr cbp)"
  unfolding krping_run_client_def client_phases_def run_pinging_def thenK_unit by (rule refl)

lemma krun_restores:
  assumes ok: "kconn_ok cid cbp idr cb w" and id: "kc_cm_id cb = cid" and client: "kc_server cb = 0" and fresh: "kbuf_fresh cb"
    and vs: "verbs_sound api" and es: "err_ptr_sound api" and ks: "kp_sound api kp" and z: "w_dmas w 0 = None"
    and run: "krping_run_client fuel api kp (krping_intr n api kp) cbp w = Inr (u, w')"
  shows "kclean w w' \<and> (w_dmas w' = w_dmas w
     \<or> (\<exists>r w1 w2. krping_setup_buffers api kp cbp w1 = Inr (r, w2) \<and> r \<noteq> 0 \<and> w_dmas w1 = w_dmas w \<and> w_dmas w' = w_dmas w2))"
  using kp_run.phases_restore[OF ok id client fresh vs es ks z run[unfolded run_client_phases]] by auto

text \<open>Initialising a client: an error frees the control block, success leaves the client set up and connected.\<close>

definition init_free :: "addr \<Rightarrow> (world, addr) kern" where
  "init_free cbp = thenK (free_at w_kcbs w_kcbs_update cbp) (returnK NULL)"

definition init_connect :: "kapi \<Rightarrow> (env_event \<Rightarrow> (world, unit) kern) \<Rightarrow> addr \<Rightarrow> (world, addr) kern" where
  "init_connect api intr cbp =
     bindK (post_first api cbp) (\<lambda>ret.
     if ret \<noteq> 0 then thenK (krping_fin_client cbp) (init_free cbp)
     else bindK (krping_connect_client api intr cbp) (\<lambda>ret.
       if ret \<noteq> 0 then thenK (krping_fin_client cbp) (init_free cbp) else returnK cbp))"

definition init_done :: "addr \<Rightarrow> addr \<Rightarrow> world \<Rightarrow> bool" where
  "init_done cbp a w \<longleftrightarrow> a = cbp \<and> (\<exists>cb. w_kcbs w cbp = Some cb \<and> kc_state cb \<noteq> TS_ERROR)"

lemma connect_done:
  "krping_connect_client api intr cbp w = Inr (0, w') \<Longrightarrow> \<exists>cb. w_kcbs w' cbp = Some cb \<and> kc_state cb \<noteq> TS_ERROR"
  by (auto simp: krping_connect_client_def bindK_eq_Inr thenK_eq_Inr kcbs.load_Inr split: if_splits)

interpretation kp_init: client_phase api kp "krping_bind_client api kp (krping_intr n api kp) cbp" cbp "init_free cbp"
    "init_connect api (krping_intr n api kp) cbp" "init_done cbp" for api kp n cbp
proof
  show "stays (krping_bind_client api kp (krping_intr n api kp) cbp)" by (rule stays_bind[OF stays_intr])
next
  fix w a w'
  let ?fin = "thenK (krping_fin_client cbp) (init_free cbp)"
  assume "init_connect api (krping_intr n api kp) cbp w = Inr (a, w')"
  then obtain r1 wa where p: "post_first api cbp w = Inr (r1, wa)"
    and rest: "r1 \<noteq> 0 \<and> ?fin wa = Inr (a, w') \<or> (\<exists>r2 wb. krping_connect_client api (krping_intr n api kp) cbp wa = Inr (r2, wb)
        \<and> (r2 \<noteq> 0 \<and> ?fin wb = Inr (a, w') \<or> r2 = 0 \<and> a = cbp \<and> w' = wb))"
    unfolding init_connect_def by (auto simp: bindK_eq_Inr split: if_splits)
  note fp = staysD[OF stays_set_tos(2) p]
  from rest show "init_done cbp a w' \<or> (\<exists>w1. kframe w w1 \<and> ?fin w1 = Inr (a, w'))"
  proof (elim disjE conjE exE)
    fix r2 wb
    assume c: "krping_connect_client api (krping_intr n api kp) cbp wa = Inr (r2, wb)" and f: "?fin wb = Inr (a, w')"
    from kframe_trans[OF fp staysD[OF stays_connect[OF stays_intr] c]] f show ?thesis by blast
  next
    fix r2 wb
    assume "krping_connect_client api (krping_intr n api kp) cbp wa = Inr (r2, wb)" "r2 = 0" "a = cbp" "w' = wb"
    then show ?thesis using connect_done by (fastforce simp: init_done_def)
  qed (use fp in blast)
qed

lemma init_client_phases:
  "krping_init_client api kp intr cbp = client_phases api kp (krping_bind_client api kp intr cbp) cbp (init_free cbp) (init_connect api intr cbp)"
  unfolding krping_init_client_def client_phases_def init_connect_def init_free_def krping_fin_client_def Let_def thenK_assoc by (rule refl)

section \<open>Pings complete\<close>

text \<open>
  A client that is connected with its buffers in place; the members a ping does not change; and a
  device that accepts every request and reports one received advertisement per interrupt.
\<close>

definition kping_ok :: "addr \<Rightarrow> krping_cb \<Rightarrow> world \<Rightarrow> bool" where
  "kping_ok cbp cb w \<longleftrightarrow> cbp \<noteq> NULL \<and> w_kcbs w cbp = Some cb
     \<and> kc_cq cb \<noteq> NULL \<and> w_cqs w (kc_cq cb) = Some \<lparr>cq_context = cbp\<rparr> \<and> kc_qp cb \<noteq> NULL \<and> w_qps w (kc_qp cb) \<noteq> None
     \<and> kc_reg_mr cb \<noteq> NULL \<and> w_mrs w (kc_reg_mr cb) \<noteq> None
     \<and> kc_start_buf cb \<noteq> NULL \<and> (\<exists>b. w_bytes w (kc_start_buf cb) = Some b \<and> length b = iters (kc_size cb))
     \<and> kc_server cb = 0 \<and> kc_frtest cb = 0"

definition psame :: "krping_cb \<Rightarrow> krping_cb \<Rightarrow> bool" where
  "psame cb cb' \<longleftrightarrow> kres cb' = kres cb \<and> kc_count cb' = kc_count cb \<and> kc_size cb' = kc_size cb \<and> kc_frtest cb' = kc_frtest cb
     \<and> kc_page_list_len cb' = kc_page_list_len cb"

definition kdev :: "kapi \<Rightarrow> kpapi \<Rightarrow> ib_wc \<Rightarrow> krping_cb \<Rightarrow> bool" where
  "kdev api kp wc cb \<longleftrightarrow> one_recv kp (kc_cq cb) wc \<and> (\<forall>w wr. ib_post_recv_ret api w (kc_qp cb) wr = 0)
     \<and> (\<forall>w wrs. post_wrs_ret kp w (kc_qp cb) wrs = 0)
     \<and> (\<forall>w mr a n. 0 < sint (ib_map_mr_sg_ret kp w mr a n) \<and> sint (ib_map_mr_sg_ret kp w mr a n) \<le> sint (kc_page_list_len cb))"

lemma psame_refl [simp]: "psame cb cb"
  by (simp add: psame_def)

lemma psame_trans: "psame a b \<Longrightarrow> psame b c \<Longrightarrow> psame a c"
  by (simp add: psame_def)

lemma kdev_psame: "psame cb cb' \<Longrightarrow> kdev api kp wc cb \<Longrightarrow> kdev api kp wc cb'"
  by (simp add: psame_def kdev_def kres_def)

lemma kset_run:
  assumes "kping_ok cbp cb w"
  shows "\<exists>w'. kset_state cbp st w = Inr ((), w') \<and> kping_ok cbp (cb\<lparr>kc_state := st\<rparr>) w' \<and> w_pending w' = w_pending w"
  using assms by (auto simp: kping_ok_def run_simps)

lemma write_text_run:
  assumes ok: "kping_ok cbp cb w" and fits: "length (ping_text ping) < iters (kc_size cb)"
    and st: "65 \<le> unat (ucast start :: byte)" "unat (ucast start :: byte) \<le> 122"
  shows "\<exists>w'. write_text cbp ping start w = Inr ((), w') \<and> kping_ok cbp cb w' \<and> w_pending w' = w_pending w"
proof -
  obtain b where b: "w_bytes w (kc_start_buf cb) = Some b" "length b = iters (kc_size cb)" using ok by (auto simp: kping_ok_def)
  show ?thesis
    using ok b fits by (simp add: write_text_def kping_ok_def run_simps ping_buffer_run[OF b(2) fits st])
qed

lemma adv_run:
  assumes ok: "kping_ok cbp cb w" and dev: "kdev api kp wc cb"
  shows "\<exists>w' cb'. krping_format_send api kp cbp buf w = Inr ((), w') \<and> kping_ok cbp cb' w' \<and> w_pending w' = w_pending w
     \<and> psame cb cb' \<and> kc_state cb' = kc_state cb \<and> kc_stats cb' = kc_stats cb"
proof -
  obtain mr v where P: "cbp \<noteq> 0" "w_kcbs w cbp = Some cb" "kc_reg_mr cb \<noteq> 0" "w_mrs w (kc_reg_mr cb) = Some mr"
    "kc_qp cb \<noteq> 0" "w_qps w (kc_qp cb) = Some v" using ok by (auto simp: kping_ok_def)
  have m: "map_ok kp cbp buf mr cb w" using dev by (simp add: map_ok_def kdev_def Let_def)
  have r: "post_wrs_ret kp x (kc_qp cb) wrs = 0" for x wrs using dev by (simp add: kdev_def)
  show ?thesis
    unfolding format_send_run[OF P m] Let_def r using ok by (simp add: kping_ok_def psame_def kres_def reg_cb_def)
qed

lemma post_run:
  assumes "kping_ok cbp cb w" and "kdev api kp wc cb"
  shows "\<exists>w'. post_wrs kp (kc_qp cb) wrs w = Inr (0, w') \<and> kping_ok cbp cb w' \<and> w_pending w' = w_pending w"
  using assms by (auto simp: post_wrs_def kping_ok_def kdev_def run_simps)

lemma recv_cb_sel [simp]:
  "psame cb (recv_cb cb)" "recv_msgs (kc_stats (recv_cb cb)) = recv_msgs (kc_stats cb) + 1"
  "kc_state (recv_cb cb) = (if kc_state cb = TS_RDMA_READ_ADV then TS_RDMA_WRITE_ADV else TS_RDMA_WRITE_COMPLETE)"
  by (simp_all add: recv_cb_def psame_def kres_def)

lemma wait_recv_run:
  assumes ok: "kping_ok cbp cb w" and dev: "kdev api kp wc cb" and intr: "intr = krping_intr (Suc (Suc fuel)) api kp"
    and pend: "w_pending w = CqEvent (kc_cq cb) # es"
    and c: "\<not> cond (kc_state cb)" "cond (kc_state (recv_cb cb))" and st: "kc_state cb \<noteq> TS_ERROR"
  shows "\<exists>w'. wait_kcb intr cbp cond w = Inr (0, w') \<and> kping_ok cbp (recv_cb cb) w' \<and> w_pending w' = es"
proof -
  let ?w1 = "w\<lparr>w_kcbs := (w_kcbs w)(cbp \<mapsto> recv_cb cb), w_trace := recv_trace cbp cb @ w_trace w\<rparr>"
  obtain v where P: "cbp \<noteq> 0" "w_kcbs w cbp = Some cb" "kc_cq cb \<noteq> 0" "w_cqs w (kc_cq cb) = Some \<lparr>cq_context = cbp\<rparr>"
    "kc_qp cb \<noteq> 0" "w_qps w (kc_qp cb) = Some v" and Q: "kc_frtest cb = 0" "kc_server cb = 0" using ok by (auto simp: kping_ok_def)
  have "intr (CqEvent (kc_cq cb)) w = Inr ((), ?w1)"
    unfolding intr using dev by (intro krecv_run[where wc = wc, OF P st Q]) (simp_all add: kdev_def)
  moreover have "wakes cbp w < wakes cbp ?w1" by (simp add: wakes_def recv_trace_def)
  moreover have "\<not> kcond cbp cond w" "kcond cbp cond ?w1" using c P(2) by (simp_all add: kcond_def)
  ultimately have "wait_loop intr cbp (kcond cbp cond) True (CqEvent (kc_cq cb) # es) w = Inr (0, ?w1\<lparr>w_pending := es\<rparr>)"
    by (simp add: wait_loop.simps(2) wait_loop_now)
  then have "wait_kcb intr cbp cond w = Inr (0, ?w1\<lparr>w_pending := es\<rparr>)"
    using P pend by (simp add: wait_kcb_def run_simps)
  moreover have "kping_ok cbp (recv_cb cb) (?w1\<lparr>w_pending := es\<rparr>)"
    using ok by (simp add: kping_ok_def recv_cb_def)
  ultimately show ?thesis by auto
qed

lemma ping_run:
  assumes ok: "kping_ok cbp cb w" and dev: "kdev api kp wc cb" and intr: "intr = krping_intr (Suc (Suc fuel)) api kp"
    and pend: "w_pending w = CqEvent (kc_cq cb) # CqEvent (kc_cq cb) # es"
    and fits: "length (ping_text ping) < iters (kc_size cb)" and st: "65 \<le> unat (ucast start :: byte)" "unat (ucast start :: byte) \<le> 122"
  shows "\<exists>w' cb'. krping_ping api kp intr cbp ping start w = Inr (True, w') \<and> kping_ok cbp cb' w' \<and> w_pending w' = es
     \<and> psame cb cb' \<and> kc_state cb' = TS_RDMA_WRITE_COMPLETE \<and> recv_msgs (kc_stats cb') = recv_msgs (kc_stats cb) + 2"
proof -
  let ?cb0 = "cb\<lparr>kc_state := TS_RDMA_READ_ADV\<rparr>"
  have s0: "psame cb ?cb0" by (simp add: psame_def kres_def)
  obtain w0 where w0: "kset_state cbp TS_RDMA_READ_ADV w = Inr ((), w0)" "kping_ok cbp ?cb0 w0" "w_pending w0 = w_pending w"
    using kset_run[OF ok] by blast
  obtain w1 where w1: "write_text cbp ping start w0 = Inr ((), w1)" "kping_ok cbp ?cb0 w1" "w_pending w1 = w_pending w"
    using write_text_run[OF w0(2) _ st] fits w0(3) by fastforce
  obtain w2 cb2 where w2: "krping_format_send api kp cbp (kc_start_dma_addr ?cb0) w1 = Inr ((), w2)" "kping_ok cbp cb2 w2" "w_pending w2 = w_pending w"
    "psame ?cb0 cb2" "kc_state cb2 = TS_RDMA_READ_ADV" "kc_stats cb2 = kc_stats cb"
    using adv_run[OF w1(2) kdev_psame[OF s0 dev]] w1(3) by fastforce
  note s2 = psame_trans[OF s0 w2(4)]
  obtain w3 where w3: "post_wrs kp (kc_qp cb2) [WrSend (kc_sq_wr cb2)] w2 = Inr (0, w3)" "kping_ok cbp cb2 w3" "w_pending w3 = w_pending w"
    using post_run[OF w2(2) kdev_psame[OF s2 dev]] w2(3) by fastforce
  have q: "kc_cq cb2 = kc_cq cb" using s2 by (simp add: psame_def kres_def)
  let ?cb4 = "recv_cb cb2"
  obtain w4 where w4: "wait_kcb intr cbp (\<lambda>st. TS_RDMA_WRITE_ADV \<le> st) w3 = Inr (0, w4)" "kping_ok cbp ?cb4 w4" "w_pending w4 = CqEvent (kc_cq cb) # es"
    using wait_recv_run[where cond = "\<lambda>st. TS_RDMA_WRITE_ADV \<le> st", OF w3(2) kdev_psame[OF s2 dev] intr, of "CqEvent (kc_cq cb) # es"]
      w3(3) pend q w2(5) by (auto simp: test_le_num)
  note s4 = psame_trans[OF s2 recv_cb_sel(1)[of cb2]]
  obtain w5 cb5 where w5: "krping_format_send api kp cbp (kc_rdma_dma_addr ?cb4) w4 = Inr ((), w5)" "kping_ok cbp cb5 w5" "w_pending w5 = CqEvent (kc_cq cb) # es"
    "psame ?cb4 cb5" "kc_state cb5 = TS_RDMA_WRITE_ADV" "kc_stats cb5 = kc_stats ?cb4"
    using adv_run[OF w4(2) kdev_psame[OF s4 dev]] w4(3) w2(5) by fastforce
  note s5 = psame_trans[OF s4 w5(4)]
  obtain w6 where w6: "post_wrs kp (kc_qp cb5) [WrSend (kc_sq_wr cb5)] w5 = Inr (0, w6)" "kping_ok cbp cb5 w6" "w_pending w6 = CqEvent (kc_cq cb) # es"
    using post_run[OF w5(2) kdev_psame[OF s5 dev]] w5(3) by fastforce
  have q5: "kc_cq cb5 = kc_cq cb" using s5 by (simp add: psame_def kres_def)
  obtain w7 where w7: "wait_kcb intr cbp (\<lambda>st. TS_RDMA_WRITE_COMPLETE \<le> st) w6 = Inr (0, w7)" "kping_ok cbp (recv_cb cb5) w7" "w_pending w7 = es"
    using wait_recv_run[where cond = "\<lambda>st. TS_RDMA_WRITE_COMPLETE \<le> st", OF w6(2) kdev_psame[OF s5 dev] intr, of es]
      w6(3) q5 w5(5) by (auto simp: test_le_num)
  have g: "get_kcb cbp x = Inr (c, x)" if "kping_ok cbp c x" for x c using that by (auto simp: kping_ok_def load_def)
  have "krping_ping api kp intr cbp ping start w = Inr (True, w7)"
    by (simp add: krping_ping_def bindK_def thenK_def w0(1) w1(1) g[OF w1(2)] w2(1)[simplified] g[OF w2(2)] w2(5) w3(1) w4(1) g[OF w4(2)] w5(1) g[OF w5(2)]
        w6(1) w7(1) g[OF w7(2)] w5(5))
  moreover have "recv_msgs (kc_stats (recv_cb cb5)) = recv_msgs (kc_stats cb) + 2" using w5(6) w2(6) by simp
  ultimately show ?thesis using w7(2,3) psame_trans[OF s5 recv_cb_sel(1)] w5(5) by fastforce
qed

text \<open>The first letter of a ping stays in the range that \<open>next_start\<close> cycles through.\<close>

lemma next_start_range:
  assumes "65 \<le> sint s" and "sint s \<le> 122"
  shows "65 \<le> sint (next_start s) \<and> sint (next_start s) \<le> 122"
proof -
  have "sint (s + 1) = sint s + 1"
    using assms by (simp add: sint_word_ariths signed_take_bit_int_eq_self)
  then show ?thesis using assms by (simp add: next_start_def Let_def)
qed

lemma start_byte_nat:
  assumes "65 \<le> sint (s :: c_int)" and "sint s \<le> 122"
  shows "unat (ucast s :: byte) = nat (sint s)"
proof -
  have "uint s = take_bit 32 (sint s)" by (simp add: uint_sint)
  then have u: "uint s = sint s" using assms by (simp add: take_bit_int_eq_self)
  have "uint (ucast s :: byte) = sint s"
    using assms by (simp add: unsigned_ucast_eq u take_bit_int_eq_self)
  then show ?thesis by (simp flip: nat_uint_eq)
qed

lemma start_byte:
  assumes "65 \<le> sint (s :: c_int)" and "sint s \<le> 122"
  shows "65 \<le> unat (ucast s :: byte)" "unat (ucast s :: byte) \<le> 122"
  unfolding start_byte_nat[OF assms] using assms by linarith+

lemma ping_loop_run:
  assumes "kping_ok cbp cb w" and "kdev api kp wc cb" and intr: "intr = krping_intr (Suc (Suc fuel)) api kp"
    and "w_pending w = replicate (2 * n) (CqEvent (kc_cq cb)) @ es" and "0 \<le> sint ping" and "sint (kc_count cb) = sint ping + int n"
    and "0 < sint (kc_count cb)"
    and "\<And>k. 0 \<le> sint k \<Longrightarrow> sint k < sint (kc_count cb) \<Longrightarrow> length (ping_text k) < iters (kc_size cb)"
    and "65 \<le> sint start" "sint start \<le> 122" and "n < f"
  shows "\<exists>w' cb'. ping_loop f api kp intr cbp ping start w = Inr ((), w') \<and> kping_ok cbp cb' w' \<and> w_pending w' = es
     \<and> psame cb cb' \<and> kc_state cb' = (if n = 0 then kc_state cb else TS_RDMA_WRITE_COMPLETE) \<and> recv_msgs (kc_stats cb') = recv_msgs (kc_stats cb) + of_nat (2 * n)"
  using assms(1,2,4-)
proof (induction n arbitrary: f ping start cb w)
  case 0
  then obtain m where "f = Suc m" by (cases f) auto
  moreover have "get_kcb cbp w = Inr (cb, w)" using 0 by (auto simp: kping_ok_def load_def)
  ultimately show ?case using 0 by (auto simp: bindK_def)
next
  case (Suc n)
  obtain m where f: "f = Suc m" "n < m" using Suc.prems by (cases f) auto
  have g: "get_kcb cbp w = Inr (cb, w)" using Suc.prems(1) by (auto simp: kping_ok_def load_def)
  have pend: "w_pending w = CqEvent (kc_cq cb) # CqEvent (kc_cq cb) # (replicate (2 * n) (CqEvent (kc_cq cb)) @ es)"
    using Suc.prems(3) by simp
  have fits: "length (ping_text ping) < iters (kc_size cb)" using Suc.prems(4,5,7) by simp
  obtain w1 cb1 where p: "krping_ping api kp intr cbp ping start w = Inr (True, w1)" "kping_ok cbp cb1 w1"
    "w_pending w1 = replicate (2 * n) (CqEvent (kc_cq cb)) @ es" "psame cb cb1" "kc_state cb1 = TS_RDMA_WRITE_COMPLETE"
    "recv_msgs (kc_stats cb1) = recv_msgs (kc_stats cb) + 2"
    using ping_run[OF Suc.prems(1,2) intr pend fits start_byte[OF Suc.prems(8,9)]] by blast
  have c: "kc_count cb1 = kc_count cb" "kc_size cb1 = kc_size cb" "kc_cq cb1 = kc_cq cb" using p(4) by (simp_all add: psame_def kres_def)
  have "sint (kc_count cb) < 2 ^ 31" using sint_lt[of "kc_count cb"] by simp
  then have s: "sint (ping + 1) = sint ping + 1"
    using Suc.prems(4,5) by (simp add: sint_word_ariths signed_take_bit_int_eq_self)
  have "\<exists>w' cb'. ping_loop m api kp intr cbp (ping + 1) (next_start start) w1 = Inr ((), w') \<and> kping_ok cbp cb' w' \<and> w_pending w' = es
     \<and> psame cb1 cb' \<and> kc_state cb' = (if n = 0 then kc_state cb1 else TS_RDMA_WRITE_COMPLETE) \<and> recv_msgs (kc_stats cb') = recv_msgs (kc_stats cb1) + of_nat (2 * n)"
    by (rule Suc.IH[OF p(2) kdev_psame[OF p(4) Suc.prems(2)]])
      (use p(3) c s f Suc.prems next_start_range[OF Suc.prems(8,9)] in \<open>auto\<close>)
  then obtain w' cb' where r: "ping_loop m api kp intr cbp (ping + 1) (next_start start) w1 = Inr ((), w')" "kping_ok cbp cb' w'" "w_pending w' = es"
    "psame cb1 cb'" "kc_state cb' = (if n = 0 then kc_state cb1 else TS_RDMA_WRITE_COMPLETE)" "recv_msgs (kc_stats cb') = recv_msgs (kc_stats cb1) + of_nat (2 * n)" by blast
  have "sint ping < sint (kc_count cb)" using Suc.prems(5) by simp
  then have "ping_loop f api kp intr cbp ping start w = Inr ((), w')"
    by (simp add: f bindK_def g p(1) r(1))
  moreover have "kc_state cb' = TS_RDMA_WRITE_COMPLETE" using r(5) p(5) by simp
  moreover have "recv_msgs (kc_stats cb') = recv_msgs (kc_stats cb) + of_nat (2 * Suc n)" using r(6) p(6) by simp
  ultimately show ?case using r(2,3) psame_trans[OF p(4) r(4)] by auto
qed

section \<open>Sample worlds\<close>

definition recv_wc :: ib_wc where
  "recv_wc = sample_wc\<lparr>wc_status := IB_WC_SUCCESS, wc_opcode := IB_WC_RECV, wc_byte_len := 16\<rparr>"

definition recv_kp :: kpapi where
  "recv_kp = sample_kp\<lparr>poll_ret := (\<lambda>w cq. if take 1 (w_trace w) = [EvNotify cq] then (1, recv_wc, []) else (0, recv_wc, []))\<rparr>"

definition small_world :: world where
  "small_world = (kping_world [])\<lparr>w_kcbs := [64 \<mapsto> kping_cb\<lparr>kc_size := 8\<rparr>], w_bytes := [0xB000 \<mapsto> replicate 8 0]\<rparr>"

lemma recv_kp_sound: "kp_sound sample_api recv_kp"
  using sample_kp_sound by (simp add: kp_sound_def recv_kp_def)

definition run_cb :: krping_cb where
  "run_cb = zero_krping_cb\<lparr>kc_cm_id := 0x6000, kc_size := 64, kc_count := 1, kc_txdepth := RPING_SQ_DEPTH\<rparr>"

definition run_world :: world where
  "run_world = empty_world\<lparr>w_kcbs := [64 \<mapsto> run_cb],
     w_cmids := [0x6000 \<mapsto> \<lparr>id_context = 64, id_qp = NULL\<rparr>],
     w_pending := [CmEvent 0x6000 RDMA_CM_EVENT_ADDR_RESOLVED, CmEvent 0x6000 RDMA_CM_EVENT_ROUTE_RESOLVED,
       CmEvent 0x6000 RDMA_CM_EVENT_ESTABLISHED, CqEvent 0x4000, CqEvent 0x4000]\<rparr>"

section \<open>Properties\<close>

text \<open>
  C35. What a ping writes into a buffer of the configured size: if the text with its terminating zero fits, the
  buffer holds the text, then letters that run cyclically from the first letter through 65 to 122, and
  0 in its last byte; if it does not fit, \<open>sprintf\<close> writes past the end.
\<close>

theorem ping_buffer_contents:
  assumes len: "length buf = iters sz" and st: "65 \<le> sint start" "sint start \<le> 122"
  shows "ping_buffer ping start sz buf =
     (if length (ping_text ping) < iters sz
      then Inr (map (\<lambda>j. if j = iters sz - 1 then 0 else if j < length (ping_text ping) then ping_text ping ! j
                          else of_nat (65 + (nat (sint start) - 65 + (j - length (ping_text ping))) mod 58)) [0..<iters sz])
      else Inl OutOfBounds)"
proof (cases "length (ping_text ping) < iters sz")
  case True
  let ?t = "ping_text ping" and ?n = "iters sz"
  have u: "unat (ucast start :: byte) = nat (sint start)" by (rule start_byte_nat[OF st])
  have "(?t @ map (\<lambda>j. cyc (ucast start) (j - length ?t)) [length ?t..<?n])[?n - 1 := 0]
      = map (\<lambda>j. if j = ?n - 1 then 0 else if j < length ?t then ?t ! j else cyc (ucast start) (j - length ?t)) [0..<?n]"
    using True by (intro nth_equalityI) (auto simp: nth_list_update nth_append)
  then show ?thesis using ping_buffer_run[OF len True start_byte[OF st]] True by (simp add: cyc_def u cong: map_cong)
next
  case False
  then show ?thesis using len by (simp add: ping_buffer_def sprintf_buf_def)
qed

theorem ping_buffer_contents_witness:
  "ping_buffer 7 122 16 (replicate 16 1) = Inr (ascii ''rdma-ping-7: zA'' @ [0])"
  using ping_buffer_contents[of "replicate 16 1" 16 122 7]
  by (simp add: iters_def ping_text_def fmt_d_def digits.simps ascii_def upt_rec)

text \<open>
  The option parser accepts every size from 1, but the text of a ping has at least 13 characters: with a
  size below 14 the first ping writes past the end of the buffer, whatever the device does.
\<close>

theorem krping_small_size_overruns:
  assumes ok: "kping_ok cbp cb w" and small: "sint (kc_size cb) \<le> 13" and some: "0 \<le> sint (kc_count cb)" and fuel: "0 < fuel"
  shows "krping_test_client fuel api kp intr cbp w = Inl OutOfBounds"
proof -
  obtain m where f: "fuel = Suc m" using fuel by (cases fuel) auto
  obtain b where b: "w_bytes w (kc_start_buf cb) = Some b" "length b = iters (kc_size cb)" using ok by (auto simp: kping_ok_def)
  have "iters (kc_size cb) \<le> 13" using small by (simp add: iters_def)
  then have t: "\<not> length (ping_text 0) < length b" using ping_text_length[of 0] b(2) by linarith
  have "kc_count cb = 0 \<or> 0 < sint (kc_count cb)" using some by (metis order_le_less sint_0 signed_word_eqI)
  then show ?thesis
    using ok b t by (auto simp: krping_test_client_def f krping_ping_def write_text_def ping_buffer_def sprintf_buf_def kping_ok_def run_simps)
qed

theorem krping_small_size_overruns_witness:
  "krping_test_client 1 sample_api sample_kp (krping_intr 2 sample_api sample_kp) 64 small_world = Inl OutOfBounds"
  using krping_small_size_overruns[where cbp = 64 and cb = "kping_cb\<lparr>kc_size := 8\<rparr>" and w = small_world and fuel = 1
      and api = sample_api and kp = sample_kp and intr = "krping_intr 2 sample_api sample_kp"]
  by (simp add: kping_ok_def small_world_def kping_world_sel kping_cb_sel iters_def)



text \<open>
  C19. A client releases what it created. Whenever \<open>krping_run_client\<close> returns, after any error and any sequence of
  events, protection domain, queues, memory region and buffers are released and every object of others is
  kept; so are the DMA mappings, except when setting up the buffers failed: then exactly the mappings that
  \<open>krping_setup_buffers\<close> made stay behind.
\<close>

theorem krping_run_client_restores:
  assumes "kconn_ok cid cbp idr cb w" and "kc_cm_id cb = cid" and "kc_server cb = 0" and "kbuf_fresh cb"
    and "verbs_sound api" and "err_ptr_sound api" and "kp_sound api kp" and "w_dmas w 0 = None"
    and "krping_run_client fuel api kp (krping_intr n api kp) cbp w = Inr ((), w')"
  shows "w_pds w' = w_pds w \<and> w_cqs w' = w_cqs w \<and> w_qps w' = w_qps w \<and> w_klist w' = w_klist w
     \<and> dom (w_mrs w') = dom (w_mrs w) \<and> dom (w_bytes w') = dom (w_bytes w) \<and> dom (w_cmids w') = dom (w_cmids w)
     \<and> dom (w_kcbs w') = dom (w_kcbs w)
     \<and> (w_dmas w' = w_dmas w
        \<or> (\<exists>r w1 w2. krping_setup_buffers api kp cbp w1 = Inr (r, w2) \<and> r \<noteq> 0 \<and> w_dmas w1 = w_dmas w \<and> w_dmas w' = w_dmas w2))"
proof -
  note r = krun_restores[OF assms]
  show ?thesis using r kclean_dom[OF r[THEN conjunct1]] by (simp add: kclean_def)
qed

theorem krping_run_client_restores_witness:
  "\<exists>w'. krping_run_client 2 sample_api recv_kp (krping_intr 2 sample_api recv_kp) 64 run_world = Inr ((), w')
     \<and> w_pending w' = [] \<and> w_dmas w' 320 = None \<and> w_bytes w' = Map.empty \<and> w_mrs w' = Map.empty"
proof -
  have "case krping_run_client 2 sample_api recv_kp (krping_intr 2 sample_api recv_kp) 64 run_world of
     Inr (u, w') \<Rightarrow> w_pending w' = [] \<and> w_dmas w' 320 = None | Inl e \<Rightarrow> False"
    by code_simp
  then obtain w' where run: "krping_run_client 2 sample_api recv_kp (krping_intr 2 sample_api recv_kp) 64 run_world = Inr ((), w')"
    "w_pending w' = []" "w_dmas w' 320 = None" by (auto split: sum.splits)
  have "kconn_ok 0x6000 64 \<lparr>id_context = 64, id_qp = NULL\<rparr> run_cb run_world" "kc_cm_id run_cb = 0x6000" "kc_server run_cb = 0" "kbuf_fresh run_cb"
    "w_dmas run_world 0 = None" "dom (w_bytes run_world) = {}" "dom (w_mrs run_world) = {}"
    by (simp_all add: kconn_ok_def run_world_def run_cb_def zero_krping_cb_def kbuf_fresh_def empty_world_def)
  with krping_run_client_restores[OF this(1-4) sample_verbs_sound sample_err_ptr_sound recv_kp_sound this(5) run(1)]
  show ?thesis using run by simp
qed

text \<open>
  The other way to start a client, for the RPC layer: \<open>krping_init_client\<close> returns the block, connected and not in the
  error state, or NULL after releasing everything, including the block it was given, apart from
  the DMA mappings left by a failed set-up of the buffers. The block is not taken off the list of
  blocks.
\<close>

theorem krping_init_client_outcomes:
  assumes ok: "kconn_ok cid cbp idr cb w" and "kc_cm_id cb = cid" and "kc_server cb = 0" and "kbuf_fresh cb"
    and "verbs_sound api" and "err_ptr_sound api" and "kp_sound api kp" and "w_dmas w 0 = None"
    and run: "krping_init_client api kp (krping_intr n api kp) cbp w = Inr (p, w')"
  shows "p = cbp \<and> p \<noteq> NULL \<and> (\<exists>cb'. w_kcbs w' cbp = Some cb' \<and> kc_state cb' \<noteq> TS_ERROR)
     \<or> p = NULL \<and> dom (w_kcbs w') = dom (w_kcbs w) - {cbp} \<and> w_klist w' = w_klist w
       \<and> w_pds w' = w_pds w \<and> w_cqs w' = w_cqs w \<and> w_qps w' = w_qps w \<and> dom (w_mrs w') = dom (w_mrs w) \<and> dom (w_bytes w') = dom (w_bytes w)
       \<and> (w_dmas w' = w_dmas w
          \<or> (\<exists>r w1 w2. krping_setup_buffers api kp cbp w1 = Inr (r, w2) \<and> r \<noteq> 0 \<and> w_dmas w1 = w_dmas w \<and> w_dmas w' = w_dmas w2))"
proof -
  have cbp: "cbp \<noteq> 0" using ok by (simp add: kconn_ok_def)
  from kp_init.phases_restore[OF assms(1-8) run[unfolded init_client_phases]] show ?thesis
  proof (elim disjE exE conjE)
    assume "init_done cbp p w'"
    then show ?thesis using cbp by (auto simp: init_done_def)
  next
    fix wx :: world
    assume k: "kclean w wx" "init_free cbp wx = Inr (p, w')" "w_dmas wx = w_dmas w"
    then have "p = 0" "w' = wx\<lparr>w_kcbs := (w_kcbs wx)(cbp := None)\<rparr>"
      using cbp by (auto simp: init_free_def thenK_eq_Inr kcbs.free_Inr)
    then show ?thesis using k kclean_dom[OF k(1)] by (auto simp: kclean_def)
  next
    fix wx w1 w2 :: world and r
    assume k: "kclean w wx" "init_free cbp wx = Inr (p, w')" and d: "krping_setup_buffers api kp cbp w1 = Inr (r, w2)" "r \<noteq> 0"
      "w_dmas w1 = w_dmas w" "w_dmas wx = w_dmas w2"
    then have f: "p = 0" "w' = wx\<lparr>w_kcbs := (w_kcbs wx)(cbp := None)\<rparr>"
      using cbp by (auto simp: init_free_def thenK_eq_Inr kcbs.free_Inr)
    have "dom (w_kcbs w') = dom (w_kcbs w) - {cbp}" using kclean_dom[OF k(1)] by (simp add: f)
    then show ?thesis using k(1) d f by (simp add: kclean_def) blast
  qed
qed

end
