(* ===== verification/Rpc_Client_Bak.thy ===== *)
theory Rpc_Client_Bak
  imports Client_Test Krping_Client
begin

text \<open>
  The RPC client as it was over the ping module (\<^verbatim>\<open>bak/rpc_client_bak.c\<close>, \<^verbatim>\<open>bak/rpc_client_test_bak.c\<close>). The files are
  no longer compiled. Calls to functions that neither the repository nor the kernel has in this
  form (\<open>pthread_spin_destroy\<close>, \<open>sem_post\<close>, \<open>sem_wait\<close>, \<open>init_waitqueue_head\<close> on a spin lock) are the
  parameter \<open>bakapi\<close>. Its \<open>send_rdma_msg\<close> has no type-correct reading (it assigns a struct to a pointer and uses
  members that \<open>krping_cb\<close> does not have), so it is a parameter of the request as well; no run reaches it.
\<close>

section \<open>The client\<close>

record bakapi =
  wq_init_lock :: "addr \<Rightarrow> (world, unit) kern"
  spin_destroy :: "addr \<Rightarrow> (world, unit) kern"
  sem_post :: "addr \<Rightarrow> (world, unit) kern"
  sem_wait :: "addr \<Rightarrow> (world, unit) kern"

text \<open>
  A wait queue head starts with a spin lock, which its initialisation leaves free; a call on the lock
  of a channel that returns has written nothing else of the model.
\<close>

definition wq_init_sound :: "bakapi \<Rightarrow> bool" where
  "wq_init_sound ba \<longleftrightarrow> (\<forall>p w u w'. wq_init_lock ba p w = Inr (u, w') \<longrightarrow>
     (\<exists>ch. w_rpcs w p = Some ch \<and> w' = w\<lparr>w_rpcs := (w_rpcs w)(p \<mapsto> ch\<lparr>msgbuf_bitmap_lock := False\<rparr>)\<rparr>))"

definition client_rpc_rdma_msg_handler_bak ::
    "(nat \<Rightarrow> addr \<Rightarrow> (world, unit) kern) \<Rightarrow> addr \<Rightarrow> (world, unit) kern" where
  "client_rpc_rdma_msg_handler_bak users arg =
     bindK (load w_rhs arg) (\<lambda>rpc_pa.
     thenK (case rh_user_msg_handler_cb rpc_pa of
              Fn_user n \<Rightarrow> users n (rh_param rpc_pa)
            | _ \<Rightarrow> failK NullDeref)
     (free_at w_rhs w_rhs_update arg))"

text \<open>
  The local \<open>rdma_cb\<close> is not initialised: its value is the parameter of that name. The case for an RDMA
  channel fills the members of the control block it points to and starts the ping client.
\<close>

definition rdma_case_bak ::
    "kapi \<Rightarrow> kpapi \<Rightarrow> testapi \<Rightarrow> (env_event \<Rightarrow> (world, unit) kern) \<Rightarrow> addr \<Rightarrow> addr \<Rightarrow> c_int \<Rightarrow> c_int \<Rightarrow> fnptr
     \<Rightarrow> (world, addr) kern" where
  "rdma_case_bak api kp ta intr rdma_cb target port max_msgdata_size msg_handler =
     thenK (upd_kcb rdma_cb (\<lambda>c. c\<lparr>kc_server := 0\<rparr>))
     (thenK (upd_kcb rdma_cb (\<lambda>c. c\<lparr>kc_count := RPC_MSG_BUF_NUM\<rparr>))
     (thenK (upd_kcb rdma_cb (\<lambda>c. c\<lparr>kc_size := max_msgdata_size\<rparr>))
     (bindK (load w_bytes target) (\<lambda>s.
      thenK (case in4_pton ta s of
               None \<Rightarrow> returnK ()
             | Some a \<Rightarrow> upd_kcb rdma_cb (\<lambda>c. c\<lparr>kc_addr := take 4 a @ drop 4 (kc_addr c)\<rparr>))
      (thenK (upd_kcb rdma_cb (\<lambda>c. c\<lparr>kc_port := htons api (ucast port)\<rparr>))
      (thenK (upd_kcb rdma_cb (\<lambda>c. c\<lparr>kc_rpc_msg_handler_cb := Fn_client_rpc_rdma_msg_handler\<rparr>))
      (thenK (upd_kcb rdma_cb (\<lambda>c. c\<lparr>kc_user_msg_handler_cb := msg_handler\<rparr>))
      (krping_init_client api kp intr rdma_cb))))))))"

definition init_rpc_client_bak ::
    "kapi \<Rightarrow> kpapi \<Rightarrow> testapi \<Rightarrow> bakapi \<Rightarrow> (env_event \<Rightarrow> (world, unit) kern) \<Rightarrow> addr
     \<Rightarrow> c_int \<Rightarrow> addr \<Rightarrow> c_int \<Rightarrow> c_int \<Rightarrow> fnptr \<Rightarrow> (world, addr) kern" where
  "init_rpc_client_bak api kp ta ba intr rdma_cb ty target port max_msgdata_size msg_handler =
     bindK (kzalloc_obj api w_rpcs w_rpcs_update (sizeof_rpc_ch_info api) zero_rpc_ch) (\<lambda>rpc_ch.
     thenK (upd_rpc rpc_ch (\<lambda>c. c\<lparr>ch_type := ty\<rparr>))
     (thenK (wq_init_lock ba rpc_ch)
     (if ty = RPC_CH_RDMA then
        bindK (rdma_case_bak api kp ta intr rdma_cb target port max_msgdata_size msg_handler) (\<lambda>cb.
        thenK (upd_rpc rpc_ch (\<lambda>c. c\<lparr>ch_cb := cb\<rparr>))
        (bindK (load w_rpcs rpc_ch) (\<lambda>ch.
         if ch_cb ch = NULL then init_rpc_client_err rpc_ch else returnK rpc_ch)))
      else init_rpc_client_err rpc_ch)))"

definition destroy_rpc_client_bak :: "bakapi \<Rightarrow> addr \<Rightarrow> (world, unit) kern" where
  "destroy_rpc_client_bak ba rpc_ch =
     bindK (load w_rpcs rpc_ch) (\<lambda>ch.
     thenK (if ch_type ch = RPC_CH_RDMA then destroy_rdma_client (ch_cb ch) else returnK ())
     (thenK (spin_destroy ba rpc_ch)
     (free_at w_rpcs w_rpcs_update rpc_ch)))"

definition send_rpc_msg_to_server_bak ::
    "(env_event \<Rightarrow> (world, unit) kern) \<Rightarrow> (addr \<Rightarrow> addr \<Rightarrow> addr \<Rightarrow> addr \<Rightarrow> c_int \<Rightarrow> u64 \<Rightarrow> (world, c_int) kern)
     \<Rightarrow> rpc_req_param \<Rightarrow> (world, c_int) kern" where
  "send_rpc_msg_to_server_bak intr send req_param =
     (let rpc_ch = req_rpc_ch req_param in
      bindK (alloc_msgbuf_id intr rpc_ch) (\<lambda>bit_id. let msgbuf_id = ucast bit_id in
      bindK (load w_rpcs rpc_ch) (\<lambda>ch.
      thenK (if ch_type ch = RPC_CH_RDMA
             then thenK (send (ch_cb ch) rpc_ch (req_data req_param) (req_sem req_param) msgbuf_id 0) (returnK ())
             else returnK ())
      (returnK msgbuf_id))))"

section \<open>The test\<close>

definition client_rdma_msg_handler_bak :: "bakapi \<Rightarrow> addr \<Rightarrow> (world, unit) kern" where
  "client_rdma_msg_handler_bak ba arg =
     bindK (load w_mhs arg) (\<lambda>param. let msg = mh_msg param in
     bindK (load w_rmsgs msg) (\<lambda>m.
     thenK (sem_post ba (hdr_sem (rpc_header m)))
     (thenK (free_at w_rmsgs w_rmsgs_update msg)
     (free_at w_mhs w_mhs_update arg))))"

text \<open>The program's arguments are a list, the first of them its name.\<close>

definition notamainanymore ::
    "kapi \<Rightarrow> kpapi \<Rightarrow> testapi \<Rightarrow> bakapi \<Rightarrow> (env_event \<Rightarrow> (world, unit) kern)
     \<Rightarrow> (addr \<Rightarrow> addr \<Rightarrow> addr \<Rightarrow> addr \<Rightarrow> c_int \<Rightarrow> u64 \<Rightarrow> (world, c_int) kern) \<Rightarrow> addr \<Rightarrow> test_mem \<Rightarrow> string list
     \<Rightarrow> (world, c_int) kern" where
  "notamainanymore api kp ta ba intr send rdma_cb tm argv =
     (if length argv < 2 then returnK 1
      else if argv ! 1 \<noteq> ''rdma'' then returnK 1
      else
        bindK (init_rpc_client_bak api kp ta ba intr rdma_cb RPC_CH_RDMA (g_ip_addr tm) g_port MAX_MSG_DATA_SIZE (Fn_user 0)) (\<lambda>rpc_cli_ch.
        thenK (create_at w_waitqs w_waitqs_update (stack_sem tm) ())
        (thenK (send_rpc_msg_to_server_bak intr send
            \<lparr>req_rpc_ch = rpc_cli_ch, req_data = data_lit tm, req_sem = stack_sem tm\<rparr>)
        (thenK (sem_wait ba (stack_sem tm))
        (bindK (if rpc_cli_ch = NULL then returnK (- 1) else thenK (destroy_rpc_client_bak ba rpc_cli_ch) (returnK 0)) (\<lambda>ret.
         thenK (release w_waitqs w_waitqs_update (stack_sem tm)) (returnK ret)))))))"

section \<open>The ping module leaves RPC channels alone\<close>

definition keeps_rpcs :: "(world, 'a) kern \<Rightarrow> bool" where
  "keeps_rpcs m \<longleftrightarrow> (\<forall>w a w'. m w = Inr (a, w') \<longrightarrow> w_rpcs w' = w_rpcs w)"

named_theorems rpcs_rules \<open>operations that keep every RPC channel\<close>

lemma rpcs_basic [rpcs_rules]: "keeps_rpcs (returnK a)" "keeps_rpcs (failK e)" "keeps_rpcs (getK g)" "keeps_rpcs (load get p)"
  "keeps_rpcs (log_ev e')"
  by (auto simp: keeps_rpcs_def load_def log_ev_def split: option.splits if_splits)

lemma rpcs_bindK [rpcs_rules]: "keeps_rpcs m \<Longrightarrow> (\<And>a. keeps_rpcs (f a)) \<Longrightarrow> keeps_rpcs (bindK m f)"
  unfolding keeps_rpcs_def bindK_eq_Inr by metis

lemma rpcs_thenK [rpcs_rules]: "keeps_rpcs m \<Longrightarrow> keeps_rpcs n \<Longrightarrow> keeps_rpcs (thenK m n)"
  unfolding thenK_def by (intro rpcs_bindK)

lemma rpcs_branch [rpcs_rules]:
  "keeps_rpcs m \<Longrightarrow> keeps_rpcs n \<Longrightarrow> keeps_rpcs (if b then m else n)" "keeps_rpcs u \<Longrightarrow> keeps_rpcs (whenK b u)"
  "(\<And>x y. keeps_rpcs (f x y)) \<Longrightarrow> keeps_rpcs (case p of (x, y) \<Rightarrow> f x y)"
  "keeps_rpcs n' \<Longrightarrow> (\<And>x. keeps_rpcs (g x)) \<Longrightarrow> keeps_rpcs (case o' of None \<Rightarrow> n' | Some x \<Rightarrow> g x)"
  by (simp_all add: whenK_def rpcs_basic split: prod.splits option.splits)

lemma rpcs_heap [rpcs_rules]:
  assumes "\<And>h w. w_rpcs (upd h w) = w_rpcs w"
  shows "keeps_rpcs (modify_at get upd p g)" "keeps_rpcs (create_at get upd p v)" "keeps_rpcs (release get upd p)" "keeps_rpcs (free_at get upd p)"
  using assms
  by (auto simp: keeps_rpcs_def modify_at_def create_at_def release_def free_at_def split: option.splits if_splits)

lemma rpcs_fills: "w_rpcs (fold apply_fill fs w) = w_rpcs w"
proof (induction fs arbitrary: w)
  case (Cons f fs)
  have "w_rpcs (apply_fill f w) = w_rpcs w" by (cases f) (auto simp: apply_fill_def split: option.splits)
  then show ?case using Cons by simp
qed simp

lemma rpcs_poll [rpcs_rules]: "keeps_rpcs (poll_cq kp cq)"
proof -
  have "keeps_rpcs (modifyK (fold apply_fill fs))" for fs by (simp add: keeps_rpcs_def rpcs_fills)
  then show ?thesis unfolding poll_cq_def by (intro rpcs_rules)
qed

lemma rpcs_calls [rpcs_rules]:
  "keeps_rpcs (wake_up_kcb cbp)" "keeps_rpcs (ib_post_recv api qp wr)" "keeps_rpcs (ib_req_notify_cq api cq)"
  "keeps_rpcs (rdma_resolve_route api cm)" "keeps_rpcs (rdma_resolve_addr api cm sa)" "keeps_rpcs (rdma_connect api cm prm)"
  "keeps_rpcs (rdma_set_service_type cm tos)" "keeps_rpcs (rdma_destroy_id cm)" "keeps_rpcs (ib_dealloc_pd p)" "keeps_rpcs (ib_destroy_cq q)"
  "keeps_rpcs (ib_destroy_qp q')" "keeps_rpcs (ib_alloc_pd api dev)" "keeps_rpcs (ib_create_cq api dev ctx)"
  "keeps_rpcs (rdma_create_qp api cm pd at)" "keeps_rpcs (ib_dma_map_single api dev b n)" "keeps_rpcs (dma_unmap_single a)"
  "keeps_rpcs (dma_alloc_coherent kp dev n)" "keeps_rpcs (dma_free_coherent b)" "keeps_rpcs (ib_alloc_mr api kp pd k)" "keeps_rpcs (ib_dereg_mr mr)"
  unfolding wake_up_kcb_def ib_post_recv_def ib_req_notify_cq_def rdma_resolve_route_def rdma_resolve_addr_def rdma_connect_def
    rdma_set_service_type_def rdma_destroy_id_def ib_dealloc_pd_def ib_destroy_cq_def ib_destroy_qp_def ib_alloc_pd_def ib_create_cq_def
    rdma_create_qp_def ib_dma_map_single_def dma_unmap_single_def dma_alloc_coherent_def dma_free_coherent_def ib_alloc_mr_def ib_dereg_mr_def Let_def
  by (intro rpcs_rules; simp)+

lemma rpcs_kcb [rpcs_rules]: "keeps_rpcs (upd_kcb p f)" "keeps_rpcs (free_at w_kcbs w_kcbs_update p)"
  by (intro rpcs_rules; simp)+

lemma rpcs_kcm_deliver: "keeps_rpcs (kcm_deliver api cid ev)"
  unfolding kcm_deliver_def krping_cma_event_handler_def Let_def by (cases ev; simp) (intro rpcs_rules)+

lemma rpcs_kcq_loop: "keeps_rpcs (krping_cq_loop n api kp cbp)"
proof (induction n)
  case (Suc n)
  have rcv: "keeps_rpcs (krping_recv_wc api kp cbp wc)" for wc
    unfolding krping_recv_wc_def server_recv_def client_recv_def by (intro rpcs_rules)
  have wc: "keeps_rpcs (krping_handle_wc api kp cbp wc)" for wc
    unfolding krping_handle_wc_def by (cases "wc_opcode wc"; simp) (intro rpcs_rules rcv)+
  have err: "keeps_rpcs (krping_cq_error cbp)" unfolding krping_cq_error_def by (intro rpcs_rules)
  have st: "keeps_rpcs (case s of IB_WC_SUCCESS \<Rightarrow> a | IB_WC_WR_FLUSH_ERR \<Rightarrow> b | IB_WC_OTHER_ERR n \<Rightarrow> c)"
    if "keeps_rpcs a" "keeps_rpcs b" "keeps_rpcs c" for s and a b c :: "(world, bool) kern" using that by (cases s) simp_all
  have "keeps_rpcs (krping_cq_once api kp cbp)"
    unfolding krping_cq_once_def by (intro rpcs_rules st wc err)
  with Suc show ?case by (auto intro!: rpcs_rules)
qed (simp only: krping_cq_loop.simps rpcs_rules)

lemma rpcs_intr: "keeps_rpcs (krping_intr fuel api kp e)"
proof (cases e)
  case (CqEvent cq)
  then show ?thesis unfolding krping_intr_def krping_cq_event_handler_def by (auto intro!: rpcs_rules rpcs_kcq_loop)
qed (simp_all add: krping_intr_def rpcs_kcm_deliver rpcs_rules)

lemma rpcs_wait_loop:
  assumes "\<And>e. keeps_rpcs (intr e)"
  shows "keeps_rpcs (wait_loop intr q cond awake es)"
proof -
  have "wait_loop intr q cond awake es w = Inr (a, w') \<Longrightarrow> w_rpcs w' = w_rpcs w" for w a w'
  proof (induction es arbitrary: awake w)
    case (Cons e es)
    show ?case
    proof (cases "awake \<and> cond w \<or> e = SignalEvent")
      case False
      then obtain u w1 where i: "intr e w = Inr (u, w1)" and rest: "wait_loop intr q cond (wakes q w < wakes q w1) es w1 = Inr (a, w')"
        using Cons.prems by (auto simp: wait_loop.simps split: if_splits sum.splits)
      have "w_rpcs w1 = w_rpcs w" using assms i unfolding keeps_rpcs_def by blast
      then show ?thesis using Cons.IH[OF rest] by simp
    qed (use Cons.prems in \<open>auto simp: wait_loop.simps split: if_splits\<close>)
  qed (auto simp: wait_loop.simps split: if_splits)
  then show ?thesis by (simp add: keeps_rpcs_def)
qed

lemma rpcs_init_client: "keeps_rpcs (krping_init_client api kp (krping_intr n api kp) cbp)"
proof -
  have wait: "keeps_rpcs (wait_kcb (krping_intr n api kp) cbp cond)" for cond
    unfolding wait_kcb_def by (intro rpcs_rules rpcs_wait_loop rpcs_intr)
  have "keeps_rpcs (krping_bind_client api kp (krping_intr n api kp) cbp)" "keeps_rpcs (krping_connect_client api (krping_intr n api kp) cbp)"
    unfolding krping_bind_client_def krping_connect_client_def by (intro rpcs_rules wait)+
  moreover have "keeps_rpcs (krping_setup_qp api cbp cm)" for cm
    unfolding krping_setup_qp_def krping_setup_qp_err1_def krping_setup_qp_err2_def krping_create_qp_def krping_create_qp_on_def Let_def
    by (intro rpcs_rules)
  moreover have "keeps_rpcs (krping_setup_buffers api kp cbp)"
    unfolding krping_setup_buffers_def krping_setup_bail_def map_infos_def krping_setup_wr_def dereg_valid_def free_coherent_of_def Let_def
    by (intro rpcs_rules)
  moreover have "keeps_rpcs (krping_free_buffers cbp)" "keeps_rpcs (krping_free_qp cbp)" "keeps_rpcs (set_tos cbp)" "keeps_rpcs (post_first api cbp)"
    unfolding krping_free_buffers_def dereg_set_def free_coherent_of_def krping_free_qp_def set_tos_def post_first_def by (intro rpcs_rules)+
  ultimately show ?thesis unfolding krping_init_client_def Let_def by (intro rpcs_rules)
qed

section \<open>What the client does\<close>

text \<open>A channel that \<open>init_rpc_client\<close> returned has no bitmap, because the line that creates it is commented out.\<close>

lemma rpcs_rdma_case: "keeps_rpcs (rdma_case_bak api kp ta (krping_intr n api kp) cb target port sz h)"
  unfolding rdma_case_bak_def by (intro rpcs_rules rpcs_init_client)

lemma init_bak_channel:
  assumes ba: "wq_init_sound ba"
    and run: "init_rpc_client_bak api kp ta ba (krping_intr n api kp) cb ty target port sz h w = Inr (p, w')" and p: "p \<noteq> 0"
  obtains ch where "w_rpcs w' p = Some ch" "msgbuf_bitmap ch = 0" "\<not> msgbuf_bitmap_lock ch" "ch_type ch = RPC_CH_RDMA" "ch_cb ch \<noteq> 0"
proof -
  have err: "init_rpc_client_err q v = Inr (r, v') \<Longrightarrow> r = 0" for q v r v' by (auto simp: init_rpc_client_err_def thenK_eq_Inr)
  define q where "q = kzalloc_ret api w (sizeof_rpc_ch_info api)"
  define w1 where "w1 = w\<lparr>w_trace := EvAlloc q (sizeof_rpc_ch_info api) # w_trace w, w_rpcs := (w_rpcs w)(q \<mapsto> zero_rpc_ch\<lparr>ch_type := ty\<rparr>)\<rparr>"
  let ?case = "rdma_case_bak api kp ta (krping_intr n api kp) cb target port sz h"
  let ?fin = "\<lambda>cb. thenK (upd_rpc q (\<lambda>c. c\<lparr>ch_cb := cb\<rparr>))
          (bindK (load w_rpcs q) (\<lambda>ch. if ch_cb ch = NULL then init_rpc_client_err q else returnK q))"
  let ?rest = "if ty = RPC_CH_RDMA then bindK ?case ?fin else init_rpc_client_err q"
  have "q \<noteq> 0"
  proof
    assume "q = 0"
    then show False using run by (simp add: init_rpc_client_bak_def run_simps Let_def q_def)
  qed
  then have "thenK (wq_init_lock ba q) ?rest w1 = Inr (p, w')"
    using run unfolding init_rpc_client_bak_def by (simp add: run_simps Let_def q_def[symmetric] w1_def cong: if_cong)
  then obtain u w2 where l: "wq_init_lock ba q w1 = Inr (u, w2)" and r: "?rest w2 = Inr (p, w')"
    by (auto simp only: thenK_eq_Inr)
  have ty: "ty = RPC_CH_RDMA" using r err p by (auto split: if_splits)
  have "w_rpcs w2 q = Some (zero_rpc_ch\<lparr>ch_type := ty, msgbuf_bitmap_lock := False\<rparr>)"
    using ba l unfolding wq_init_sound_def w1_def by fastforce
  moreover from r obtain c w3 where k: "?case w2 = Inr (c, w3)" and r3: "?fin c w3 = Inr (p, w')"
    unfolding if_P[OF ty] bindK_eq_Inr by blast
  moreover have "w_rpcs w3 = w_rpcs w2" using rpcs_rdma_case k unfolding keeps_rpcs_def by blast
  ultimately have "w_rpcs w3 q = Some (zero_rpc_ch\<lparr>ch_type := ty, msgbuf_bitmap_lock := False\<rparr>)" by simp
  then show thesis
    using r3 \<open>q \<noteq> 0\<close> p err that ty by (auto simp: run_simps zero_rpc_ch_def split: if_splits)
qed

lemma no_bitmap_alloc:
  assumes "p = 0 \<or> (\<exists>ch. w_rpcs w p = Some ch \<and> msgbuf_bitmap ch = 0 \<and> \<not> msgbuf_bitmap_lock ch)"
  shows "alloc_msgbuf_id intr p w = Inl NullDeref"
proof -
  have "alloc_try p b w = Inl NullDeref" for b
    using assms
    by (cases "p = 0") (auto simp: alloc_try_def spin_lock_def thenK_def bindK_def load_def modify_at_def bit_array_find_first_clear_bit_def)
  then show ?thesis by (cases "w_pending w") (simp_all add: alloc_msgbuf_id_def bindK_def)
qed

section \<open>Properties\<close>

text \<open>
  C38. The earlier client could not make a single call. Started without \<open>rdma\<close> as its argument the
  program returns 1. Otherwise, whatever the uninitialised pointer holds and whatever
  \<open>init_rpc_client\<close> returns, the first request dereferences NULL: the bitmap of a channel is never
  created, and a NULL channel is used before it is tested.
\<close>

theorem earlier_client_faults:
  assumes "wq_init_sound ba"
  shows "(length argv < 2 \<or> argv ! 1 \<noteq> ''rdma'' \<longrightarrow>
            notamainanymore api kp ta ba (krping_intr n api kp) send cb tm argv w = Inr (1, w))
     \<and> (2 \<le> length argv \<and> argv ! 1 = ''rdma''
          \<and> init_rpc_client_bak api kp ta ba (krping_intr n api kp) cb RPC_CH_RDMA (g_ip_addr tm) g_port MAX_MSG_DATA_SIZE (Fn_user 0) w = Inr (p, w1) \<longrightarrow>
            notamainanymore api kp ta ba (krping_intr n api kp) send cb tm argv w = Inl NullDeref)"
proof (intro conjI impI; (elim conjE)?)
  show "notamainanymore api kp ta ba (krping_intr n api kp) send cb tm argv w = Inr (1, w)"
    if "length argv < 2 \<or> argv ! 1 \<noteq> ''rdma''" using that by (auto simp: notamainanymore_def)
  assume a: "2 \<le> length argv" "argv ! 1 = ''rdma''"
    and init: "init_rpc_client_bak api kp ta ba (krping_intr n api kp) cb RPC_CH_RDMA (g_ip_addr tm) g_port MAX_MSG_DATA_SIZE (Fn_user 0) w = Inr (p, w1)"
  let ?w = "w1\<lparr>w_waitqs := (w_waitqs w1)(stack_sem tm \<mapsto> ())\<rparr>"
  have "p = 0 \<or> (\<exists>ch. w_rpcs ?w p = Some ch \<and> msgbuf_bitmap ch = 0 \<and> \<not> msgbuf_bitmap_lock ch)"
  proof (cases "p = 0")
    case False
    from assms init False show ?thesis by (rule init_bak_channel) simp
  qed simp
  then have "send_rpc_msg_to_server_bak (krping_intr n api kp) send \<lparr>req_rpc_ch = p, req_data = data_lit tm, req_sem = stack_sem tm\<rparr> ?w = Inl NullDeref"
    using no_bitmap_alloc[of p ?w "krping_intr n api kp"] by (simp add: send_rpc_msg_to_server_bak_def Let_def bindK_Inl)
  then show "notamainanymore api kp ta ba (krping_intr n api kp) send cb tm argv w = Inl NullDeref"
    using a by (simp add: notamainanymore_def bindK_Inr[where m = "init_rpc_client_bak api kp ta ba (krping_intr n api kp) cb RPC_CH_RDMA (g_ip_addr tm) g_port MAX_MSG_DATA_SIZE (Fn_user 0)", OF init] run_simps thenK_Inl)
qed

definition sample_ba :: bakapi where
  "sample_ba = \<lparr>wq_init_lock = (\<lambda>p. upd_rpc p (\<lambda>c. c\<lparr>msgbuf_bitmap_lock := False\<rparr>)), spin_destroy = (\<lambda>p. returnK ()),
     sem_post = (\<lambda>p. returnK ()), sem_wait = (\<lambda>p. returnK ())\<rparr>"

lemma sample_wq_init: "wq_init_sound sample_ba"
  by (auto simp: wq_init_sound_def sample_ba_def modify_at_def split: if_splits option.splits)

definition bak_world :: world where
  "bak_world = empty_world\<lparr>w_kcbs := [0x2200 \<mapsto> zero_krping_cb\<lparr>kc_cm_id := 0x6000\<rparr>],
     w_cmids := [0x6000 \<mapsto> \<lparr>id_context = 0x2200, id_qp = 0\<rparr>], w_bytes := [0x7100 \<mapsto> [49, 0], 0x7200 \<mapsto> hello_world],
     w_pending := [CmEvent 0x6000 RDMA_CM_EVENT_ADDR_RESOLVED, CmEvent 0x6000 RDMA_CM_EVENT_ROUTE_RESOLVED, CmEvent 0x6000 RDMA_CM_EVENT_ESTABLISHED]\<rparr>"

lemma bak_comes_up:
  "case init_rpc_client_bak sample_api sample_kp sample_testapi sample_ba (krping_intr 0 sample_api sample_kp) 0x2200 RPC_CH_RDMA
      (g_ip_addr sample_mem) g_port MAX_MSG_DATA_SIZE (Fn_user 0) bak_world of Inl e \<Rightarrow> False | Inr (p, w) \<Rightarrow> p \<noteq> 0"
  by code_simp

theorem earlier_client_faults_witness:
  "notamainanymore sample_api sample_kp sample_testapi sample_ba (krping_intr 0 sample_api sample_kp) (\<lambda>c r d s k q. returnK 0) 0x2200
     sample_mem [''test'', ''rdma''] bak_world = Inl NullDeref"
proof -
  obtain p w1 where "init_rpc_client_bak sample_api sample_kp sample_testapi sample_ba (krping_intr 0 sample_api sample_kp) 0x2200 RPC_CH_RDMA
      (g_ip_addr sample_mem) g_port MAX_MSG_DATA_SIZE (Fn_user 0) bak_world = Inr (p, w1)"
    using bak_comes_up by (auto split: sum.splits)
  then show ?thesis using earlier_client_faults[OF sample_wq_init, where argv = "[''test'', ''rdma'']"] by simp
qed

text \<open>
  The present response handler is the earlier one after giving the message buffer back: the earlier
  one leaves the buffer of every answered request marked as in use.
\<close>

theorem handler_gives_back_first:
  assumes "arg \<noteq> NULL" and "w_rhs w arg = Some pa" and "channel_ok (rh_client_rpc_ch pa) ch bs w"
  shows "client_rpc_rdma_msg_handler users arg w
     = client_rpc_rdma_msg_handler_bak users arg (with_bitmap ch (free_slot (scast (rh_msgbuf_id pa)) bs) w)"
proof -
  have "free_msgbuf_id (rh_client_rpc_ch pa) (scast (rh_msgbuf_id pa)) w = Inr ((), with_bitmap ch (free_slot (scast (rh_msgbuf_id pa)) bs) w)"
    using free_msgbuf_id_run[OF assms(3)] by simp
  then show ?thesis
    using assms(1,2)
    by (simp add: client_rpc_rdma_msg_handler_def client_rpc_rdma_msg_handler_bak_def run_simps
        thenK_Inr[where m = "free_msgbuf_id (rh_client_rpc_ch pa) (scast (rh_msgbuf_id pa))"])
qed

text \<open>
  Destroying a channel of the earlier client treats the control block of the ping module as one of
  \<^verbatim>\<open>rdma.c\<close>: when no such block lives at its address, the access faults and the channel is not freed.
\<close>

theorem earlier_destroy_confuses_blocks:
  assumes "p \<noteq> NULL" and "w_rpcs w p = Some ch" and "ch_type ch = RPC_CH_RDMA" and "ch_cb ch \<noteq> NULL" and "w_cbs w (ch_cb ch) = None"
  shows "destroy_rpc_client_bak ba p w = Inl BadAccess"
  using assms by (simp add: destroy_rpc_client_bak_def destroy_rdma_client_def thenK_def bindK_def load_def)

end
