(* ===== verification/Krping_Getopt.thy ===== *)
theory Krping_Getopt
  imports Kern_Prelude
begin

unbundle bit_operations_syntax

text \<open>
  The option parser of the krping module (\<^verbatim>\<open>bak/getopt.c\<close>). A C string is a list of characters without
  its terminating zero. The parser cuts the string in place with \<open>strsep\<close>; what the caller sees of
  that is the rest of the string, the token and the argument, which are outputs of the model. The
  numeric conversion \<open>simple_strtoul\<close> is a kernel function and a parameter: it returns the number and
  the rest of the string it did not read.
\<close>

section \<open>Tokens\<close>

text \<open>
  \<open>strsep\<close> on a string that is not NULL: the token before the first separator, and the rest after it,
  NULL when there is none. The token is cut at \<open>'='\<close> the same way.
\<close>

fun strsep :: "char \<Rightarrow> string \<Rightarrow> string \<times> string option" where
  "strsep c [] = ([], None)"
| "strsep c (x # xs) = (if x = c then ([], Some xs) else case strsep c xs of (t, r) \<Rightarrow> (x # t, r))"

definition rest_size :: "string option \<Rightarrow> nat" where
  "rest_size s = (case s of None \<Rightarrow> 0 | Some xs \<Rightarrow> Suc (length xs))"

lemma strsep_shrinks: "strsep c xs = (t, r) \<Longrightarrow> rest_size r + length t \<le> length xs"
  by (induction xs arbitrary: t) (auto simp: rest_size_def split: if_splits prod.splits option.splits)

lemma strsep_measure: "(t, r) = strsep c xs \<Longrightarrow> rest_size r < rest_size (Some xs)"
  using strsep_shrinks[of c xs t r] by (simp add: rest_size_def)

text \<open>The loop that skips empty tokens.\<close>

function next_token :: "string option \<Rightarrow> (string \<times> string option) option" where
  "next_token None = None"
| "next_token (Some s) = (case strsep (CHR '','') s of (t, r) \<Rightarrow> if t = [] then next_token r else Some (t, r))"
  by pat_completeness auto
termination
  by (relation "measure rest_size") (auto dest: strsep_measure)

section \<open>Options\<close>

definition OPT_NOPARAM :: u32 where
  "OPT_NOPARAM = 1"

definition OPT_INT :: u32 where
  "OPT_INT = 2"

definition OPT_STRING :: u32 where
  "OPT_STRING = 4"

record krping_option =
  opt_name :: string
  opt_has_arg :: u32
  opt_val :: c_int

text \<open>
  The search through the option table, which ends at its NULL entry. The result is the returned
  value and the number stored through \<open>value\<close>, if one is.
\<close>

fun search_opts ::
    "(string \<Rightarrow> u64 \<times> string) \<Rightarrow> krping_option list \<Rightarrow> string \<Rightarrow> string option \<Rightarrow> c_int \<times> u64 option" where
  "search_opts strtoul [] token val = (- 95, None)"
| "search_opts strtoul (p # ps) token val =
     (if opt_name p = token then
        (case val of
           None \<Rightarrow> (if opt_has_arg p AND OPT_NOPARAM \<noteq> 0 then opt_val p else - 22, None)
         | Some v \<Rightarrow>
             if opt_has_arg p AND OPT_INT \<noteq> 0 then
               (case strtoul v of (n, rest) \<Rightarrow> (if rest = [] then opt_val p else - 33, Some n))
             else if opt_has_arg p AND OPT_STRING \<noteq> 0 then (opt_val p, None)
             else (- 22, None))
      else search_opts strtoul ps token val)"

record getopt_out =
  go_ret :: c_int
  go_options :: "string option"
  go_optopt :: "string option"
  go_optarg :: "string option"
  go_value :: "u64 option"

text \<open>
  One call: \<open>go_options\<close> is what \<open>*options\<close> points to afterwards, \<open>go_optopt\<close> the token (the caller may
  pass NULL for it), \<open>go_optarg\<close> the argument or NULL. When there is no token the code writes neither, and
  both fields are \<open>None\<close>.
\<close>

definition krping_getopt ::
    "(string \<Rightarrow> u64 \<times> string) \<Rightarrow> krping_option list \<Rightarrow> string option \<Rightarrow> getopt_out" where
  "krping_getopt strtoul opts options =
     (case next_token options of
        None \<Rightarrow> \<lparr>go_ret = 0, go_options = None, go_optopt = None, go_optarg = None, go_value = None\<rparr>
      | Some (t, r) \<Rightarrow>
          (case strsep (CHR ''='') t of (token, val) \<Rightarrow>
           case search_opts strtoul opts token val of (ret, value) \<Rightarrow>
             \<lparr>go_ret = ret, go_options = r, go_optopt = Some token, go_optarg = val, go_value = value\<rparr>))"

section \<open>The reference: all non-empty comma-separated parts\<close>

fun split_on :: "char \<Rightarrow> string \<Rightarrow> string list" where
  "split_on c [] = [[]]"
| "split_on c (x # xs) =
     (if x = c then [] # split_on c xs
      else case split_on c xs of [] \<Rightarrow> [[x]] | t # ts \<Rightarrow> (x # t) # ts)"

definition tokens :: "string option \<Rightarrow> string list" where
  "tokens s = (case s of None \<Rightarrow> [] | Some xs \<Rightarrow> filter (\<lambda>t. t \<noteq> []) (split_on (CHR '','') xs))"

lemma strsep_split: "strsep c xs = (t, r) \<Longrightarrow> split_on c xs = t # (case r of None \<Rightarrow> [] | Some ys \<Rightarrow> split_on c ys)"
  by (induction xs arbitrary: t r) (auto split: if_splits prod.splits option.splits list.splits)

lemma next_token_tokens:
  "(case next_token s of None \<Rightarrow> tokens s = [] | Some (t, r) \<Rightarrow> tokens s = t # tokens r \<and> t \<noteq> [])"
proof (induction s rule: next_token.induct)
  case (2 s)
  obtain t r where tr: "strsep (CHR '','') s = (t, r)" by fastforce
  note sp = strsep_split[OF tr]
  show ?case
  proof (cases "t = []")
    case True
    then have "tokens (Some s) = tokens r" using sp by (simp add: tokens_def split: option.splits)
    then show ?thesis using 2[OF tr[symmetric] True] tr True by (auto split: option.splits)
  next
    case False
    then show ?thesis using sp tr by (simp add: tokens_def split: option.splits)
  qed
qed (simp add: tokens_def)

lemma next_token_shrinks: "next_token s = Some (t, r) \<Longrightarrow> rest_size r < rest_size s"
proof (induction s rule: next_token.induct)
  case (2 s)
  obtain t' r' where tr: "strsep (CHR '','') s = (t', r')" by fastforce
  have sh: "rest_size r' \<le> length s" using strsep_shrinks[OF tr] by simp
  show ?case
  proof (cases "t' = []")
    case True
    then have "rest_size r < rest_size r'" using 2 tr by simp
    then show ?thesis using sh by (simp add: rest_size_def)
  next
    case False
    then show ?thesis using 2(2) tr sh by (simp add: rest_size_def)
  qed
qed simp

lemma getopt_shrinks:
  "next_token s \<noteq> None \<Longrightarrow> rest_size (go_options (krping_getopt f opts s)) < rest_size s"
  using next_token_shrinks by (auto simp: krping_getopt_def split: prod.splits)

section \<open>All options of a command\<close>

text \<open>The options and arguments that repeated calls deliver, until no token is left.\<close>

function parse_args ::
    "(string \<Rightarrow> u64 \<times> string) \<Rightarrow> krping_option list \<Rightarrow> string option \<Rightarrow> (string \<times> string option) list" where
  "parse_args f opts s =
     (let out = krping_getopt f opts s in
      case go_optopt out of
        None \<Rightarrow> []
      | Some t \<Rightarrow> (t, go_optarg out) # parse_args f opts (go_options out))"
  by pat_completeness auto
termination
proof (relation "measure (\<lambda>(f, opts, s). rest_size s)")
  fix f opts s out t
  assume "out = krping_getopt f opts s" "go_optopt out = Some t"
  then have "next_token s \<noteq> None" by (cases "next_token s") (simp_all add: krping_getopt_def)
  with getopt_shrinks \<open>out = _\<close> show "((f, opts, go_options out), f, opts, s) \<in> measure (\<lambda>(f, opts, s). rest_size s)"
    by simp
qed simp

declare parse_args.simps [simp del]

lemma parse_args_tokens: "parse_args f opts s = map (strsep (CHR ''='')) (tokens s)"
proof (induction f opts s rule: parse_args.induct)
  case (1 f opts s)
  show ?case
  proof (cases "next_token s")
    case None
    then show ?thesis using next_token_tokens[of s] by (simp add: parse_args.simps krping_getopt_def)
  next
    case (Some tr)
    obtain t r where tr: "tr = (t, r)" by fastforce
    have "tokens s = t # tokens r" using next_token_tokens[of s] Some tr by simp
    moreover have "go_optopt (krping_getopt f opts s) = Some (fst (strsep (CHR ''='') t))"
      "go_optarg (krping_getopt f opts s) = snd (strsep (CHR ''='') t)" "go_options (krping_getopt f opts s) = r"
      using Some tr by (simp_all add: krping_getopt_def split: prod.splits)
    ultimately show ?thesis using 1 by (subst parse_args.simps) simp
  qed
qed

text \<open>The text of an option, and of a command.\<close>

definition print_opt :: "string \<times> string option \<Rightarrow> string" where
  "print_opt o' = fst o' @ (case snd o' of None \<Rightarrow> [] | Some a \<Rightarrow> CHR ''='' # a)"

fun print_opts :: "(string \<times> string option) list \<Rightarrow> string" where
  "print_opts [] = []"
| "print_opts [x] = print_opt x"
| "print_opts (x # xs) = print_opt x @ CHR '','' # print_opts xs"

definition plain_opt :: "string \<times> string option \<Rightarrow> bool" where
  "plain_opt o' \<longleftrightarrow> fst o' \<noteq> [] \<and> CHR '','' \<notin> set (fst o') \<and> CHR ''='' \<notin> set (fst o')
     \<and> (case snd o' of None \<Rightarrow> True | Some a \<Rightarrow> CHR '','' \<notin> set a)"

lemma strsep_cut: "c \<notin> set t \<Longrightarrow> strsep c (t @ c # ys) = (t, Some ys)" "c \<notin> set t \<Longrightarrow> strsep c t = (t, None)"
  by (induction t) auto

lemma split_cut: "c \<notin> set t \<Longrightarrow> split_on c (t @ c # ys) = t # split_on c ys" "c \<notin> set t \<Longrightarrow> split_on c t = [t]"
  by (simp_all add: strsep_split[OF strsep_cut(1)] strsep_split[OF strsep_cut(2)])

lemma plain_text: "plain_opt x \<Longrightarrow> CHR '','' \<notin> set (print_opt x) \<and> print_opt x \<noteq> [] \<and> strsep (CHR ''='') (print_opt x) = x"
  by (cases x) (auto simp: plain_opt_def print_opt_def strsep_cut split: option.splits)

lemma tokens_print: "list_all plain_opt xs \<Longrightarrow> tokens (Some (print_opts xs)) = map print_opt xs"
proof (induction xs rule: print_opts.induct)
  case (3 x y xs)
  then show ?case using plain_text[of x] by (simp add: tokens_def split_cut)
qed (use plain_text in \<open>auto simp: tokens_def split_cut\<close>)

section \<open>Results\<close>

lemma search_results: "fst (search_opts f opts t v) \<in> opt_val ` set opts \<union> {- 22, - 33, - 95}"
  by (induction f opts t v rule: search_opts.induct) (auto split: option.splits prod.splits)

lemma search_unknown: "t \<notin> opt_name ` set opts \<Longrightarrow> search_opts f opts t v = (- 95, None)"
  by (induction f opts t v rule: search_opts.induct) auto

lemma search_hit:
  "distinct (map opt_name opts) \<Longrightarrow> p \<in> set opts \<Longrightarrow> search_opts f opts (opt_name p) v = search_opts f [p] (opt_name p) v"
  by (induction opts) force+

section \<open>Properties\<close>


text \<open>
  C40. Parsing inverts printing: the text made of options without separators in their names and
  arguments is delivered back option by option, in order, whatever the option table and the numeric
  conversion.
\<close>

theorem option_text_round_trip:
  assumes "list_all plain_opt xs"
  shows "parse_args f opts (Some (print_opts xs)) = xs"
  using assms plain_text by (auto simp: parse_args_tokens tokens_print list_all_iff intro: map_idI)

theorem option_text_round_trip_witness:
  "parse_args (\<lambda>v. (9999, [])) [] (Some ''client,port=9999,validate'') = [(''client'', None), (''port'', Some ''9999''), (''validate'', None)]"
  using option_text_round_trip[of "[(''client'', None), (''port'', Some ''9999''), (''validate'', None)]"]
  by (simp add: plain_opt_def print_opt_def)

end
