(* ===== verification/Krping_Doit.thy ===== *)
theory Krping_Doit
  imports Krping_Client Krping_Getopt Kern_Module
begin

text \<open>
  The entry points of the ping module (\<^verbatim>\<open>bak/krping.c\<close>): the table of options, the loop that reads a command, the function
  that runs it, and the \<open>/proc\<close> entry. The parser cuts the command in place; no other statement reads the
  cut string, so the command is a value here. The server \<open>krping_run_server\<close> is called but defined nowhere
  in the repository: it is a parameter, and the theorems show that it is never called. The mutex
  around the list of blocks is held over single statements only and left out.
\<close>

section \<open>Options\<close>

definition optc :: "char \<Rightarrow> c_int" where
  "optc c = of_char c"

definition krping_opts :: "krping_option list" where
  "krping_opts = [
     \<lparr>opt_name = ''count'', opt_has_arg = OPT_INT, opt_val = optc (CHR ''C'')\<rparr>,
     \<lparr>opt_name = ''size'', opt_has_arg = OPT_INT, opt_val = optc (CHR ''S'')\<rparr>,
     \<lparr>opt_name = ''addr'', opt_has_arg = OPT_STRING, opt_val = optc (CHR ''a'')\<rparr>,
     \<lparr>opt_name = ''addr6'', opt_has_arg = OPT_STRING, opt_val = optc (CHR ''A'')\<rparr>,
     \<lparr>opt_name = ''port'', opt_has_arg = OPT_INT, opt_val = optc (CHR ''p'')\<rparr>,
     \<lparr>opt_name = ''verbose'', opt_has_arg = OPT_NOPARAM, opt_val = optc (CHR ''v'')\<rparr>,
     \<lparr>opt_name = ''validate'', opt_has_arg = OPT_NOPARAM, opt_val = optc (CHR ''V'')\<rparr>,
     \<lparr>opt_name = ''server'', opt_has_arg = OPT_NOPARAM, opt_val = optc (CHR ''s'')\<rparr>,
     \<lparr>opt_name = ''client'', opt_has_arg = OPT_NOPARAM, opt_val = optc (CHR ''c'')\<rparr>,
     \<lparr>opt_name = ''server_inv'', opt_has_arg = OPT_NOPARAM, opt_val = optc (CHR ''I'')\<rparr>,
     \<lparr>opt_name = ''wlat'', opt_has_arg = OPT_NOPARAM, opt_val = optc (CHR ''l'')\<rparr>,
     \<lparr>opt_name = ''rlat'', opt_has_arg = OPT_NOPARAM, opt_val = optc (CHR ''L'')\<rparr>,
     \<lparr>opt_name = ''bw'', opt_has_arg = OPT_NOPARAM, opt_val = optc (CHR ''B'')\<rparr>,
     \<lparr>opt_name = ''duplex'', opt_has_arg = OPT_NOPARAM, opt_val = optc (CHR ''d'')\<rparr>,
     \<lparr>opt_name = ''tos'', opt_has_arg = OPT_INT, opt_val = optc (CHR ''t'')\<rparr>,
     \<lparr>opt_name = ''txdepth'', opt_has_arg = OPT_INT, opt_val = optc (CHR ''T'')\<rparr>,
     \<lparr>opt_name = ''poll'', opt_has_arg = OPT_NOPARAM, opt_val = optc (CHR ''P'')\<rparr>,
     \<lparr>opt_name = ''local_dma_lkey'', opt_has_arg = OPT_NOPARAM, opt_val = optc (CHR ''Z'')\<rparr>,
     \<lparr>opt_name = ''read_inv'', opt_has_arg = OPT_NOPARAM, opt_val = optc (CHR ''R'')\<rparr>,
     \<lparr>opt_name = ''fr'', opt_has_arg = OPT_NOPARAM, opt_val = optc (CHR ''f'')\<rparr>]"

definition EINVAL :: c_int where
  "EINVAL = 22"

text \<open>
  The body of the option loop: \<open>in4_pton\<close> writes four bytes of the address when it succeeds, and reads
  its argument; numbers are cut to the width of the member they are stored in.
\<close>

definition doit_option ::
    "kapi \<Rightarrow> kpapi \<Rightarrow> c_int \<Rightarrow> string option \<Rightarrow> u64 \<Rightarrow> krping_cb \<times> c_int \<Rightarrow> fault + (krping_cb \<times> c_int)" where
  "doit_option api kp op optarg optint = (\<lambda>(cb, ret).
     if op = optc (CHR ''a'') then
       (case optarg of
          None \<Rightarrow> Inl NullDeref
        | Some s \<Rightarrow> Inr (cb\<lparr>kc_addr_str := optarg,
            kc_addr := (case pton4 kp s of None \<Rightarrow> kc_addr cb | Some a \<Rightarrow> take 4 a @ drop 4 (kc_addr cb)),
            kc_addr_type := ucast AF_INET\<rparr>, ret))
     else if op = optc (CHR ''p'') then Inr (cb\<lparr>kc_port := htons api (ucast optint)\<rparr>, ret)
     else if op = optc (CHR ''c'') then Inr (cb\<lparr>kc_server := 0\<rparr>, ret)
     else if op = optc (CHR ''S'') then
       (let size = ucast optint :: c_int in
        Inr (cb\<lparr>kc_size := size\<rparr>, if sint size < 1 \<or> sint RPING_BUFSIZE < sint size then EINVAL else ret))
     else if op = optc (CHR ''C'') then
       (let count = ucast optint :: c_int in
        Inr (cb\<lparr>kc_count := count\<rparr>, if sint count < 0 then EINVAL else ret))
     else if op = optc (CHR ''v'') then Inr (cb\<lparr>kc_verbose := kc_verbose cb + 1\<rparr>, ret)
     else Inr (cb, - EINVAL))"

text \<open>The loop. \<open>optint\<close> keeps its value when a call does not store one; at first it is uninitialised.\<close>

function doit_opts ::
    "kapi \<Rightarrow> kpapi \<Rightarrow> string option \<Rightarrow> u64 \<Rightarrow> krping_cb \<times> c_int \<Rightarrow> fault + (krping_cb \<times> c_int)" where
  "doit_opts api kp cmd optint cr =
     (let out = krping_getopt (strtoul kp) krping_opts cmd in
      if go_ret out = 0 then Inr cr
      else
        (let optint = (case go_value out of None \<Rightarrow> optint | Some n \<Rightarrow> n) in
         case doit_option api kp (go_ret out) (go_optarg out) optint cr of
           Inl e \<Rightarrow> Inl e
         | Inr cr \<Rightarrow> doit_opts api kp (go_options out) optint cr))"
  by pat_completeness auto
termination
proof (relation "measure (\<lambda>(api, kp, cmd, optint, cr). rest_size cmd)")
  fix api kp cmd optint cr out optint' cr'
  assume "out = krping_getopt (strtoul kp) krping_opts cmd" "go_ret out \<noteq> 0"
  moreover then have "next_token cmd \<noteq> None" by (cases "next_token cmd") (simp_all add: krping_getopt_def)
  ultimately show "((api, kp, go_options out, optint', cr'), api, kp, cmd, optint, cr) \<in> measure (\<lambda>(api, kp, cmd, optint, cr). rest_size cmd)"
    using getopt_shrinks by simp
qed simp

declare doit_opts.simps [simp del]

section \<open>Running a command\<close>

definition list_add_tail :: "addr \<Rightarrow> (world, unit) kern" where
  "list_add_tail cbp = modifyK (\<lambda>w. w\<lparr>w_klist := w_klist w @ [cbp]\<rparr>)"

definition list_del :: "addr \<Rightarrow> (world, unit) kern" where
  "list_del cbp = modifyK (\<lambda>w. w\<lparr>w_klist := remove1 cbp (w_klist w)\<rparr>)"

text \<open>What happens between the option loop and the label \<open>out\<close>.\<close>

definition doit_run ::
    "nat \<Rightarrow> kapi \<Rightarrow> kpapi \<Rightarrow> (env_event \<Rightarrow> (world, unit) kern) \<Rightarrow> (addr \<Rightarrow> (world, unit) kern) \<Rightarrow> addr \<Rightarrow> c_int \<Rightarrow> (world, c_int) kern" where
  "doit_run fuel api kp intr krping_run_server cbp ret =
     (if ret \<noteq> 0 then returnK ret
      else
        bindK (get_kcb cbp) (\<lambda>cb.
        if kc_server cb = - 1 then returnK (- EINVAL)
        else if kc_server cb \<noteq> 0 \<and> kc_frtest cb \<noteq> 0 then returnK (- EINVAL)
        else
          bindK (rdma_create_id api cbp) (\<lambda>cid.
          thenK (upd_kcb cbp (\<lambda>cb. cb\<lparr>kc_cm_id := cid\<rparr>))
          (if is_err api cid then returnK (ptr_err api cid)
           else
             thenK (if kc_server cb \<noteq> 0 then krping_run_server cbp else krping_run_client fuel api kp intr cbp)
             (bindK (get_kcb cbp) (\<lambda>cb.
              thenK (rdma_destroy_id (kc_cm_id cb)) (returnK ret)))))))"

definition krping_doit ::
    "nat \<Rightarrow> kapi \<Rightarrow> kpapi \<Rightarrow> (env_event \<Rightarrow> (world, unit) kern) \<Rightarrow> (addr \<Rightarrow> (world, unit) kern) \<Rightarrow> u64 \<Rightarrow> string \<Rightarrow> (world, c_int) kern" where
  "krping_doit fuel api kp intr krping_run_server garbage cmd =
     bindK (kzalloc_obj api w_kcbs w_kcbs_update (sizeof_krping_cb kp) zero_krping_cb) (\<lambda>cbp.
     if cbp = NULL then returnK (- ENOMEM)
     else
       thenK (list_add_tail cbp)
       (thenK (upd_kcb cbp (\<lambda>cb. cb\<lparr>kc_server := - 1, kc_state := TS_IDLE, kc_size := 64, kc_txdepth := RPING_SQ_DEPTH\<rparr>))
       (bindK (get_kcb cbp) (\<lambda>cb.
        case doit_opts api kp (Some cmd) garbage (cb, 0) of
          Inl e \<Rightarrow> failK e
        | Inr (cb, ret) \<Rightarrow>
            thenK (upd_kcb cbp (\<lambda>_. cb))
            (bindK (doit_run fuel api kp intr krping_run_server cbp ret) (\<lambda>ret.
             thenK (list_del cbp)
             (thenK (free_at w_kcbs w_kcbs_update cbp)
             (returnK ret))))))))"

section \<open>The proc entry\<close>

text \<open>
  The lines of the entry: \<open>%d\<close> and \<open>%lld\<close> print decimal numbers; the name of a device is a parameter.
\<close>

definition fmt_lld :: "u64 \<Rightarrow> byte list" where
  "fmt_lld i = (if sint i < 0 then 45 # digits (nat (- sint i)) else digits (nat (sint i)))"

definition stats_line :: "c_int \<Rightarrow> byte list \<Rightarrow> krping_stats \<Rightarrow> byte list" where
  "stats_line num name st =
     fmt_d num @ ascii ''-'' @ name
     @ concat (map (\<lambda>v. ascii '' '' @ fmt_lld v)
         [send_bytes st, send_msgs st, recv_bytes st, recv_msgs st, write_bytes st, write_msgs st, read_bytes st, read_msgs st])
     @ [10]"

primrec read_lines :: "(addr \<Rightarrow> byte list) \<Rightarrow> addr list \<Rightarrow> c_int \<Rightarrow> byte list \<Rightarrow> (world, byte list) kern" where
  "read_lines device_name [] num seq = returnK seq"
| "read_lines device_name (cbp # cbps) num seq =
     bindK (get_kcb cbp) (\<lambda>cb.
     if kc_pd cb \<noteq> NULL then
       bindK (load w_pds (kc_pd cb)) (\<lambda>pd.
       read_lines device_name cbps (num + 1) (seq @ stats_line num (device_name (pd_device pd)) (kc_stats cb)))
     else read_lines device_name cbps (num + 1) (seq @ fmt_d num @ ascii '' listen'' @ [10]))"

definition krping_read_proc_bak :: "testapi \<Rightarrow> (addr \<Rightarrow> byte list) \<Rightarrow> (world, c_int \<times> byte list) kern" where
  "krping_read_proc_bak ta device_name =
     bindK (module_get ta) (\<lambda>ok.
     if \<not> ok then returnK (- 19, [])
     else
       bindK (getK w_klist) (\<lambda>cbs.
       bindK (read_lines device_name cbs 1 []) (\<lambda>seq.
       thenK module_put (returnK (0, seq)))))"

text \<open>The string in a buffer ends before its first zero.\<close>

definition c_string :: "byte list \<Rightarrow> string" where
  "c_string bs = map (\<lambda>b. char_of (unat b)) (takeWhile (\<lambda>b. b \<noteq> 0) bs)"

definition krping_write_proc_bak ::
    "nat \<Rightarrow> kapi \<Rightarrow> kpapi \<Rightarrow> testapi \<Rightarrow> (env_event \<Rightarrow> (world, unit) kern) \<Rightarrow> (addr \<Rightarrow> (world, unit) kern) \<Rightarrow> (nat \<Rightarrow> byte list) \<Rightarrow> u64
     \<Rightarrow> addr \<Rightarrow> u64 \<Rightarrow> (world, 64 word) kern" where
  "krping_write_proc_bak fuel api kp ta intr krping_run_server junk garbage =
     proc_write api ta junk (\<lambda>cmd.
       bindK (load w_bytes cmd) (\<lambda>bs. krping_doit fuel api kp intr krping_run_server garbage (c_string bs)))"

definition krping_init_bak :: "testapi \<Rightarrow> (world, c_int) kern" where
  "krping_init_bak = proc_entry_add"

definition krping_exit_bak :: "(world, unit) kern" where
  "krping_exit_bak = proc_entry_remove"

section \<open>What the option loop does\<close>

text \<open>
  The reference: the error a part of the command causes, 0 when it is accepted, and the value of \<open>ret\<close>
  after the loop, which is the error of the last part that has one.
\<close>

definition opt_error :: "kpapi \<Rightarrow> string \<Rightarrow> c_int" where
  "opt_error kp t = (case strsep (CHR ''='') t of
     (name, None) \<Rightarrow> if name = ''client'' \<or> name = ''verbose'' then 0 else - 22
   | (name, Some v) \<Rightarrow>
       if name = ''addr'' then 0
       else if name = ''port'' \<or> name = ''size'' \<or> name = ''count'' then
         (case strtoul kp v of (n, rest) \<Rightarrow>
            if rest \<noteq> [] then - 22
            else if name = ''size'' \<and> \<not> (1 \<le> sint (ucast n :: c_int) \<and> sint (ucast n :: c_int) \<le> 131072)
                  \<or> name = ''count'' \<and> sint (ucast n :: c_int) < 0 then 22
            else 0)
       else - 22)"

definition last_error :: "kpapi \<Rightarrow> string list \<Rightarrow> c_int \<Rightarrow> c_int" where
  "last_error kp ts r = foldl (\<lambda>r t. if opt_error kp t = 0 then r else opt_error kp t) r ts"

definition opt_keeps :: "krping_cb \<Rightarrow> krping_cb \<Rightarrow> bool" where
  "opt_keeps cb cb' \<longleftrightarrow> kbuf_fresh cb' = kbuf_fresh cb \<and> kc_state cb' = kc_state cb \<and> kc_frtest cb' = kc_frtest cb
     \<and> kc_tos cb' = kc_tos cb \<and> kc_txdepth cb' = kc_txdepth cb"

definition opt_range :: "krping_cb \<Rightarrow> bool" where
  "opt_range cb \<longleftrightarrow> 1 \<le> sint (kc_size cb) \<and> sint (kc_size cb) \<le> 131072 \<and> 0 \<le> sint (kc_count cb)"

lemma strsep_text: "strsep c t = (n, v) \<Longrightarrow> t = n @ (case v of None \<Rightarrow> [] | Some x \<Rightarrow> c # x)"
  by (induction t arbitrary: n v) (auto split: if_splits prod.splits)

lemma opt_codes:
  "optc (CHR ''C'') = 67" "optc (CHR ''S'') = 83" "optc (CHR ''a'') = 97" "optc (CHR ''A'') = 65" "optc (CHR ''p'') = 112"
  "optc (CHR ''v'') = 118" "optc (CHR ''V'') = 86" "optc (CHR ''s'') = 115" "optc (CHR ''c'') = 99" "optc (CHR ''I'') = 73"
  "optc (CHR ''l'') = 108" "optc (CHR ''L'') = 76" "optc (CHR ''B'') = 66" "optc (CHR ''d'') = 100" "optc (CHR ''t'') = 116"
  "optc (CHR ''T'') = 84" "optc (CHR ''P'') = 80" "optc (CHR ''Z'') = 90" "optc (CHR ''R'') = 82" "optc (CHR ''f'') = 102"
  by (simp_all add: optc_def)

text \<open>The search through the table of this module, by the form of the option.\<close>

lemma search_flag:
  "fst (search_opts f krping_opts name None) =
     (if name = ''client'' then 99 else if name = ''verbose'' then 118
      else if name = ''validate'' then 86 else if name = ''server'' then 115 else if name = ''server_inv'' then 73
      else if name = ''wlat'' then 108 else if name = ''rlat'' then 76 else if name = ''bw'' then 66 else if name = ''duplex'' then 100
      else if name = ''poll'' then 80 else if name = ''local_dma_lkey'' then 90 else if name = ''read_inv'' then 82 else if name = ''fr'' then 102
      else if name \<in> {''count'', ''size'', ''addr'', ''addr6'', ''port'', ''tos'', ''txdepth''} then - 22 else - 95)"
  by (simp add: krping_opts_def opt_codes OPT_NOPARAM_def OPT_INT_def OPT_STRING_def)

lemma search_arg:
  "search_opts f krping_opts name (Some v) =
     (if name = ''addr'' then (97, None) else if name = ''addr6'' then (65, None)
      else if name \<in> {''count'', ''size'', ''port'', ''tos'', ''txdepth''} then
        (if snd (f v) = [] then (if name = ''count'' then 67 else if name = ''size'' then 83 else if name = ''port'' then 112
            else if name = ''tos'' then 116 else 84) else - 33, Some (fst (f v)))
      else if name \<in> opt_name ` set krping_opts then (- 22, None) else (- 95, None))"
  by (simp add: krping_opts_def opt_codes OPT_NOPARAM_def OPT_INT_def OPT_STRING_def case_prod_unfold)

text \<open>One option: the new block and the new value of \<open>ret\<close>.\<close>

definition opt_stepped :: "kpapi \<Rightarrow> string \<Rightarrow> krping_cb \<times> c_int \<Rightarrow> krping_cb \<times> c_int \<Rightarrow> bool" where
  "opt_stepped kp t = (\<lambda>(cb, r) (cb', r'). r' = (if opt_error kp t = 0 then r else opt_error kp t) \<and> opt_keeps cb cb'
     \<and> kc_server cb' = (if t = ''client'' then 0 else kc_server cb) \<and> ((r = 0 \<longrightarrow> opt_range cb) \<longrightarrow> (r' = 0 \<longrightarrow> opt_range cb')))"

lemma option_default: "op \<notin> {97, 112, 99, 83, 67, 118} \<Longrightarrow> doit_option api kp op optarg n (cb, r) = Inr (cb, - 22)"
  by (simp add: doit_option_def opt_codes EINVAL_def)

lemma flag_step:
  assumes "strsep (CHR ''='') t = (name, None)"
  shows "\<exists>cr'. doit_option api kp (fst (search_opts f krping_opts name None)) None n cr = Inr cr' \<and> opt_stepped kp t cr cr'"
proof -
  obtain cb r where cr: "cr = (cb, r)" by fastforce
  have t: "t = name" using strsep_text[OF assms] by simp
  have e: "opt_error kp name = (if name = ''client'' \<or> name = ''verbose'' then 0 else - 22)"
    using assms t by (simp add: opt_error_def del: strsep.simps)
  consider "name = ''client''" | "name = ''verbose''" | "name \<noteq> ''client''" "name \<noteq> ''verbose''" by blast
  then show ?thesis
  proof cases
    case 1
    have "doit_option api kp (fst (search_opts f krping_opts name None)) None n cr = Inr (cb\<lparr>kc_server := 0\<rparr>, r)"
      using 1 by (simp add: search_flag doit_option_def opt_codes cr)
    moreover have "opt_stepped kp t cr (cb\<lparr>kc_server := 0\<rparr>, r)"
      using e 1 by (simp add: opt_stepped_def cr t opt_keeps_def kbuf_fresh_def opt_range_def)
    ultimately show ?thesis by blast
  next
    case 2
    have "doit_option api kp (fst (search_opts f krping_opts name None)) None n cr = Inr (cb\<lparr>kc_verbose := kc_verbose cb + 1\<rparr>, r)"
      using 2 by (simp add: search_flag doit_option_def opt_codes cr)
    moreover have "opt_stepped kp t cr (cb\<lparr>kc_verbose := kc_verbose cb + 1\<rparr>, r)"
      using e 2 by (simp add: opt_stepped_def cr t opt_keeps_def kbuf_fresh_def opt_range_def)
    ultimately show ?thesis by blast
  next
    case 3
    have "doit_option api kp (fst (search_opts f krping_opts name None)) None n cr = Inr (cb, - 22)"
    proof -
      have "fst (search_opts f krping_opts name None) \<in> {86, 115, 73, 108, 76, 66, 100, 80, 90, 82, 102, - 22, - 95}"
        using 3 by (simp add: search_flag)
      then have "fst (search_opts f krping_opts name None) \<notin> {97, 112, 99, 83, 67, 118}" by auto
      then show ?thesis by (simp add: option_default cr)
    qed
    moreover have "opt_stepped kp t cr (cb, - 22)" using 3 by (simp add: opt_stepped_def e cr t opt_keeps_def)
    ultimately show ?thesis by blast
  qed
qed

lemma arg_step:
  assumes s: "strsep (CHR ''='') t = (name, Some v)" and so: "search_opts (strtoul kp) krping_opts name (Some v) = (op, num)"
  shows "\<exists>cr'. doit_option api kp op (Some v) (case num of None \<Rightarrow> n | Some k \<Rightarrow> k) cr = Inr cr' \<and> opt_stepped kp t cr cr'"
proof -
  obtain cb r where cr: "cr = (cb, r)" by fastforce
  obtain k rest where k: "strtoul kp v = (k, rest)" by fastforce
  have "t = name @ CHR ''='' # v" using strsep_text[OF s] by simp
  then have "CHR ''='' \<in> set t" by simp
  then have t: "t \<noteq> ''client''" by auto
  note e = opt_error_def[of kp t, unfolded s, simplified k, simplified]
  note defs = k doit_option_def opt_codes EINVAL_def opt_stepped_def e cr t opt_keeps_def kbuf_fresh_def Let_def RPING_BUFSIZE_def opt_range_def
  consider (addr) "name = ''addr''" | (size) "name = ''size''" | (count) "name = ''count''" | (port) "name = ''port''"
    | (other) "name \<notin> {''addr'', ''size'', ''count'', ''port''}" by blast
  then show ?thesis
  proof cases
    case addr
    then have "op = 97" "num = None" using so by (simp_all add: search_arg)
    then show ?thesis using addr by (simp add: defs)
  next
    case size
    then have "op = (if rest = [] then 83 else - 33)" "num = Some k" using so k by (auto simp: search_arg)
    then show ?thesis using size by (cases "rest = []") (auto simp: defs)
  next
    case count
    then have "op = (if rest = [] then 67 else - 33)" "num = Some k" using so k by (auto simp: search_arg)
    then show ?thesis using count by (cases "rest = []") (auto simp: defs)
  next
    case port
    then have "op = (if rest = [] then 112 else - 33)" "num = Some k" using so k by (auto simp: search_arg)
    then show ?thesis using port by (cases "rest = []") (auto simp: defs)
  next
    case other
    then have "op \<in> {65, 116, 84, - 33, - 22, - 95}" using so by (auto simp: search_arg split: if_splits)
    then show ?thesis using other by (auto simp: defs)
  qed
qed

text \<open>The whole loop.\<close>

lemma getopt_some:
  assumes "next_token s = Some (t, r)" and "strsep (CHR ''='') t = (name, v)" and "search_opts f opts name v = (op, num)"
  shows "krping_getopt f opts s = \<lparr>go_ret = op, go_options = r, go_optopt = Some name, go_optarg = v, go_value = num\<rparr>"
  using assms by (simp add: krping_getopt_def)

lemma search_nonzero: "fst (search_opts f krping_opts name v) \<noteq> 0"
  by (cases v) (simp_all add: search_flag search_arg)

lemma doit_opts_run:
  "\<exists>cb' r'. doit_opts api kp s n (cb, r) = Inr (cb', r') \<and> r' = last_error kp (tokens s) r \<and> opt_keeps cb cb'
     \<and> kc_server cb' = (if ''client'' \<in> set (tokens s) then 0 else kc_server cb)
     \<and> ((r = 0 \<longrightarrow> opt_range cb) \<longrightarrow> (r' = 0 \<longrightarrow> opt_range cb'))"
proof (induction "rest_size s" arbitrary: s n cb r rule: less_induct)
  case less
  show ?case
  proof (cases "next_token s")
    case None
    then have "tokens s = []" using next_token_tokens[of s] by simp
    then show ?thesis using None by (simp add: doit_opts.simps krping_getopt_def last_error_def opt_keeps_def)
  next
    case (Some tr)
    obtain t rst where tr: "next_token s = Some (t, rst)" using Some by (cases tr) auto
    obtain name v where nv: "strsep (CHR ''='') t = (name, v)" by fastforce
    obtain op num where so: "search_opts (strtoul kp) krping_opts name v = (op, num)" by fastforce
    have op: "op \<noteq> 0" using search_nonzero[of "strtoul kp" name v] so by simp
    have ts: "tokens s = t # tokens rst" using next_token_tokens[of s] tr by simp
    let ?n = "case num of None \<Rightarrow> n | Some k \<Rightarrow> k"
    have "\<exists>cr'. doit_option api kp op v ?n (cb, r) = Inr cr' \<and> opt_stepped kp t (cb, r) cr'"
      using flag_step[of t name api kp "strtoul kp" ?n "(cb, r)"] arg_step[of t name _ kp op num api n "(cb, r)"] nv so
      by (cases v) auto
    then obtain cb1 r1 where st: "doit_option api kp op v ?n (cb, r) = Inr (cb1, r1)" "opt_stepped kp t (cb, r) (cb1, r1)" by auto
    have "doit_opts api kp s n (cb, r) = doit_opts api kp rst ?n (cb1, r1)"
      by (subst doit_opts.simps) (simp add: getopt_some[OF tr nv so] op st(1) Let_def)
    moreover obtain cb' r' where "doit_opts api kp rst ?n (cb1, r1) = Inr (cb', r')" "r' = last_error kp (tokens rst) r1" "opt_keeps cb1 cb'"
      "kc_server cb' = (if ''client'' \<in> set (tokens rst) then 0 else kc_server cb1)"
      "(r1 = 0 \<longrightarrow> opt_range cb1) \<longrightarrow> (r' = 0 \<longrightarrow> opt_range cb')"
      using less[OF next_token_shrinks[OF tr], of ?n cb1 r1] by blast
    ultimately show ?thesis using st(2) ts by (auto simp: opt_stepped_def opt_keeps_def last_error_def)
  qed
qed

lemma last_error_values: "last_error kp ts r \<in> {r, 22, - 22}"
proof -
  have "opt_error kp t \<in> {0, 22, - 22}" for t by (auto simp: opt_error_def split: prod.splits option.splits)
  then show ?thesis by (induction ts arbitrary: r) (fastforce simp: last_error_def)+
qed

lemma last_error_zero: "last_error kp ts r = 0 \<longleftrightarrow> r = 0 \<and> (\<forall>t \<in> set ts. opt_error kp t = 0)"
  by (induction ts arbitrary: r) (auto simp: last_error_def)

text \<open>The uninitialised number is never used.\<close>

lemma search_num: "search_opts f krping_opts name v = (op, None) \<Longrightarrow> op \<notin> {112, 83, 67}"
proof (cases v)
  case None
  have "fst (search_opts f krping_opts name None) \<notin> {112, 83, 67}" by (simp add: search_flag)
  then show "search_opts f krping_opts name v = (op, None) \<Longrightarrow> ?thesis" using None by simp
qed (auto simp: search_arg split: if_splits)

lemma doit_opts_garbage: "doit_opts api kp s n cr = doit_opts api kp s m cr"
proof (induction "rest_size s" arbitrary: s n m cr rule: less_induct)
  case less
  show ?case
  proof (cases "next_token s")
    case None
    then show ?thesis by (simp add: doit_opts.simps krping_getopt_def)
  next
    case (Some tr)
    obtain t rst where tr: "next_token s = Some (t, rst)" using Some by (cases tr) auto
    obtain name v where nv: "strsep (CHR ''='') t = (name, v)" by fastforce
    obtain op num where so: "search_opts (strtoul kp) krping_opts name v = (op, num)" by fastforce
    note IH = less[OF next_token_shrinks[OF tr]]
    show ?thesis
    proof (cases num)
      case None
      then have "doit_option api kp op v n cr = doit_option api kp op v m cr"
        using search_num so by (cases cr) (simp add: doit_option_def opt_codes)
      then show ?thesis
        unfolding doit_opts.simps[of api kp s] using IH[of n _ m] by (simp add: getopt_some[OF tr nv so] None Let_def split: sum.splits)
    qed (simp add: doit_opts.simps[of api kp s] getopt_some[OF tr nv so] Let_def)
  qed
qed

section \<open>What a command does\<close>

definition doit_cb :: "kapi \<Rightarrow> kpapi \<Rightarrow> string \<Rightarrow> krping_cb" where
  "doit_cb api kp cmd = (case doit_opts api kp (Some cmd) 0
     (zero_krping_cb\<lparr>kc_server := - 1, kc_state := TS_IDLE, kc_size := 64, kc_txdepth := RPING_SQ_DEPTH\<rparr>, 0) of Inr (cb, r) \<Rightarrow> cb)"

abbreviation cmd_error :: "kpapi \<Rightarrow> string \<Rightarrow> c_int" where
  "cmd_error kp cmd \<equiv> last_error kp (tokens (Some cmd)) 0"

lemma doit_opts_cb:
  "doit_opts api kp (Some cmd) n (zero_krping_cb\<lparr>kc_server := - 1, kc_state := TS_IDLE, kc_size := 64, kc_txdepth := RPING_SQ_DEPTH\<rparr>, 0)
     = Inr (doit_cb api kp cmd, cmd_error kp cmd)" (is ?run)
  "kc_server (doit_cb api kp cmd) = (if ''client'' \<in> set (tokens (Some cmd)) then 0 else - 1)"
  "kbuf_fresh (doit_cb api kp cmd)" "kc_frtest (doit_cb api kp cmd) = 0"
  "cmd_error kp cmd = 0 \<Longrightarrow> opt_range (doit_cb api kp cmd)"
proof -
  let ?cb = "zero_krping_cb\<lparr>kc_server := - 1, kc_state := TS_IDLE, kc_size := 64, kc_txdepth := RPING_SQ_DEPTH\<rparr>"
  have z: "opt_range ?cb" "kbuf_fresh ?cb" "kc_frtest ?cb = 0" "kc_server ?cb = - 1" by (simp_all add: opt_range_def kbuf_fresh_def zero_krping_cb_def)
  obtain cb' where r: "doit_opts api kp (Some cmd) 0 (?cb, 0) = Inr (cb', cmd_error kp cmd)" "opt_keeps ?cb cb'"
    "kc_server cb' = (if ''client'' \<in> set (tokens (Some cmd)) then 0 else kc_server ?cb)"
    "(0 = (0 :: c_int) \<longrightarrow> opt_range ?cb) \<longrightarrow> (cmd_error kp cmd = 0 \<longrightarrow> opt_range cb')"
    using doit_opts_run[of api kp "Some cmd" 0 ?cb 0] by blast
  have "doit_cb api kp cmd = cb'" by (simp add: doit_cb_def r(1))
  then show ?run "kc_server (doit_cb api kp cmd) = (if ''client'' \<in> set (tokens (Some cmd)) then 0 else - 1)"
    "kbuf_fresh (doit_cb api kp cmd)" "kc_frtest (doit_cb api kp cmd) = 0" "cmd_error kp cmd = 0 \<Longrightarrow> opt_range (doit_cb api kp cmd)"
    using r z doit_opts_garbage[of api kp "Some cmd" n "(?cb, 0)" 0] by (simp_all add: opt_keeps_def)
qed

lemma doit_start:
  assumes "kzalloc_ret api w (sizeof_krping_cb kp) = cbp" and "cbp \<noteq> 0"
  shows "krping_doit fuel api kp intr srv g cmd w =
     bindK (doit_run fuel api kp intr srv cbp (cmd_error kp cmd)) (\<lambda>ret. thenK (list_del cbp) (thenK (free_at w_kcbs w_kcbs_update cbp) (returnK ret)))
       (w\<lparr>w_trace := EvAlloc cbp (sizeof_krping_cb kp) # w_trace w, w_klist := w_klist w @ [cbp], w_kcbs := (w_kcbs w)(cbp \<mapsto> doit_cb api kp cmd)\<rparr>)"
  using assms by (simp add: krping_doit_def list_add_tail_def run_simps doit_opts_cb(1))

definition klist_ok :: "world \<Rightarrow> bool" where
  "klist_ok w \<longleftrightarrow> set (w_klist w) \<subseteq> dom (w_kcbs w)"

lemma klist_fresh: "klist_ok w \<Longrightarrow> w_kcbs w p = None \<Longrightarrow> remove1 p (w_klist w @ [p]) = w_klist w"
  by (auto simp: klist_ok_def remove1_append)

lemma doit_rejected:
  assumes as: "alloc_sound api" and kl: "klist_ok w" and bad: "cmd_error kp cmd \<noteq> 0 \<or> ''client'' \<notin> set (tokens (Some cmd))"
    and p: "kzalloc_ret api w (sizeof_krping_cb kp) = cbp" "cbp \<noteq> 0"
  shows "krping_doit fuel api kp intr srv g cmd w = Inr (if cmd_error kp cmd = 0 then - 22 else cmd_error kp cmd,
     w\<lparr>w_trace := EvAlloc cbp (sizeof_krping_cb kp) # w_trace w\<rparr>)"
proof -
  have f: "w_kcbs w cbp = None" using alloc_fresh[OF as p] by blast
  have r: "doit_run fuel api kp intr srv cbp (cmd_error kp cmd) x = Inr (if cmd_error kp cmd = 0 then - 22 else cmd_error kp cmd, x)"
    if "w_kcbs x cbp = Some (doit_cb api kp cmd)" for x
    using that bad p(2) by (simp add: doit_run_def run_simps doit_opts_cb EINVAL_def)
  show ?thesis
    unfolding doit_start[OF p] using f p(2) klist_fresh[OF kl f]
    by (simp add: bindK_def[of "doit_run _ _ _ _ _ _ _"] r list_del_def run_simps fun_upd_idem)
qed

text \<open>An accepted command, up to the creation of the identifier.\<close>

definition doit_world :: "kapi \<Rightarrow> kpapi \<Rightarrow> string \<Rightarrow> addr \<Rightarrow> world \<Rightarrow> world" where
  "doit_world api kp cmd cbp w = w\<lparr>w_trace := EvAlloc cbp (sizeof_krping_cb kp) # w_trace w, w_klist := w_klist w @ [cbp],
     w_kcbs := (w_kcbs w)(cbp \<mapsto> doit_cb api kp cmd)\<rparr>"

lemma doit_no_id:
  assumes as: "alloc_sound api" and kl: "klist_ok w" and ok: "cmd_error kp cmd = 0" "''client'' \<in> set (tokens (Some cmd))"
    and p: "kzalloc_ret api w (sizeof_krping_cb kp) = cbp" "cbp \<noteq> 0" and cid: "rdma_create_id_ret api (doit_world api kp cmd cbp w) = cid" "is_err api cid"
  shows "krping_doit fuel api kp intr srv g cmd w = Inr (ptr_err api cid, w\<lparr>w_trace := EvAlloc cbp (sizeof_krping_cb kp) # w_trace w\<rparr>)"
proof -
  have f: "w_kcbs w cbp = None" using alloc_fresh[OF as p] by blast
  have "doit_run fuel api kp intr srv cbp (cmd_error kp cmd) (doit_world api kp cmd cbp w) =
      Inr (ptr_err api cid, (doit_world api kp cmd cbp w)\<lparr>w_kcbs := (w_kcbs w)(cbp \<mapsto> (doit_cb api kp cmd)\<lparr>kc_cm_id := cid\<rparr>)\<rparr>)"
    using p(2) ok cid by (simp add: doit_run_def run_simps doit_opts_cb rdma_create_id_def whenK_def doit_world_def)
  then show ?thesis
    unfolding doit_start[OF p] doit_world_def[symmetric] using p(2) f klist_fresh[OF kl f]
    by (simp add: bindK_def[of "doit_run _ _ _ _ _ _ _"]) (simp add: list_del_def run_simps doit_world_def fun_upd_idem)
qed

lemma doit_accepted:
  assumes ok: "cmd_error kp cmd = 0" "''client'' \<in> set (tokens (Some cmd))"
    and p: "kzalloc_ret api w (sizeof_krping_cb kp) = cbp" "cbp \<noteq> 0" and cid: "rdma_create_id_ret api (doit_world api kp cmd cbp w) = cid" "\<not> is_err api cid"
  shows "krping_doit fuel api kp intr srv g cmd w =
     bindK (thenK (krping_run_client fuel api kp intr cbp) (bindK (get_kcb cbp) (\<lambda>cb. thenK (rdma_destroy_id (kc_cm_id cb)) (returnK 0))))
       (\<lambda>ret. thenK (list_del cbp) (thenK (free_at w_kcbs w_kcbs_update cbp) (returnK ret)))
       ((doit_world api kp cmd cbp w)\<lparr>w_cmids := (w_cmids w)(cid \<mapsto> \<lparr>id_context = cbp, id_qp = NULL\<rparr>),
          w_kcbs := (w_kcbs w)(cbp \<mapsto> (doit_cb api kp cmd)\<lparr>kc_cm_id := cid\<rparr>)\<rparr>)"
proof -
  have "doit_run fuel api kp intr srv cbp (cmd_error kp cmd) (doit_world api kp cmd cbp w) =
      thenK (krping_run_client fuel api kp intr cbp) (bindK (get_kcb cbp) (\<lambda>cb. thenK (rdma_destroy_id (kc_cm_id cb)) (returnK 0)))
        ((doit_world api kp cmd cbp w)\<lparr>w_cmids := (w_cmids w)(cid \<mapsto> \<lparr>id_context = cbp, id_qp = NULL\<rparr>),
          w_kcbs := (w_kcbs w)(cbp \<mapsto> (doit_cb api kp cmd)\<lparr>kc_cm_id := cid\<rparr>)\<rparr>)"
    using p(2) ok cid by (simp add: doit_run_def run_simps doit_opts_cb rdma_create_id_def whenK_def doit_world_def)
  then show ?thesis unfolding doit_start[OF p] doit_world_def[symmetric] by (simp only: bindK_def)
qed

lemma doit_restores:
  assumes as: "alloc_sound api" and vs: "verbs_sound api" and es: "err_ptr_sound api" and ks: "kp_sound api kp"
    and kl: "klist_ok w" and z: "w_dmas w 0 = None"
    and ok: "cmd_error kp cmd = 0" "''client'' \<in> set (tokens (Some cmd))"
    and p: "kzalloc_ret api w (sizeof_krping_cb kp) = cbp" "cbp \<noteq> 0" and cid: "rdma_create_id_ret api (doit_world api kp cmd cbp w) = cid" "\<not> is_err api cid"
    and run: "krping_doit fuel api kp (krping_intr n api kp) srv g cmd w = Inr (r, w')"
  shows "r = 0 \<and> kclean w w' \<and> (w_dmas w' = w_dmas w
     \<or> (\<exists>r w1 w2. krping_setup_buffers api kp cbp w1 = Inr (r, w2) \<and> r \<noteq> 0 \<and> w_dmas w1 = w_dmas w \<and> w_dmas w' = w_dmas w2))"
proof -
  let ?idr = "\<lparr>id_context = cbp, id_qp = NULL\<rparr>" and ?cb = "(doit_cb api kp cmd)\<lparr>kc_cm_id := cid\<rparr>"
  let ?w = "(doit_world api kp cmd cbp w)\<lparr>w_cmids := (w_cmids w)(cid \<mapsto> ?idr), w_kcbs := (w_kcbs w)(cbp \<mapsto> ?cb)\<rparr>"
  have f: "w_kcbs w cbp = None" using alloc_fresh[OF as p] by blast
  have c: "cid \<noteq> 0" "w_cmids w cid = None" using verbs_id[OF vs cid] by (simp_all add: doit_world_def)
  from run[unfolded doit_accepted[OF ok p cid]] obtain u w2 cb2 where r: "krping_run_client fuel api kp (krping_intr n api kp) cbp ?w = Inr (u, w2)"
    and g: "w_kcbs w2 cbp = Some cb2" and fin: "thenK (rdma_destroy_id (kc_cm_id cb2)) (thenK (list_del cbp)
        (thenK (free_at w_kcbs w_kcbs_update cbp) (returnK 0))) w2 = Inr (r, w')"
    by (auto simp: bindK_eq_Inr thenK_eq_Inr kcbs.load_Inr)
  have K: "kconn_ok cid cbp ?idr ?cb ?w" using c p(2) by (simp add: kconn_ok_def doit_world_def)
  have B: "kc_cm_id ?cb = cid" "kc_server ?cb = 0" "kbuf_fresh ?cb" "w_dmas ?w 0 = None" "w_dmas ?w = w_dmas w"
    using doit_opts_cb(2,3)[of api kp cmd] ok z by (simp_all add: kbuf_fresh_def doit_world_def)
  note R = krun_restores[OF K B(1-3) vs es ks B(4) r]
  have kc: "kclean ?w w2" and dm: "w_dmas w2 = w_dmas w \<or> (\<exists>r w1 w2'. krping_setup_buffers api kp cbp w1 = Inr (r, w2') \<and> r \<noteq> 0
      \<and> w_dmas w1 = w_dmas w \<and> w_dmas w2 = w_dmas w2')" using R by (simp_all add: B(5))
  have id: "map_option kc_cm_id (w_kcbs w2 q) = map_option kc_cm_id (w_kcbs ?w q)" for q using kc by (simp add: kclean_def)
  have cm: "kc_cm_id cb2 = cid" using id[of cbp] g by simp
  have D: "dom (w_cmids w2) = insert cid (dom (w_cmids w))" "w_klist w2 = w_klist w @ [cbp]"
    using kc by (auto simp: kclean_def doit_world_def)
  then obtain idr2 where i2: "w_cmids w2 cid = Some idr2" by blast
  have "thenK (rdma_destroy_id cid) (thenK (list_del cbp) (thenK (free_at w_kcbs w_kcbs_update cbp) (returnK (0 :: c_int)))) w2
      = Inr (0, w2\<lparr>w_cmids := (w_cmids w2)(cid := None), w_klist := w_klist w, w_kcbs := (w_kcbs w2)(cbp := None)\<rparr>)"
    using c i2 g p(2) by (simp add: rdma_destroy_id_def list_del_def run_simps D(2) klist_fresh[OF kl f])
  with fin cm have w': "r = 0" "w' = w2\<lparr>w_cmids := (w_cmids w2)(cid := None), w_klist := w_klist w, w_kcbs := (w_kcbs w2)(cbp := None)\<rparr>" by simp_all
  have "map_option kc_cm_id (w_kcbs w' q) = map_option kc_cm_id (w_kcbs w q)" for q
    using id[of q] f by (simp add: w')
  moreover have "dom (w_cmids w') = dom (w_cmids w)" using D(1) c(2) by (auto simp: w')
  ultimately have "kclean w w'" using kc by (simp add: kclean_def w' doit_world_def)
  then show ?thesis using w' dm by simp
qed

section \<open>Sample interface and command\<close>

definition doit_kp :: kpapi where
  "doit_kp = recv_kp\<lparr>strtoul := \<lambda>s. (1, [])\<rparr>"

definition doit_start_world :: world where
  "doit_start_world = empty_world\<lparr>w_pending := [CmEvent 0x6000 RDMA_CM_EVENT_ADDR_RESOLVED, CmEvent 0x6000 RDMA_CM_EVENT_ROUTE_RESOLVED,
     CmEvent 0x6000 RDMA_CM_EVENT_ESTABLISHED, CqEvent 0x4000, CqEvent 0x4000]\<rparr>"

definition documented_cmd :: string where
  "documented_cmd = ''client,port=9999,addr=192.168.69.142,validate''"

definition zero_kp :: kpapi where
  "zero_kp = sample_kp\<lparr>strtoul := \<lambda>s. (0, [])\<rparr>"

definition size_testapi :: testapi where
  "size_testapi = \<lparr>in4_pton = (\<lambda>s. None), try_module_get = (\<lambda>w. True),
     copy_from_user = (\<lambda>w p n. Some (ascii ''client,size=0'' @ [10])), proc_create_ok = (\<lambda>w. True)\<rparr>"

lemma doit_start_world_sel:
  "klist_ok doit_start_world" "w_dmas doit_start_world 0 = None" "kzalloc_ret sample_api doit_start_world n = 16" "w_klist doit_start_world = []"
  by (simp_all add: klist_ok_def doit_start_world_def empty_world_def sample_api_sel sample_alloc_def live_def Let_def)

lemma documented_tokens:
  "tokens (Some documented_cmd) = [''client'', ''port=9999'', ''addr=192.168.69.142'', ''validate'']"
  "opt_error kp ''validate'' = - 22" "opt_error kp ''client'' = 0" "opt_error kp ''addr=192.168.69.142'' = 0"
  by (simp_all add: documented_cmd_def tokens_def opt_error_def)

section \<open>Properties\<close>

text \<open>
  C20. The option loop ends for every command and every numeric conversion, without a NULL argument being read: \<open>ret\<close> is the
  error of the last rejected part of the command, 0 exactly when every part is one of \<open>client\<close>,
  \<open>verbose\<close>, \<open>addr=\<close>, \<open>port=\<close>, \<open>size=\<close> and \<open>count=\<close> with numbers in range; the block is a client exactly when
  the part \<open>client\<close> occurs; and an accepted command leaves a size from 1 to 128 K and a count that is not negative.
\<close>

theorem krping_option_loop:
  assumes "cb = zero_krping_cb\<lparr>kc_server := - 1, kc_state := TS_IDLE, kc_size := 64, kc_txdepth := RPING_SQ_DEPTH\<rparr>"
  shows "\<exists>cb' r. doit_opts api kp (Some cmd) garbage (cb, 0) = Inr (cb', r) \<and> r = last_error kp (tokens (Some cmd)) 0 \<and> r \<in> {0, 22, - 22}
     \<and> (r = 0 \<longleftrightarrow> list_all (\<lambda>t. opt_error kp t = 0) (tokens (Some cmd)))
     \<and> kc_server cb' = (if ''client'' \<in> set (tokens (Some cmd)) then 0 else - 1)
     \<and> (r = 0 \<longrightarrow> 1 \<le> sint (kc_size cb') \<and> sint (kc_size cb') \<le> 131072 \<and> 0 \<le> sint (kc_count cb'))"
  using doit_opts_cb(1)[where n = garbage] doit_opts_cb(2)[of api kp cmd] doit_opts_cb(5)[where api = api and kp = kp and cmd = cmd] last_error_values[of kp "tokens (Some cmd)" 0] last_error_zero[of kp "tokens (Some cmd)" 0]
  unfolding assms by (auto simp: list_all_iff opt_range_def)

theorem krping_option_loop_witness:
  "\<exists>cb' r. doit_opts sample_api doit_kp (Some documented_cmd) 0
     (zero_krping_cb\<lparr>kc_server := - 1, kc_state := TS_IDLE, kc_size := 64, kc_txdepth := RPING_SQ_DEPTH\<rparr>, 0) = Inr (cb', r) \<and> r \<noteq> 0 \<and> kc_server cb' = 0"
  using krping_option_loop[OF refl, where api = sample_api and kp = doit_kp and cmd = documented_cmd and garbage = 0]
  by (auto simp: documented_tokens)



text \<open>
  The command function depends neither on the server function, which the repository does not
  define, nor on the uninitialised variable \<open>optint\<close>: no command reaches a use of either.
\<close>

theorem krping_doit_no_server:
  "krping_doit fuel api kp intr srv garbage cmd w = krping_doit fuel api kp intr srv' garbage' cmd w"
proof (cases "kzalloc_ret api w (sizeof_krping_cb kp) = 0")
  case True
  then show ?thesis by (simp add: krping_doit_def run_simps)
next
  case False
  let ?cbp = "kzalloc_ret api w (sizeof_krping_cb kp)"
  have run: "doit_run fuel api kp intr srv ?cbp r x = doit_run fuel api kp intr srv' ?cbp r x"
    if "w_kcbs x ?cbp = Some (doit_cb api kp cmd)" for r x
    using that False doit_opts_cb(2)[of api kp cmd] by (simp add: doit_run_def run_simps)
  show ?thesis unfolding doit_start[OF refl False] by (simp add: bindK_def[of "doit_run _ _ _ _ _ _ _"] run)
qed

text \<open>
  C18. Running a command leaves nothing behind. Whenever \<open>krping_doit\<close> returns, with any command, error or
  sequence of events, the list of blocks, the heap and every object are as before, except for DMA mappings left by a
  failed \<open>krping_setup_buffers\<close>. The result does not tell whether the pings succeeded: once the
  identifier is created it is 0.
\<close>

theorem krping_doit_restores:
  assumes as: "alloc_sound api" and vs: "verbs_sound api" and es: "err_ptr_sound api" and ks: "kp_sound api kp"
    and kl: "klist_ok w" and z: "w_dmas w 0 = None"
    and run: "krping_doit fuel api kp (krping_intr n api kp) srv garbage cmd w = Inr (r, w')"
  shows "w_klist w' = w_klist w \<and> dom (w_kcbs w') = dom (w_kcbs w) \<and> w_pds w' = w_pds w \<and> w_cqs w' = w_cqs w \<and> w_qps w' = w_qps w
     \<and> dom (w_mrs w') = dom (w_mrs w) \<and> dom (w_bytes w') = dom (w_bytes w) \<and> dom (w_cmids w') = dom (w_cmids w)
     \<and> (w_dmas w' = w_dmas w \<or> r = 0 \<and> (\<exists>e cbp w1 w2. krping_setup_buffers api kp cbp w1 = Inr (e, w2) \<and> e \<noteq> 0
          \<and> w_dmas w1 = w_dmas w \<and> w_dmas w' = w_dmas w2))
     \<and> r \<in> {0, - 12, 22, - 22} \<union> ptr_err api ` {x. is_err api x}"
proof -
  let ?p = "kzalloc_ret api w (sizeof_krping_cb kp)"
  let ?cid = "rdma_create_id_ret api (doit_world api kp cmd ?p w)"
  note ev = last_error_values[of kp "tokens (Some cmd)" 0]
  have same: ?thesis if "w' = w\<lparr>w_trace := t\<rparr>" "r \<in> {- 12, 22, - 22} \<union> ptr_err api ` {x. is_err api x}" for t using that by auto
  consider (null) "?p = 0" | (bad) "?p \<noteq> 0" "cmd_error kp cmd \<noteq> 0 \<or> ''client'' \<notin> set (tokens (Some cmd))"
    | (noid) "?p \<noteq> 0" "cmd_error kp cmd = 0" "''client'' \<in> set (tokens (Some cmd))" "is_err api ?cid"
    | (run) "?p \<noteq> 0" "cmd_error kp cmd = 0" "''client'' \<in> set (tokens (Some cmd))" "\<not> is_err api ?cid" by blast
  then show ?thesis
  proof cases
    case null
    then show ?thesis
      using run by (intro same[where t = "EvAlloc 0 (sizeof_krping_cb kp) # w_trace w"]) (auto simp: krping_doit_def run_simps)
  next
    case bad
    have "r = (if cmd_error kp cmd = 0 then - 22 else cmd_error kp cmd)" "w' = w\<lparr>w_trace := EvAlloc ?p (sizeof_krping_cb kp) # w_trace w\<rparr>"
      using run[unfolded doit_rejected[OF as kl bad(2) refl bad(1)]] by simp_all
    then show ?thesis using ev by (intro same) auto
  next
    case noid
    have "r = ptr_err api ?cid" "w' = w\<lparr>w_trace := EvAlloc ?p (sizeof_krping_cb kp) # w_trace w\<rparr>"
      using run[unfolded doit_no_id[OF as kl noid(2,3) refl noid(1) refl noid(4)]] by simp_all
    then show ?thesis using noid(4) by (intro same) auto
  next
    case run': run
    note R = doit_restores[OF as vs es ks kl z run'(2,3) refl run'(1) refl run'(4) run]
    from R have rk: "r = 0" "kclean w w'" by simp_all
    have "w_dmas w' = w_dmas w \<or> r = 0 \<and> (\<exists>e cbp w1 w2. krping_setup_buffers api kp cbp w1 = Inr (e, w2) \<and> e \<noteq> 0
        \<and> w_dmas w1 = w_dmas w \<and> w_dmas w' = w_dmas w2)" using R by metis
    then show ?thesis using rk kclean_dom[OF rk(2)] by (simp add: kclean_def)
  qed
qed

theorem krping_doit_restores_witness:
  "\<exists>w'. krping_doit 2 sample_api doit_kp (krping_intr 2 sample_api doit_kp) (\<lambda>_. failK NullDeref) 0 ''client,count=1,addr=10.0.0.1'' doit_start_world = Inr (0, w')
     \<and> w_pending w' = [] \<and> w_klist w' = [] \<and> w_kcbs w' = Map.empty \<and> w_bytes w' = Map.empty"
proof -
  let ?run = "krping_doit 2 sample_api doit_kp (krping_intr 2 sample_api doit_kp) (\<lambda>_. failK NullDeref) 0 ''client,count=1,addr=10.0.0.1'' doit_start_world"
  have "case ?run of Inr (r, w') \<Rightarrow> r = 0 \<and> w_pending w' = [] | Inl e \<Rightarrow> False"
    by code_simp
  then obtain w' where run: "?run = Inr (0, w')" "w_pending w' = []" by (auto split: sum.splits)
  have "kp_sound sample_api doit_kp" using recv_kp_sound by (simp add: kp_sound_def doit_kp_def)
  from krping_doit_restores[OF sample_alloc_sound sample_verbs_sound sample_err_ptr_sound this doit_start_world_sel(1,2) run(1)]
  show ?thesis using run by (simp add: doit_start_world_def empty_world_def)
qed

text \<open>
  A rejected command written to the \<open>/proc\<close> entry: memory and the reference on the module are returned, and
  the result is the sign-extended error. When the last rejected part is a size or count out of range the
  error is the positive \<open>EINVAL\<close>, so that the write appears to have taken 22 bytes.
\<close>

theorem krping_write_proc_rejects:
  assumes as: "alloc_sound api" and kl: "klist_ok w" and get: "try_module_get ta w" and n: "count \<noteq> 0"
    and cmd: "kzalloc_ret api (w\<lparr>w_refs := Suc (w_refs w)\<rparr>) count = cmd" "cmd \<noteq> NULL"
    and cp: "copy_from_user ta (w\<lparr>w_refs := Suc (w_refs w), w_trace := EvAlloc cmd count # w_trace w, w_bytes := (w_bytes w)(cmd \<mapsto> junk (unat count))\<rparr>) buffer count = Some bs"
    and err: "last_error kp (tokens (Some (c_string (bs[unat (count - 1) := 0])))) 0 = e" "e \<noteq> 0"
    and mem: "kzalloc_ret api (w\<lparr>w_refs := Suc (w_refs w), w_trace := EvAlloc cmd count # w_trace w, w_bytes := (w_bytes w)(cmd \<mapsto> bs[unat (count - 1) := 0])\<rparr>)
      (sizeof_krping_cb kp) \<noteq> NULL"
  shows "\<exists>t. krping_write_proc_bak fuel api kp ta intr srv junk garbage buffer count w = Inr (scast e, w\<lparr>w_trace := t\<rparr>)"
proof -
  let ?c = "c_string (bs[unat (count - 1) := 0])"
  let ?w = "w\<lparr>w_refs := Suc (w_refs w), w_trace := EvAlloc cmd count # w_trace w, w_bytes := (w_bytes w)(cmd \<mapsto> bs[unat (count - 1) := 0])\<rparr>"
  let ?doit = "\<lambda>cmd. bindK (load w_bytes cmd) (\<lambda>bs. krping_doit fuel api kp intr srv garbage (c_string bs))"
  let ?cbp = "kzalloc_ret api ?w (sizeof_krping_cb kp)"
  have f: "w_bytes w cmd = None" using alloc_fresh(6)[OF as cmd] by simp
  have kl': "klist_ok ?w" using kl by (simp add: klist_ok_def)
  have "?doit cmd ?w = Inr (e, ?w\<lparr>w_trace := EvAlloc ?cbp (sizeof_krping_cb kp) # w_trace ?w\<rparr>)"
    using cmd(2) doit_rejected[where cmd = ?c and kp = kp, OF as kl' _ refl mem] err by (simp add: run_simps)
  from proc_write_run[where doit = ?doit and junk = junk, OF as get n cmd(1)[symmetric] cmd(2) cp this]
  show ?thesis using err(2) f by (simp add: krping_write_proc_bak_def fun_upd_idem) blast
qed

theorem krping_write_proc_rejects_witness:
  "\<exists>t. krping_write_proc_bak 1 sample_api zero_kp size_testapi (krping_intr 2 sample_api zero_kp) (\<lambda>_. failK NullDeref) (\<lambda>n. replicate n 0) 0 0 14 doit_start_world
     = Inr (22, doit_start_world\<lparr>w_trace := t\<rparr>)"
proof -
  let ?bs = "ascii ''client,size=0'' @ [10]"
  have t: "tokens (Some (c_string (?bs[unat ((14 :: u64) - 1) := 0]))) = [''client'', ''size=0'']" by code_simp
  have e: "last_error zero_kp [''client'', ''size=0''] 0 = 22" by code_simp
  have k: "klist_ok doit_start_world" "try_module_get size_testapi doit_start_world" "(14 :: u64) \<noteq> 0"
    "kzalloc_ret sample_api (doit_start_world\<lparr>w_refs := Suc (w_refs doit_start_world)\<rparr>) 14 = 16" "(16 :: addr) \<noteq> 0"
    by (simp_all add: klist_ok_def size_testapi_def sample_api_sel sample_alloc_def live_def Let_def doit_start_world_def empty_world_def)
  show ?thesis
    using krping_write_proc_rejects[OF sample_alloc_sound k, where bs = ?bs and kp = zero_kp and junk = "\<lambda>n. replicate n 0", unfolded t, OF _ e]
    by (simp add: size_testapi_def sample_api_sel sample_alloc_def live_def Let_def doit_start_world_def empty_world_def)
qed

end
